(* ===== verification/Prelude.thy ===== *)
theory Prelude
  imports Complex_Main "HOL-Library.Multiset" "HOL-Library.Sublist"
begin

text \<open>
  Shared vocabulary of the development: the types that name the values of the
  JavaScript program (time values in milliseconds, time-zone offsets, local day
  numbers), the collection \<open>js_eval\<close> of rewrite rules that evaluate the model on
  concrete inputs, and generic lemmas on lists, multisets and rational numbers that
  several component theories share.
\<close>

named_theorems js_eval "rules that evaluate the model of the JavaScript built-ins on literals"

type_synonym time_value = int \<comment> \<open>a JS Date's time value: milliseconds since 1970-01-01T00:00Z\<close>
type_synonym tz_offset = int  \<comment> \<open>local time minus UTC in milliseconds (fixed, no DST)\<close>
type_synonym day_number = int \<comment> \<open>local calendar day, days since 1970-01-01\<close>

text \<open>The one run-time error the handlers can raise: reading a property of
  \<open>undefined\<close> (an index past the end of \<open>subjectData\<close>, a missing element).\<close>

datatype js_error = TypeError

subsection \<open>Floors of rational literals\<close>

text \<open>\<open>Math.floor\<close> applied to a literal fraction, as the shuffle computes it.\<close>

lemma floor_numeral_divide [js_eval]:
  "\<lfloor>(numeral a / numeral b :: rat)\<rfloor> = numeral a div numeral b"
  using floor_divide_of_int_eq [of "numeral a" "numeral b", where 'a = rat] by simp

lemma floor_zero_divide [js_eval]: "\<lfloor>(0 / numeral b :: rat)\<rfloor> = 0"
  by simp

subsection \<open>Lists\<close>

text \<open>Swapping two in-range positions of a list keeps its multiset.\<close>

lemma mset_swap_update [simp]:
  assumes "i < length xs" and "j < length xs"
  shows "mset (xs[i := xs ! j, j := xs ! i]) = mset xs"
proof (cases "i = j")
  case True
  then show ?thesis by simp
next
  case False
  then have "xs[i := xs ! j, j := xs ! i] = xs[j := xs ! i, i := xs ! j]"
    by (simp add: list_update_swap)
  with assms show ?thesis by (simp add: mset_swap)
qed

lemma subseq_distinct_js:
  "subseq xs ys \<Longrightarrow> distinct ys \<Longrightarrow> distinct xs"
  by (induction rule: list_emb.induct) (auto dest: list_emb_set)

lemma subseq_set_subset: "subseq xs ys \<Longrightarrow> set xs \<subseteq> set ys"
  by (induction rule: list_emb.induct) auto

lemma length_filter_sort:
  "length (filter P (sort xs)) = length (filter P xs)"
  by (metis mset_filter mset_sort size_mset)

end
