(* ===== verification/Calendar.thy ===== *)
theory Calendar
  imports Prelude
begin

text \<open>
  The part of JavaScript's \<open>Date\<close> that \<open>processAttendance\<close> in \<open>src/script.js\<close>
  relies on. A Date is its time value (milliseconds since the epoch); local time is the
  time value shifted by a fixed time-zone offset (daylight-saving changes are not
  modelled). \<open>getDay\<close>, \<open>getFullYear\<close>, \<open>getMonth\<close> and \<open>getDate\<close> read the local
  calendar day; \<open>setDate(getDate() + k)\<close> moves a Date by \<open>k\<close> local days and keeps its
  time of day; \<open>toDateString\<close> renders the local calendar day, which the model keeps as
  the day number (the rendering is injective on days). The civil date of a day number is
  computed with the days-to-civil algorithm of the proleptic Gregorian calendar, which
  is what ECMAScript's date functions specify.
\<close>

definition ms_per_day :: int where
  "ms_per_day = 86400000"

definition local_day :: "tz_offset \<Rightarrow> time_value \<Rightarrow> day_number" where
  "local_day tz t = (t + tz) div ms_per_day"

definition day_of_week :: "day_number \<Rightarrow> int" where
  \<comment> \<open>1970-01-01 was a Thursday; Sunday is 0 as in \<open>getDay\<close>\<close>
  "day_of_week d = (d + 4) mod 7"

definition get_day :: "tz_offset \<Rightarrow> time_value \<Rightarrow> int" where
  "get_day tz t = day_of_week (local_day tz t)"

definition set_date_add :: "int \<Rightarrow> time_value \<Rightarrow> time_value" where
  \<comment> \<open>\<open>d.setDate(d.getDate() + k)\<close>: \<open>k\<close> local days later, same local time of day\<close>
  "set_date_add k t = t + k * ms_per_day"

definition civil_from_days :: "day_number \<Rightarrow> int \<times> int \<times> int" where
  \<comment> \<open>(full year, month 0..11, day of month 1..31) of a day number\<close>
  "civil_from_days z0 =
    (let z = z0 + 719468; era = z div 146097; doe = z - era * 146097;
         yoe = (doe - doe div 1460 + doe div 36524 - doe div 146096) div 365;
         y = yoe + era * 400; doy = doe - (365 * yoe + yoe div 4 - yoe div 100);
         mp = (5 * doy + 2) div 153; d = doy - (153 * mp + 2) div 5 + 1;
         m = (if mp < 10 then mp + 3 else mp - 9)
     in (if m \<le> 2 then y + 1 else y, m - 1, d))"

definition get_full_year :: "tz_offset \<Rightarrow> time_value \<Rightarrow> int" where
  "get_full_year tz t = fst (civil_from_days (local_day tz t))"

definition get_month :: "tz_offset \<Rightarrow> time_value \<Rightarrow> int" where
  "get_month tz t = fst (snd (civil_from_days (local_day tz t)))"

definition get_date :: "tz_offset \<Rightarrow> time_value \<Rightarrow> int" where
  "get_date tz t = snd (snd (civil_from_days (local_day tz t)))"

definition week_key :: "tz_offset \<Rightarrow> time_value \<Rightarrow> int \<times> int \<times> int" where
  \<comment> \<open>\<open>`${getFullYear()}-${getMonth()}-${Math.floor(getDate() / 7)}`\<close>\<close>
  "week_key tz t = (get_full_year tz t, get_month tz t, get_date tz t div 7)"

definition week_bucket :: "day_number \<Rightarrow> int \<times> int \<times> int" where
  \<comment> \<open>the week key of a local day\<close>
  "week_bucket d = (case civil_from_days d of (y, m, dd) \<Rightarrow> (y, m, dd div 7))"

subsection \<open>Local days\<close>

lemma local_day_set_date_add [simp]:
  "local_day tz (set_date_add k t) = local_day tz t + k"
proof -
  have "t + k * ms_per_day + tz = (t + tz) + k * ms_per_day" by simp
  then show ?thesis
    by (simp add: local_day_def set_date_add_def ms_per_day_def)
qed

lemma set_date_add_mono [simp]:
  "set_date_add k t \<le> set_date_add k' t \<longleftrightarrow> k \<le> k'"
  by (simp add: set_date_add_def ms_per_day_def)

lemma day_of_week_range [simp]:
  "0 \<le> day_of_week d" "day_of_week d < 7"
  by (simp_all add: day_of_week_def)

lemma day_of_week_succ:
  "day_of_week (d + 1) = (day_of_week d + 1) mod 7"
  by (simp add: day_of_week_def mod_simps add.assoc)

lemma week_key_local_day:
  "local_day tz t = local_day tz t' \<Longrightarrow> week_key tz t = week_key tz t'"
  by (simp add: week_key_def get_full_year_def get_month_def get_date_def)

lemma get_day_local_day:
  "local_day tz t = local_day tz t' \<Longrightarrow> get_day tz t = get_day tz t'"
  by (simp add: get_day_def)

lemma week_key_bucket: "week_key tz t = week_bucket (local_day tz t)"
  by (simp add: week_key_def week_bucket_def get_full_year_def get_month_def get_date_def
           split: prod.split)

lemma local_day_mono: "t \<le> t' \<Longrightarrow> local_day tz t \<le> local_day tz t'"
  by (simp add: local_day_def zdiv_mono1 ms_per_day_def)

lemmas calendar_defs [js_eval] = local_day_def day_of_week_def get_day_def set_date_add_def
  ms_per_day_def civil_from_days_def get_full_year_def get_month_def get_date_def week_key_def week_bucket_def

end
