(* ===== verification/Attendance.thy ===== *)
theory Attendance
  imports Prelude
begin

text \<open>
  The subject data of \<open>src/script.js\<close> (the objects of the global \<open>subjectData\<close>)
  and the attendance arithmetic: the 75\% test \<open>(attended / total) * 100 >= 75\<close>
  with JavaScript's division (a zero divisor gives \<open>Infinity\<close>, \<open>-Infinity\<close> or
  \<open>NaN\<close>, and every comparison with \<open>NaN\<close> is false), the projection of a leave day
  onto a subject (\<open>tempSubjects\<close>), and the two classifications of subjects into safe
  and not safe (the one of \<open>processAttendance\<close> and the one of the page-load path).
  Numbers are exact rationals here; for counts below \<open>2^50\<close> the double-precision
  quotient and product decide the comparison the same way.
\<close>

record slot =
  day :: int
  period :: int

record subject =
  name :: string
  attended :: int
  total :: int
  timetable :: "slot list"

definition pct_at_least_75 :: "int \<Rightarrow> int \<Rightarrow> bool" where
  \<comment> \<open>\<open>(a / t) * 100 >= 75\<close>; \<open>a / 0\<close> is \<open>Infinity\<close> for \<open>a > 0\<close>, \<open>NaN\<close> for 0\<close>
  "pct_at_least_75 a t =
     (if t = 0 then 0 < a else 75 \<le> (of_int a / of_int t :: rat) * 100)"

definition pct_below_75 :: "int \<Rightarrow> int \<Rightarrow> bool" where
  \<comment> \<open>\<open>(a / t) * 100 < 75\<close>; only \<open>-Infinity\<close> is below 75 when \<open>t = 0\<close>\<close>
  "pct_below_75 a t =
     (if t = 0 then a < 0 else (of_int a / of_int t :: rat) * 100 < 75)"

definition floor_ok :: "subject \<Rightarrow> bool" where
  "floor_ok s = pct_at_least_75 (attended s) (total s)"

definition periods_on :: "int \<Rightarrow> subject \<Rightarrow> nat" where
  \<comment> \<open>\<open>s.timetable.filter(slot => slot.day === weekday).length\<close>\<close>
  "periods_on wd s = length (filter (\<lambda>sl. day sl = wd) (timetable s))"

definition project_leave :: "int \<Rightarrow> subject \<Rightarrow> subject" where
  \<comment> \<open>\<open>{ ...s, total: s.total + periods, attended: s.attended }\<close>\<close>
  "project_leave wd s = s\<lparr>total := total s + int (periods_on wd s)\<rparr>"

definition classify_step :: "subject \<Rightarrow> string list \<times> string list \<Rightarrow> string list \<times> string list" where
  "classify_step s acc =
     (case acc of (safe, np) \<Rightarrow>
        if floor_ok s then (safe @ [name s], np) else (safe, np @ [name s]))"

definition classify :: "subject list \<Rightarrow> string list \<times> string list" where
  \<comment> \<open>\<open>subjects.forEach(sub => (ok ? safeSubjects : notPossibleSubjects).push(sub.name))\<close>\<close>
  "classify subs = fold classify_step subs ([], [])"

definition load_classify :: "subject list \<Rightarrow> string list \<times> string list" where
  \<comment> \<open>the two independent \<open>filter\<close>s of the page-load path\<close>
  "load_classify subs =
     (map name (filter (\<lambda>s. pct_at_least_75 (attended s) (total s)) subs),
      map name (filter (\<lambda>s. pct_below_75 (attended s) (total s)) subs))"

subsection \<open>The 75\% test in integer arithmetic\<close>

lemma pct_at_least_75_iff [js_eval]:
  "pct_at_least_75 a t \<longleftrightarrow>
     (if t = 0 then 0 < a else if 0 < t then 3 * t \<le> 4 * a else 4 * a \<le> 3 * t)"
proof (cases "t = 0")
  case True
  then show ?thesis by (simp add: pct_at_least_75_def)
next
  case False
  have q: "75 \<le> q * 100 \<longleftrightarrow> 3 / 4 \<le> q" for q :: rat
    by linarith
  have "75 \<le> (of_int a / of_int t :: rat) * 100 \<longleftrightarrow> 3 / 4 \<le> (of_int a / of_int t :: rat)"
    by (rule q)
  also have "\<dots> \<longleftrightarrow> (if 0 < t then 3 * of_int t \<le> (4 * of_int a :: rat)
                        else 4 * of_int a \<le> (3 * of_int t :: rat))"
    using False by (auto simp: field_simps)
  also have "\<dots> \<longleftrightarrow> (if 0 < t then 3 * t \<le> 4 * a else 4 * a \<le> 3 * t)"
    by (simp only: of_int_le_iff [symmetric, where 'a = rat] of_int_mult of_int_numeral)
  finally show ?thesis using False by (simp add: pct_at_least_75_def)
qed

lemma pct_below_75_iff [js_eval]:
  "pct_below_75 a t \<longleftrightarrow>
     (if t = 0 then a < 0 else if 0 < t then 4 * a < 3 * t else 3 * t < 4 * a)"
proof (cases "t = 0")
  case True
  then show ?thesis by (simp add: pct_below_75_def)
next
  case False
  have "pct_below_75 a t \<longleftrightarrow> \<not> pct_at_least_75 a t"
    using False by (auto simp: pct_below_75_def pct_at_least_75_def)
  with False show ?thesis by (auto simp: pct_at_least_75_iff)
qed

lemma pct_nonzero_total_dichotomy:
  "t \<noteq> 0 \<Longrightarrow> pct_below_75 a t \<longleftrightarrow> \<not> pct_at_least_75 a t"
  by (auto simp: pct_below_75_def pct_at_least_75_def)

subsection \<open>Classification\<close>

lemma fold_classify_step:
  "fold classify_step subs (safe, np) =
     (safe @ map name (filter floor_ok subs), np @ map name (filter (\<lambda>s. \<not> floor_ok s) subs))"
  by (induction subs arbitrary: safe np) (simp_all add: classify_step_def)

lemma periods_on_project [simp]:
  "attended (project_leave wd s) = attended s"
  "total (project_leave wd s) = total s + int (periods_on wd s)"
  "name (project_leave wd s) = name s"
  by (simp_all add: project_leave_def)

text \<open>C5. The floor test \<open>(attended / total) * 100 >= 75\<close>, computed with JavaScript
  division, agrees with integer cross-multiplication: with a positive conducted count it
  is \<open>3 * total <= 4 * attended\<close>; with none, only a positive attended count
  (\<open>Infinity\<close>) passes and \<open>0 / 0 = NaN\<close> fails.\<close>

theorem floor_ok_integer_form:
  "floor_ok s \<longleftrightarrow>
     (if total s = 0 then 0 < attended s
      else if 0 < total s then 3 * total s \<le> 4 * attended s else 4 * attended s \<le> 3 * total s)"
  by (simp add: floor_ok_def pct_at_least_75_iff)

text \<open>C14. The page-load path classifies with two independent tests, \<open>>= 75\<close> and
  \<open>< 75\<close>. A subject at 0 of 0 fails both (\<open>NaN\<close>), so it appears in neither list;
  every other subject appears in exactly one.\<close>

theorem load_classification_drops_unset:
  "length (fst (load_classify subs)) + length (snd (load_classify subs))
     + length (filter (\<lambda>s. attended s = 0 \<and> total s = 0) subs) = length subs"
  by (induction subs) (auto simp: load_classify_def pct_at_least_75_iff pct_below_75_iff)

text \<open>C35. Apart from the subjects at 0 of 0, the page-load classification (the two
  filters of lines 76-77) is the classification of \<open>processAttendance\<close> (the
  \<open>forEach\<close> of line 316): both lists agree, in order, once the subjects with no
  classes yet are left out.\<close>

theorem load_classify_eq_classify:
  "load_classify subs = classify (filter (\<lambda>s. \<not> (attended s = 0 \<and> total s = 0)) subs)"
proof -
  have "filter (\<lambda>s. pct_at_least_75 (attended s) (total s)) subs
        = filter (\<lambda>s. \<not> (attended s = 0 \<and> total s = 0) \<and> floor_ok s) subs"
    by (rule filter_cong) (auto simp: floor_ok_def pct_at_least_75_iff)
  moreover have "filter (\<lambda>s. pct_below_75 (attended s) (total s)) subs
        = filter (\<lambda>s. \<not> (attended s = 0 \<and> total s = 0) \<and> \<not> floor_ok s) subs"
    by (rule filter_cong) (auto simp: floor_ok_def pct_at_least_75_iff pct_below_75_iff)
  ultimately show ?thesis
    by (simp add: load_classify_def classify_def fold_classify_step filter_filter)
qed

end
