(* ===== verification/Scheduler.thy ===== *)
theory Scheduler
  imports Calendar Attendance
begin

text \<open>
  \<open>processAttendance(subjects, today, endDate)\<close> of \<open>src/script.js\<close>: the
  enumeration of the weekdays after \<open>today\<close> up to \<open>endDate\<close> (a \<open>while\<close> loop over
  a Date advanced one local day at a time), the Fisher-Yates shuffle driven by
  \<open>Math.random\<close> (an injected source \<open>rnd\<close>: \<open>rnd i\<close> is the value drawn when the
  loop index is \<open>i\<close>), the greedy acceptance of each candidate in shuffled order
  against the spacing rule, the weekly cap and the attendance floor, the chronological
  sort of the accepted dates and the classification of the subjects.
\<close>

subsection \<open>Candidate weekdays\<close>

function working_dates :: "tz_offset \<Rightarrow> time_value \<Rightarrow> time_value \<Rightarrow> time_value list" where
  "working_dates tz cur e =
     (if cur \<le> e then
        (if 1 \<le> get_day tz cur \<and> get_day tz cur \<le> 5 then [cur] else [])
        @ working_dates tz (set_date_add 1 cur) e
      else [])"
  by pat_completeness auto
termination
  by (relation "measure (\<lambda>(tz, cur, e). nat (e - cur + 1))")
     (auto simp: set_date_add_def ms_per_day_def)

declare working_dates.simps [simp del]

definition candidate_dates :: "tz_offset \<Rightarrow> time_value \<Rightarrow> time_value option \<Rightarrow> time_value list" where
  \<comment> \<open>\<open>current = today + 1 day\<close>; an invalid \<open>endDate\<close> (\<open>None\<close>, time value \<open>NaN\<close>)
      fails every comparison, so the loop never runs\<close>
  "candidate_dates tz today e =
     (case e of None \<Rightarrow> [] | Some e' \<Rightarrow> working_dates tz (set_date_add 1 today) e')"

subsection \<open>Fisher-Yates shuffle\<close>

definition swap_js :: "nat \<Rightarrow> nat \<Rightarrow> 'a list \<Rightarrow> 'a list" where
  \<comment> \<open>\<open>[a[i], a[j]] = [a[j], a[i]]\<close>\<close>
  "swap_js i j xs = xs[i := xs ! j, j := xs ! i]"

definition random_index :: "rat \<Rightarrow> nat \<Rightarrow> nat" where
  \<comment> \<open>\<open>Math.floor(Math.random() * (i + 1))\<close>\<close>
  "random_index r i = nat \<lfloor>r * of_nat (i + 1)\<rfloor>"

fun shuffle_from :: "(nat \<Rightarrow> rat) \<Rightarrow> nat \<Rightarrow> 'a list \<Rightarrow> 'a list" where
  "shuffle_from rnd 0 xs = xs"
| "shuffle_from rnd (Suc i) xs =
     shuffle_from rnd i (swap_js (Suc i) (random_index (rnd (Suc i)) (Suc i)) xs)"

definition shuffle :: "(nat \<Rightarrow> rat) \<Rightarrow> 'a list \<Rightarrow> 'a list" where
  \<comment> \<open>\<open>for (let i = n - 1; i > 0; i--)\<close>\<close>
  "shuffle rnd xs = shuffle_from rnd (length xs - 1) xs"

definition random_source :: "(nat \<Rightarrow> rat) \<Rightarrow> bool" where
  \<comment> \<open>what \<open>Math.random\<close> promises: every draw lies in \<open>[0, 1)\<close>\<close>
  "random_source rnd \<longleftrightarrow> (\<forall>i. 0 \<le> rnd i \<and> rnd i < 1)"

subsection \<open>Greedy selection\<close>

record sel_state =
  selectedDates :: "time_value list"
  selectedDateStrings :: "day_number set"
  weekLeaveCount :: "int \<times> int \<times> int \<Rightarrow> nat option"

definition init_sel :: sel_state where
  "init_sel = \<lparr>selectedDates = [], selectedDateStrings = {}, weekLeaveCount = Map.empty\<rparr>"

definition week_full :: "nat option \<Rightarrow> bool" where
  \<comment> \<open>\<open>weekLeaveCount[weekKey] >= 2\<close>; \<open>undefined >= 2\<close> is false\<close>
  "week_full c = (case c of None \<Rightarrow> False | Some n \<Rightarrow> 2 \<le> n)"

definition spacing_blocked :: "tz_offset \<Rightarrow> sel_state \<Rightarrow> time_value \<Rightarrow> bool" where
  \<comment> \<open>the previous two local days, by \<open>toDateString\<close>, are both selected\<close>
  "spacing_blocked tz st t \<longleftrightarrow>
     local_day tz t - 1 \<in> selectedDateStrings st \<and> local_day tz t - 2 \<in> selectedDateStrings st"

definition floor_holds :: "tz_offset \<Rightarrow> subject list \<Rightarrow> time_value \<Rightarrow> bool" where
  \<comment> \<open>\<open>tempSubjects.every(s => (s.attended / s.total) * 100 >= 75)\<close>\<close>
  "floor_holds tz subs t = list_all (\<lambda>s. floor_ok (project_leave (get_day tz t - 1) s)) subs"

definition accept_date :: "tz_offset \<Rightarrow> time_value \<Rightarrow> sel_state \<Rightarrow> sel_state" where
  \<comment> \<open>push the date, record its date string, count it in its week\<close>
  "accept_date tz t st =
     st\<lparr>selectedDates := selectedDates st @ [t],
        selectedDateStrings := insert (local_day tz t) (selectedDateStrings st),
        weekLeaveCount := (weekLeaveCount st)(week_key tz t \<mapsto>
           (case weekLeaveCount st (week_key tz t) of None \<Rightarrow> 0 | Some n \<Rightarrow> n) + 1)\<rparr>"

definition leave_step :: "tz_offset \<Rightarrow> subject list \<Rightarrow> time_value \<Rightarrow> sel_state \<Rightarrow> sel_state" where
  "leave_step tz subs t st =
     (if spacing_blocked tz st t then st
      else if week_full (weekLeaveCount st (week_key tz t)) then st
      else if \<not> floor_holds tz subs t then st
      else accept_date tz t st)"

definition select_leaves :: "tz_offset \<Rightarrow> subject list \<Rightarrow> time_value list \<Rightarrow> sel_state" where
  \<comment> \<open>\<open>for (const day of workingDates) { ... }\<close>\<close>
  "select_leaves tz subs ds = fold (leave_step tz subs) ds init_sel"

subsection \<open>Result\<close>

record leave_result =
  finalLeaveDates :: "day_number list"
  safeSubjects :: "string list"
  notPossibleSubjects :: "string list"

definition process_attendance ::
  "tz_offset \<Rightarrow> (nat \<Rightarrow> rat) \<Rightarrow> subject list \<Rightarrow> time_value \<Rightarrow> time_value option \<Rightarrow> leave_result" where
  "process_attendance tz rnd subs today e =
     (let st = select_leaves tz subs (shuffle rnd (candidate_dates tz today e))
      in case classify subs of (safe, np) \<Rightarrow>
           \<lparr>finalLeaveDates = map (local_day tz) (sort (selectedDates st)),
            safeSubjects = safe, notPossibleSubjects = np\<rparr>)"

subsection \<open>Bookkeeping of the greedy loop and of its results\<close>

definition wk_count :: "tz_offset \<Rightarrow> time_value list \<Rightarrow> int \<times> int \<times> int \<Rightarrow> nat" where
  "wk_count tz ts wk = length (filter (\<lambda>t. week_key tz t = wk) ts)"

definition sel_inv :: "tz_offset \<Rightarrow> sel_state \<Rightarrow> bool" where
  "sel_inv tz st \<longleftrightarrow>
     selectedDateStrings st = local_day tz ` set (selectedDates st) \<and>
     (\<forall>wk. weekLeaveCount st wk =
        (if wk_count tz (selectedDates st) wk = 0 then None else Some (wk_count tz (selectedDates st) wk))) \<and>
     (\<forall>wk. wk_count tz (selectedDates st) wk \<le> 2)"

definition three_in_a_row :: "day_number set \<Rightarrow> bool" where
  "three_in_a_row S \<longleftrightarrow> (\<exists>d\<in>S. d + 1 \<in> S \<and> d + 2 \<in> S)"

definition in_order_draws :: "nat \<Rightarrow> rat" where
  "in_order_draws i = of_nat i / of_nat (i + 1)"


subsection \<open>Sample data used by the scenario theorems\<close>

text \<open>Time values of 2026 in UTC (\<open>tz = 0\<close>): day 20577 is Monday 4 May 2026,
  day 20640 is Monday 6 July 2026; \<open>noon d\<close> is 12:00 of day \<open>d\<close> and
  \<open>midnight d\<close> its start, which is what \<open>new Date("YYYY-MM-DD")\<close> gives.\<close>

abbreviation noon :: "day_number \<Rightarrow> time_value" where
  "noon d \<equiv> d * 86400000 + 43200000"

abbreviation midnight :: "day_number \<Rightarrow> time_value" where
  "midnight d \<equiv> d * 86400000"

abbreviation math_subject :: subject where
  "math_subject \<equiv> \<lparr>name = ''Math'', attended = 30, total = 40,
     timetable = [\<lparr>day = 0, period = 0\<rparr>]\<rparr>"

abbreviation physics_subject :: subject where
  "physics_subject \<equiv> \<lparr>name = ''Physics'', attended = 18, total = 30, timetable = []\<rparr>"

abbreviation daily_subject :: subject where
  "daily_subject \<equiv> \<lparr>name = ''Art'', attended = 3, total = 3,
     timetable = [\<lparr>day = 0, period = 0\<rparr>, \<lparr>day = 1, period = 0\<rparr>, \<lparr>day = 2, period = 0\<rparr>,
                  \<lparr>day = 3, period = 0\<rparr>, \<lparr>day = 4, period = 0\<rparr>]\<rparr>"

abbreviation fresh_subject :: subject where
  "fresh_subject \<equiv> \<lparr>name = ''New'', attended = 0, total = 0, timetable = []\<rparr>"

subsection \<open>Enumeration\<close>


lemma working_dates_unfold:
  "working_dates tz cur e =
     (if cur \<le> e then
        (if 1 \<le> get_day tz cur \<and> get_day tz cur \<le> 5 then [cur] else [])
        @ working_dates tz (set_date_add 1 cur) e
      else [])"
  by (rule working_dates.simps)

lemma working_dates_sound:
  "t \<in> set (working_dates tz cur e) \<Longrightarrow>
     (\<exists>k::nat. t = set_date_add (int k) cur) \<and> t \<le> e \<and> 1 \<le> get_day tz t \<and> get_day tz t \<le> 5"
proof (induction tz cur e rule: working_dates.induct)
  case (1 tz cur e)
  show ?case
  proof (cases "cur \<le> e")
    case False
    with "1.prems" show ?thesis by (simp add: working_dates_unfold [of tz cur e])
  next
    case True
    show ?thesis
    proof (cases "t = cur \<and> 1 \<le> get_day tz cur \<and> get_day tz cur \<le> 5")
      case True
      with \<open>cur \<le> e\<close> show ?thesis by (auto intro: exI [of _ 0] simp: set_date_add_def)
    next
      case False
      with True "1.prems" have "t \<in> set (working_dates tz (set_date_add 1 cur) e)"
        by (auto simp: working_dates_unfold [of tz cur e] split: if_splits)
      with True "1.IH" obtain k :: nat where "t = set_date_add (int k) (set_date_add 1 cur)"
        and rest: "t \<le> e \<and> 1 \<le> get_day tz t \<and> get_day tz t \<le> 5"
        by blast
      then have "t = set_date_add (int (Suc k)) cur"
        by (simp add: set_date_add_def algebra_simps)
      with rest show ?thesis by blast
    qed
  qed
qed

lemma working_dates_complete:
  "set_date_add (int k) cur \<le> e \<Longrightarrow> 1 \<le> get_day tz (set_date_add (int k) cur) \<Longrightarrow>
     get_day tz (set_date_add (int k) cur) \<le> 5 \<Longrightarrow>
     set_date_add (int k) cur \<in> set (working_dates tz cur e)"
proof (induction k arbitrary: cur)
  case 0
  then show ?case by (simp add: working_dates_unfold [of tz cur e] set_date_add_def)
next
  case (Suc k)
  have shift: "set_date_add (int (Suc k)) cur = set_date_add (int k) (set_date_add 1 cur)"
    by (simp add: set_date_add_def algebra_simps)
  have "cur \<le> set_date_add (int (Suc k)) cur"
    by (simp add: set_date_add_def ms_per_day_def)
  with Suc.prems have "cur \<le> e" by linarith
  from Suc.prems have "set_date_add (int k) (set_date_add 1 cur) \<in> set (working_dates tz (set_date_add 1 cur) e)"
    by (intro Suc.IH) (simp_all only: shift [symmetric])
  with \<open>cur \<le> e\<close> have "set_date_add (int k) (set_date_add 1 cur) \<in> set (working_dates tz cur e)"
    by (simp add: working_dates_unfold [of tz cur e])
  then show ?case by (simp only: shift)
qed

lemma local_day_working_dates:
  "t \<in> set (working_dates tz cur e) \<Longrightarrow> local_day tz cur \<le> local_day tz t"
  using working_dates_sound [of t tz cur e] by auto

lemma working_dates_sorted:
  "sorted_wrt (\<lambda>a b. local_day tz a < local_day tz b) (working_dates tz cur e)"
proof (induction tz cur e rule: working_dates.induct)
  case (1 tz cur e)
  have later: "local_day tz cur < local_day tz t"
    if "t \<in> set (working_dates tz (set_date_add 1 cur) e)" for t
    using local_day_working_dates [OF that] by simp
  show ?case
  proof (cases "cur \<le> e")
    case True
    with "1.IH" later show ?thesis
      by (auto simp: working_dates_unfold [of tz cur e])
  next
    case False
    then show ?thesis by (simp add: working_dates_unfold [of tz cur e])
  qed
qed

subsection \<open>Shuffle\<close>


lemma random_index_le:
  assumes "0 \<le> r" and "r < 1"
  shows "random_index r i \<le> i"
proof -
  have "r * of_nat (i + 1) < of_nat (i + 1)"
    using assms by (simp add: mult_less_cancel_right2 del: of_nat_Suc)
  then have "\<lfloor>r * of_nat (i + 1)\<rfloor> < int (i + 1)"
    by (simp add: floor_less_iff del: of_nat_Suc)
  then show ?thesis by (simp add: random_index_def)
qed

lemma shuffle_from_perm:
  "random_source rnd \<Longrightarrow> i < length xs \<Longrightarrow> mset (shuffle_from rnd i xs) = mset xs"
proof (induction rnd i xs rule: shuffle_from.induct)
  case (1 rnd xs)
  then show ?case by simp
next
  case (2 rnd i xs)
  let ?j = "random_index (rnd (Suc i)) (Suc i)"
  from "2.prems"(1) have "?j \<le> Suc i"
    by (intro random_index_le) (simp_all add: random_source_def)
  with "2.prems"(2) have j: "?j < length xs" by linarith
  from "2.prems" have "mset (shuffle_from rnd i (swap_js (Suc i) ?j xs)) = mset (swap_js (Suc i) ?j xs)"
    by (intro "2.IH") (simp_all add: swap_js_def)
  also have "\<dots> = mset xs"
    using j "2.prems"(2) by (simp add: swap_js_def)
  finally show ?case by simp
qed


subsection \<open>The greedy loop keeps its bookkeeping consistent\<close>

lemma leave_step_cases:
  "leave_step tz subs t st = st \<or>
   (\<not> spacing_blocked tz st t \<and> \<not> week_full (weekLeaveCount st (week_key tz t)) \<and>
    floor_holds tz subs t \<and> leave_step tz subs t st = accept_date tz t st)"
  by (simp add: leave_step_def)

lemma accept_date_sel [simp]:
  "selectedDates (accept_date tz t st) = selectedDates st @ [t]"
  "selectedDateStrings (accept_date tz t st) = insert (local_day tz t) (selectedDateStrings st)"
  "weekLeaveCount (accept_date tz t st) = (weekLeaveCount st)(week_key tz t \<mapsto>
       (case weekLeaveCount st (week_key tz t) of None \<Rightarrow> 0 | Some n \<Rightarrow> n) + 1)"
  by (simp_all add: accept_date_def)

lemma sel_inv_init: "sel_inv tz init_sel"
  by (simp add: sel_inv_def init_sel_def wk_count_def)

lemma wk_count_snoc:
  "wk_count tz (ts @ [t]) wk = wk_count tz ts wk + (if week_key tz t = wk then 1 else 0)"
  by (simp add: wk_count_def)

lemma sel_invD:
  assumes "sel_inv tz st"
  shows "selectedDateStrings st = local_day tz ` set (selectedDates st)"
    and "weekLeaveCount st wk =
        (if wk_count tz (selectedDates st) wk = 0 then None else Some (wk_count tz (selectedDates st) wk))"
    and "wk_count tz (selectedDates st) wk \<le> 2"
  using assms unfolding sel_inv_def by blast+

lemma sel_invI:
  assumes "selectedDateStrings st = local_day tz ` set (selectedDates st)"
    and "\<And>wk. weekLeaveCount st wk =
        (if wk_count tz (selectedDates st) wk = 0 then None else Some (wk_count tz (selectedDates st) wk))"
    and "\<And>wk. wk_count tz (selectedDates st) wk \<le> 2"
  shows "sel_inv tz st"
  using assms unfolding sel_inv_def by blast

lemma sel_inv_accept:
  assumes inv: "sel_inv tz st" and free: "\<not> week_full (weekLeaveCount st (week_key tz t))"
  shows "sel_inv tz (accept_date tz t st)"
proof (rule sel_invI)
  let ?wk = "week_key tz t" and ?c = "wk_count tz (selectedDates st)"
  have old: "(case weekLeaveCount st ?wk of None \<Rightarrow> 0 | Some n \<Rightarrow> n) = ?c ?wk"
    using sel_invD(2) [OF inv, of ?wk] by simp
  from free have below: "?c ?wk < 2"
    using sel_invD(2) [OF inv, of ?wk] by (auto simp: week_full_def split: if_splits)
  show "selectedDateStrings (accept_date tz t st) = local_day tz ` set (selectedDates (accept_date tz t st))"
    using sel_invD(1) [OF inv] by simp
  fix wk
  show "weekLeaveCount (accept_date tz t st) wk =
      (if wk_count tz (selectedDates (accept_date tz t st)) wk = 0 then None
       else Some (wk_count tz (selectedDates (accept_date tz t st)) wk))"
    using old sel_invD(2) [OF inv, of wk] by (simp add: wk_count_snoc)
  show "wk_count tz (selectedDates (accept_date tz t st)) wk \<le> 2"
    using below sel_invD(3) [OF inv, of wk] by (cases "wk = ?wk") (simp_all add: wk_count_snoc)
qed

lemma sel_inv_step:
  assumes "sel_inv tz st"
  shows "sel_inv tz (leave_step tz subs t st)"
  using leave_step_cases [of tz subs t st] assms sel_inv_accept by auto

lemma sel_inv_fold:
  "sel_inv tz st \<Longrightarrow> sel_inv tz (fold (leave_step tz subs) ds st)"
  by (induction ds arbitrary: st) (simp_all add: sel_inv_step)

lemma sel_inv_select_leaves: "sel_inv tz (select_leaves tz subs ds)"
  by (simp add: select_leaves_def sel_inv_fold sel_inv_init)

lemma selected_fold:
  "\<exists>ys. selectedDates (fold (leave_step tz subs) ds st) = selectedDates st @ ys \<and>
        subseq ys ds \<and> (\<forall>t\<in>set ys. floor_holds tz subs t)"
proof (induction ds arbitrary: st)
  case Nil
  then show ?case by simp
next
  case (Cons t ds)
  obtain ys where ys: "selectedDates (fold (leave_step tz subs) ds (leave_step tz subs t st)) =
      selectedDates (leave_step tz subs t st) @ ys" "subseq ys ds" "\<forall>u\<in>set ys. floor_holds tz subs u"
    using Cons.IH by blast
  from leave_step_cases [of tz subs t st] show ?case
  proof
    assume "leave_step tz subs t st = st"
    with ys show ?thesis by (auto intro: subseq_Cons2)
  next
    assume acc: "\<not> spacing_blocked tz st t \<and> \<not> week_full (weekLeaveCount st (week_key tz t)) \<and>
      floor_holds tz subs t \<and> leave_step tz subs t st = accept_date tz t st"
    with ys show ?thesis
      by (intro exI [of _ "t # ys"]) auto
  qed
qed

subsection \<open>Spacing\<close>
lemma three_in_a_row_insert_max:
  assumes "\<not> three_in_a_row S" and "\<forall>d\<in>S. d < D" and "\<not> (D - 1 \<in> S \<and> D - 2 \<in> S)"
  shows "\<not> three_in_a_row (insert D S)"
proof
  assume "three_in_a_row (insert D S)"
  then obtain d where d: "d \<in> insert D S" "d + 1 \<in> insert D S" "d + 2 \<in> insert D S"
    by (auto simp: three_in_a_row_def)
  have "d + 2 = D"
  proof (rule ccontr)
    assume "d + 2 \<noteq> D"
    with d assms(2) have "d + 2 \<in> S" "d + 1 \<in> S" "d \<in> S" by force+
    with assms(1) show False by (auto simp: three_in_a_row_def)
  qed
  with d have in_S: "d \<in> S" "d + 1 \<in> S" by auto
  have eq: "D - 1 = d + 1" "D - 2 = d" using \<open>d + 2 = D\<close> by simp_all
  from in_S have "D - 1 \<in> S" "D - 2 \<in> S" by (simp_all only: eq)
  with assms(3) show False by blast
qed

lemma spacing_fold_in_order:
  assumes "sorted_wrt (\<lambda>a b. local_day tz a < local_day tz b) ds"
    and "\<forall>d\<in>selectedDateStrings st. \<forall>t\<in>set ds. d < local_day tz t"
    and "\<not> three_in_a_row (selectedDateStrings st)"
  shows "\<not> three_in_a_row (selectedDateStrings (fold (leave_step tz subs) ds st))"
  using assms
proof (induction ds arbitrary: st)
  case Nil
  then show ?case by simp
next
  case (Cons t ds)
  let ?st' = "leave_step tz subs t st"
  from leave_step_cases [of tz subs t st]
  have "\<not> three_in_a_row (selectedDateStrings ?st') \<and>
        (\<forall>d\<in>selectedDateStrings ?st'. \<forall>u\<in>set ds. d < local_day tz u)"
  proof
    assume "?st' = st"
    with Cons.prems show ?thesis by simp
  next
    assume acc: "\<not> spacing_blocked tz st t \<and> \<not> week_full (weekLeaveCount st (week_key tz t)) \<and>
      floor_holds tz subs t \<and> ?st' = accept_date tz t st"
    with Cons.prems have "\<not> three_in_a_row (insert (local_day tz t) (selectedDateStrings st))"
      by (intro three_in_a_row_insert_max) (auto simp: spacing_blocked_def)
    with acc Cons.prems(1,2) show ?thesis by auto
  qed
  then have "\<not> three_in_a_row (selectedDateStrings (fold (leave_step tz subs) ds ?st'))"
    using Cons.prems(1) by (intro Cons.IH) auto
  then show ?case by simp
qed

subsection \<open>Results of processAttendance\<close>
lemma final_dates_eq:
  "finalLeaveDates (process_attendance tz rnd subs today e) =
     map (local_day tz) (sort (selectedDates (select_leaves tz subs (shuffle rnd (candidate_dates tz today e)))))"
  by (simp add: process_attendance_def split: prod.split)

lemma classify_result:
  "safeSubjects (process_attendance tz rnd subs today e) = map name (filter floor_ok subs)"
  "notPossibleSubjects (process_attendance tz rnd subs today e) = map name (filter (\<lambda>s. \<not> floor_ok s) subs)"
  by (simp_all add: process_attendance_def classify_def fold_classify_step)

lemma selected_select_leaves:
  obtains ys where "selectedDates (select_leaves tz subs ds) = ys" "subseq ys ds"
    "\<forall>t\<in>set ys. floor_holds tz subs t"
  using selected_fold [of tz subs ds init_sel] by (auto simp: select_leaves_def init_sel_def)

text \<open>C1. Attendance floor: for every date \<open>processAttendance\<close> reports and every subject, the subject's attended count over its conducted count plus its classes on that weekday is at least 75\%.\<close>

theorem leave_dates_respect_floor:
  assumes "d \<in> set (finalLeaveDates (process_attendance tz rnd subs today e))" and "s \<in> set subs"
  shows "pct_at_least_75 (attended s) (total s + int (periods_on (day_of_week d - 1) s))"
proof -
  let ?ds = "shuffle rnd (candidate_dates tz today e)"
  obtain ys where ys: "selectedDates (select_leaves tz subs ?ds) = ys" "\<forall>t\<in>set ys. floor_holds tz subs t"
    by (rule selected_select_leaves)
  from assms(1) ys(1) obtain t where "t \<in> set ys" and d: "d = local_day tz t"
    by (auto simp: final_dates_eq)
  with ys(2) assms(2) have "floor_ok (project_leave (get_day tz t - 1) s)"
    by (auto simp: floor_holds_def list_all_iff)
  with d show ?thesis by (simp add: floor_ok_def get_day_def)
qed

text \<open>C2. Weekly cap: at most two reported leave dates fall in any week bucket (year, month, day of month div 7).\<close>

theorem weekly_cap:
  "length (filter (\<lambda>d. week_bucket d = wk) (finalLeaveDates (process_attendance tz rnd subs today e))) \<le> 2"
proof -
  let ?sel = "selectedDates (select_leaves tz subs (shuffle rnd (candidate_dates tz today e)))"
  have "length (filter (\<lambda>d. week_bucket d = wk) (finalLeaveDates (process_attendance tz rnd subs today e)))
        = wk_count tz ?sel wk"
    by (simp add: final_dates_eq filter_map comp_def wk_count_def week_key_bucket length_filter_sort)
  also have "\<dots> \<le> 2" by (rule sel_invD(3) [OF sel_inv_select_leaves])
  finally show ?thesis .
qed

lemma shuffle_from_in_order: "shuffle_from in_order_draws i xs = xs"
proof (induction i arbitrary: xs)
  case 0
  then show ?case by simp
next
  case (Suc i)
  have "random_index (in_order_draws (Suc i)) (Suc i) = Suc i"
    by (simp add: random_index_def in_order_draws_def del: of_nat_Suc)
  with Suc show ?case by (simp add: swap_js_def)
qed

lemma shuffle_in_order: "shuffle in_order_draws xs = xs"
  by (simp add: shuffle_def shuffle_from_in_order)

lemma set_final_dates:
  "set (finalLeaveDates (process_attendance tz rnd subs today e)) =
     selectedDateStrings (select_leaves tz subs (shuffle rnd (candidate_dates tz today e)))"
  by (simp add: final_dates_eq sel_invD(1) [OF sel_inv_select_leaves])

text \<open>C3. Spacing when candidates are visited in calendar order: for the draws that leave the shuffle the identity, no three consecutive calendar days are all reported.\<close>

theorem spacing_in_chronological_order:
  "\<not> three_in_a_row (set (finalLeaveDates (process_attendance tz in_order_draws subs today e)))"
proof -
  have "sorted_wrt (\<lambda>a b. local_day tz a < local_day tz b) (candidate_dates tz today e)"
    by (simp add: candidate_dates_def working_dates_sorted split: option.split)
  then have "\<not> three_in_a_row (selectedDateStrings
      (fold (leave_step tz subs) (candidate_dates tz today e) init_sel))"
    by (intro spacing_fold_in_order) (simp_all add: init_sel_def three_in_a_row_def)
  then show ?thesis
    by (simp add: set_final_dates shuffle_in_order select_leaves_def)
qed

lemma distinct_candidate_days:
  "distinct (map (local_day tz) (candidate_dates tz today e))"
proof -
  have "sorted_wrt (\<lambda>a b. local_day tz a < local_day tz b) (candidate_dates tz today e)"
    by (simp add: candidate_dates_def working_dates_sorted split: option.split)
  then have "sorted_wrt (<) (map (local_day tz) (candidate_dates tz today e))"
    by (simp add: sorted_wrt_map)
  then show ?thesis by (simp add: strict_sorted_iff)
qed

lemma selected_in_candidates:
  assumes "random_source rnd"
  shows "distinct (map (local_day tz) (selectedDates (select_leaves tz subs (shuffle rnd (candidate_dates tz today e)))))"
    and "set (selectedDates (select_leaves tz subs (shuffle rnd (candidate_dates tz today e))))
           \<subseteq> set (candidate_dates tz today e)"
proof -
  let ?c = "candidate_dates tz today e"
  obtain ys where ys: "selectedDates (select_leaves tz subs (shuffle rnd ?c)) = ys" "subseq ys (shuffle rnd ?c)"
    by (rule selected_select_leaves)
  have m: "mset (shuffle rnd ?c) = mset ?c"
    using assms by (cases ?c) (simp_all add: shuffle_def shuffle_from_perm)
  then have mm: "mset (map (local_day tz) (shuffle rnd ?c)) = mset (map (local_day tz) ?c)" by simp
  have "distinct (map (local_day tz) (shuffle rnd ?c))"
    using mset_eq_imp_distinct_iff [OF mm] distinct_candidate_days [of tz today e] by simp
  moreover have "subseq (map (local_day tz) ys) (map (local_day tz) (shuffle rnd ?c))"
    using ys(2) by (rule subseq_map)
  ultimately show "distinct (map (local_day tz) (selectedDates (select_leaves tz subs (shuffle rnd ?c))))"
    using ys(1) subseq_distinct_js by blast
  show "set (selectedDates (select_leaves tz subs (shuffle rnd ?c))) \<subseteq> set ?c"
  proof -
    have "set (shuffle rnd ?c) = set ?c" using mset_eq_setD [OF m] .
    with subseq_set_subset [OF ys(2)] ys(1) show ?thesis by simp
  qed
qed

text \<open>C6. For any source of draws in [0, 1) the reported leave dates are strictly increasing.\<close>

theorem final_dates_sorted:
  assumes "random_source rnd"
  shows "sorted_wrt (<) (finalLeaveDates (process_attendance tz rnd subs today e))"
proof -
  let ?sel = "selectedDates (select_leaves tz subs (shuffle rnd (candidate_dates tz today e)))"
  have "sorted (map (local_day tz) (sort ?sel))"
    by (rule sorted_map_mono) (auto intro: mono_onI local_day_mono)
  moreover have "distinct (map (local_day tz) (sort ?sel))"
    using selected_in_candidates(1) [OF assms] by (simp add: distinct_map)
  ultimately show ?thesis by (simp add: final_dates_eq strict_sorted_iff)
qed

lemma candidate_dates_sound:
  "t \<in> set (candidate_dates tz today e) \<Longrightarrow>
     \<exists>e'. e = Some e' \<and> today < t \<and> t \<le> e' \<and> 1 \<le> get_day tz t \<and> get_day tz t \<le> 5"
  by (auto simp: candidate_dates_def set_date_add_def ms_per_day_def split: option.splits
           dest!: working_dates_sound)

text \<open>C7. Every reported leave date is a Monday-to-Friday local day of a candidate strictly after \<open>today\<close> and not after \<open>endDate\<close>; an invalid end date yields none.\<close>

theorem final_dates_in_window:
  assumes "random_source rnd" and "d \<in> set (finalLeaveDates (process_attendance tz rnd subs today e))"
  shows "\<exists>t e'. e = Some e' \<and> today < t \<and> t \<le> e' \<and> local_day tz t = d \<and>
           1 \<le> day_of_week d \<and> day_of_week d \<le> 5"
proof -
  from assms(2) obtain t where t: "t \<in> set (selectedDates (select_leaves tz subs
      (shuffle rnd (candidate_dates tz today e))))" and d: "d = local_day tz t"
    by (auto simp: final_dates_eq)
  with selected_in_candidates(2) [OF assms(1)] have "t \<in> set (candidate_dates tz today e)" by blast
  with d show ?thesis by (auto simp: get_day_def dest!: candidate_dates_sound)
qed

lemma fresh_subject_blocks:
  assumes "s \<in> set subs" and "attended s = 0" and "total s = 0"
  shows "\<not> floor_holds tz subs t"
proof -
  have "\<not> floor_ok (project_leave (get_day tz t - 1) s)"
    using assms(2,3) by (simp add: floor_ok_def pct_at_least_75_iff)
  with assms(1) show ?thesis by (auto simp: floor_holds_def list_all_iff)
qed

text \<open>C11. A subject with 0 attended out of 0 conducted blocks every leave date: \<open>0/0\<close> is \<open>NaN\<close>, so the floor test fails even on days without its classes.\<close>

theorem fresh_subject_blocks_all_leave:
  assumes "s \<in> set subs" and "attended s = 0" and "total s = 0"
  shows "finalLeaveDates (process_attendance tz rnd subs today e) = []"
proof -
  obtain ys where ys: "selectedDates (select_leaves tz subs (shuffle rnd (candidate_dates tz today e))) = ys"
    "\<forall>t\<in>set ys. floor_holds tz subs t"
    by (rule selected_select_leaves)
  with fresh_subject_blocks [OF assms] have "ys = []" by auto
  with ys show ?thesis by (simp add: final_dates_eq)
qed

text \<open>C4. The safe and not-safe lists of \<open>processAttendance\<close> together hold every subject name exactly once (as a multiset).\<close>

theorem classification_partition:
  "mset (safeSubjects (process_attendance tz rnd subs today e)) +
   mset (notPossibleSubjects (process_attendance tz rnd subs today e)) = mset (map name subs)"
  by (induction subs) (simp_all add: classify_result)

subsection \<open>Candidate set, end date and loop bound\<close>

lemma candidate_dates_shift:
  "t \<in> set (candidate_dates tz today e) \<Longrightarrow> \<exists>k::nat. t = set_date_add (int k + 1) today"
  by (auto simp: candidate_dates_def set_date_add_def algebra_simps split: option.splits
           dest!: working_dates_sound)

text \<open>C8. The enumeration loop yields exactly the time values today + k days (k \<ge> 1) that are not after \<open>endDate\<close> and fall on Monday to Friday.\<close>

theorem candidate_dates_exact:
  "set (candidate_dates tz today (Some e)) =
     {t. \<exists>k::nat. t = set_date_add (int k + 1) today \<and> t \<le> e \<and> 1 \<le> get_day tz t \<and> get_day tz t \<le> 5}"
proof (intro set_eqI iffI)
  fix t
  assume "t \<in> set (candidate_dates tz today (Some e))"
  then show "t \<in> {t. \<exists>k::nat. t = set_date_add (int k + 1) today \<and> t \<le> e \<and> 1 \<le> get_day tz t \<and> get_day tz t \<le> 5}"
    using candidate_dates_shift [of t tz today "Some e"]
    by (auto simp: candidate_dates_def dest!: working_dates_sound)
next
  fix t
  assume "t \<in> {t. \<exists>k::nat. t = set_date_add (int k + 1) today \<and> t \<le> e \<and> 1 \<le> get_day tz t \<and> get_day tz t \<le> 5}"
  then obtain k :: nat where k: "t = set_date_add (int k) (set_date_add 1 today)"
    and rest: "t \<le> e" "1 \<le> get_day tz t" "get_day tz t \<le> 5"
    by (auto simp: set_date_add_def algebra_simps)
  from rest k have "set_date_add (int k) (set_date_add 1 today) \<in> set (working_dates tz (set_date_add 1 today) e)"
    by (intro working_dates_complete) simp_all
  with k show "t \<in> set (candidate_dates tz today (Some e))" by (simp add: candidate_dates_def)
qed

text \<open>C13. The end date is a leave date only if the computation starts early in the
  local day: \<open>new Date("YYYY-MM-DD")\<close> is midnight UTC and every candidate carries the
  current local time of day, so the end date's candidate is not after \<open>endDate\<close> only
  when that time of day is at most the time-zone offset. In UTC this means exactly at
  midnight; at UTC+05:30 before 05:30; west of UTC never.\<close>

theorem end_date_needs_early_start:
  assumes "random_source rnd"
    and "D \<in> set (finalLeaveDates (process_attendance tz rnd subs today (Some (D * ms_per_day))))"
  shows "(today + tz) mod ms_per_day \<le> tz"
proof -
  obtain t where t: "t \<in> set (selectedDates (select_leaves tz subs
      (shuffle rnd (candidate_dates tz today (Some (D * ms_per_day))))))" and d: "D = local_day tz t"
    using assms(2) by (auto simp: final_dates_eq)
  with selected_in_candidates(2) [OF assms(1)]
  have c: "t \<in> set (candidate_dates tz today (Some (D * ms_per_day)))" by blast
  then obtain k :: nat where k: "t = set_date_add (int k + 1) today"
    using candidate_dates_shift by blast
  have "t + tz = (today + tz) + (int k + 1) * ms_per_day" by (simp add: k set_date_add_def)
  then have r: "(t + tz) mod ms_per_day = (today + tz) mod ms_per_day" by (simp only: mod_mult_self1)
  have "t + tz = ms_per_day * D + (t + tz) mod ms_per_day"
    using d by (simp add: local_day_def)
  moreover from c have "t \<le> D * ms_per_day" by (auto dest!: candidate_dates_sound)
  ultimately show ?thesis using r by (simp add: algebra_simps)
qed

lemma get_day_next: "get_day tz (set_date_add 1 t) = (get_day tz t + 1) mod 7"
  by (simp add: get_day_def day_of_week_succ)

text \<open>C15. The enumeration loop of lines 279-283 ends after exactly
  \<open>N = (endDate - current) div one day + 1\<close> iterations (none when \<open>current\<close> is
  already past \<open>endDate\<close>), and it pushes one date for each of those iterations whose
  day of the week, counted on from that of \<open>current\<close>, is Monday to Friday.\<close>

theorem working_dates_count:
  "length (working_dates tz cur e) =
     length (filter (\<lambda>k. 1 \<le> (get_day tz cur + int k) mod 7 \<and> (get_day tz cur + int k) mod 7 \<le> 5)
       [0..<nat ((e - cur) div ms_per_day + 1)])"
proof (induction tz cur e rule: working_dates.induct)
  case (1 tz cur e)
  show ?case
  proof (cases "cur \<le> e")
    case True
    have step: "nat ((e - cur) div ms_per_day + 1) = Suc (nat ((e - set_date_add 1 cur) div ms_per_day + 1))"
    proof -
      have "(e - set_date_add 1 cur) div ms_per_day + 1 = (e - cur) div ms_per_day"
        by (simp add: set_date_add_def ms_per_day_def diff_diff_eq [symmetric] div_add_self2 [symmetric]
                 flip: diff_add_eq)
      moreover have "0 \<le> (e - cur) div ms_per_day" using True by (simp add: ms_per_day_def)
      ultimately show ?thesis by simp
    qed
    have g: "get_day tz cur mod 7 = get_day tz cur" by (simp add: get_day_def)
    show ?thesis
      using True "1.IH" [OF True]
      by (simp add: working_dates_unfold [of tz cur e] step upt_conv_Cons map_Suc_upt [symmetric]
                    filter_map o_def get_day_next g mod_simps add.assoc del: upt_Suc)
  next
    case False
    then have "(e - cur) div ms_per_day + 1 \<le> 0"
      by (simp add: ms_per_day_def div_pos_neg_trivial pos_imp_zdiv_neg_iff)
    with False show ?thesis by (simp add: working_dates_unfold [of tz cur e])
  qed
qed

subsection \<open>Scenarios\<close>

text \<open>Scenario. The spacing rule only looks backwards, so in shuffled order it can accept three
  consecutive days: with every draw 0, the candidates Monday 6 to Wednesday 8 July 2026
  are visited as Tuesday, Wednesday, Monday and all three are reported.\<close>

theorem shuffled_order_breaks_spacing:
  "random_source (\<lambda>_. 0) \<and>
   finalLeaveDates (process_attendance 0 (\<lambda>_. 0) [] (noon 20639) (Some (midnight 20643)))
     = [20640, 20641, 20642] \<and>
   three_in_a_row (set (finalLeaveDates (process_attendance 0 (\<lambda>_. 0) [] (noon 20639) (Some (midnight 20643)))))"
proof (intro conjI)
  show "random_source (\<lambda>_. 0)" by (simp add: random_source_def)
  show "finalLeaveDates (process_attendance 0 (\<lambda>_. 0) [] (noon 20639) (Some (midnight 20643)))
     = [20640, 20641, 20642]" by code_simp
  then show "three_in_a_row (set (finalLeaveDates (process_attendance 0 (\<lambda>_. 0) [] (noon 20639) (Some (midnight 20643)))))"
    by (simp add: three_in_a_row_def)
qed

text \<open>C9. With draws in [0, 1) the Fisher-Yates loop permutes the candidate list: every
  index \<open>Math.floor(Math.random() * (i + 1))\<close> is in range.\<close>

theorem shuffle_is_permutation:
  "random_source rnd \<Longrightarrow> mset (shuffle rnd xs) = mset xs"
  by (cases xs) (simp_all add: shuffle_def shuffle_from_perm)

text \<open>Scenario. Leave days are checked one at a time against the stored counts, never against
  each other: a subject at 3 of 3 with a class every weekday passes on Monday 4 and
  Tuesday 5 May 2026 separately (3 of 4 is 75\%), both are reported, and taking both
  leaves it at 3 of 5.\<close>

theorem leave_days_not_compounded:
  "finalLeaveDates (process_attendance 0 (\<lambda>_. 0) [daily_subject] (noon 20576) (Some (midnight 20579)))
     = [20577, 20578] \<and>
   \<not> pct_at_least_75 (attended daily_subject)
       (total daily_subject + (\<Sum>d\<leftarrow>[20577, 20578]. int (periods_on (day_of_week d - 1) daily_subject)))"
proof
  show "finalLeaveDates (process_attendance 0 (\<lambda>_. 0) [daily_subject] (noon 20576) (Some (midnight 20579)))
     = [20577, 20578]" by code_simp
  show "\<not> pct_at_least_75 (attended daily_subject)
       (total daily_subject + (\<Sum>d\<leftarrow>[20577, 20578]. int (periods_on (day_of_week d - 1) daily_subject)))"
    by code_simp
qed

text \<open>Scenario. The week buckets are not calendar weeks: visiting Monday 4 to Friday 8 May 2026
  in calendar order reports four days of that one Monday-to-Friday week (4 and 5 fall in
  bucket 0, 7 and 8 in bucket 1).\<close>

theorem four_leaves_in_one_week:
  "finalLeaveDates (process_attendance 0 in_order_draws [] (noon 20576) (Some (midnight 20582)))
     = [20577, 20578, 20580, 20581] \<and> day_of_week 20577 = 1 \<and> day_of_week 20581 = 5"
  by code_simp

text \<open>C10. The scenario of the specification: Math at 30 of 40 with a Monday class and
  Physics at 18 of 30, from Thursday 7 May 2026 for ten days. Math is safe, Physics is
  not, and because Physics fails the floor on every day no leave date is reported at all.\<close>

theorem spec_example_scenario:
  "process_attendance 0 rnd [math_subject, physics_subject] (noon 20580) (Some (midnight 20590))
     = \<lparr>finalLeaveDates = [], safeSubjects = [''Math''], notPossibleSubjects = [''Physics'']\<rparr>"
proof -
  have "\<not> floor_holds 0 [math_subject, physics_subject] t" for t
    by (simp add: floor_holds_def floor_ok_def pct_at_least_75_iff)
  moreover obtain ys where "selectedDates (select_leaves 0 [math_subject, physics_subject]
      (shuffle rnd (candidate_dates 0 (noon 20580) (Some (midnight 20590))))) = ys"
    "\<forall>t\<in>set ys. floor_holds 0 [math_subject, physics_subject] t"
    by (rule selected_select_leaves)
  ultimately have "finalLeaveDates (process_attendance 0 rnd [math_subject, physics_subject] (noon 20580) (Some (midnight 20590))) = []"
    by (auto simp: final_dates_eq)
  then show ?thesis
    by (simp add: process_attendance_def classify_def classify_step_def floor_ok_def pct_at_least_75_iff)
qed

subsection \<open>Witnesses of the theorems with hypotheses\<close>

theorem leave_dates_respect_floor_witness:
  "20578 \<in> set (finalLeaveDates (process_attendance 0 in_order_draws [math_subject] (noon 20576) (Some (midnight 20582))))
   \<and> math_subject \<in> set [math_subject]
   \<and> pct_at_least_75 30 (40 + int (periods_on (day_of_week 20578 - 1) math_subject))"
proof -
  have h: "20578 \<in> set (finalLeaveDates (process_attendance 0 in_order_draws [math_subject] (noon 20576) (Some (midnight 20582))))"
    by code_simp
  show ?thesis using leave_dates_respect_floor [OF h, of math_subject] h by simp
qed

theorem final_dates_sorted_witness:
  "random_source (\<lambda>_. 0) \<and>
   sorted_wrt (<) (finalLeaveDates (process_attendance 0 (\<lambda>_. 0) [] (noon 20639) (Some (midnight 20643))))"
proof -
  have h: "random_source (\<lambda>_. 0)" by (simp add: random_source_def)
  show ?thesis using final_dates_sorted [OF h, of 0 "[]" "noon 20639" "Some (midnight 20643)"] h by simp
qed

theorem final_dates_in_window_witness:
  "random_source (\<lambda>_. 0) \<and>
   20640 \<in> set (finalLeaveDates (process_attendance 0 (\<lambda>_. 0) [] (noon 20639) (Some (midnight 20643)))) \<and>
   (\<exists>t e'. Some (midnight 20643) = Some e' \<and> noon 20639 < t \<and> t \<le> e' \<and> local_day 0 t = 20640 \<and>
      1 \<le> day_of_week 20640 \<and> day_of_week 20640 \<le> 5)"
proof -
  have h1: "random_source (\<lambda>_. 0)" by (simp add: random_source_def)
  have h2: "20640 \<in> set (finalLeaveDates (process_attendance 0 (\<lambda>_. 0) [] (noon 20639) (Some (midnight 20643))))"
    by code_simp
  show ?thesis using final_dates_in_window [OF h1 h2] h1 h2 by blast
qed

theorem shuffle_is_permutation_witness:
  "random_source (\<lambda>_. 0) \<and> mset (shuffle (\<lambda>_. 0) [noon 20640, noon 20641, noon 20642]) =
     mset [noon 20640, noon 20641, noon 20642]"
proof -
  have h: "random_source (\<lambda>_. 0)" by (simp add: random_source_def)
  show ?thesis using shuffle_is_permutation [OF h, of "[noon 20640, noon 20641, noon 20642]"] h by simp
qed

theorem fresh_subject_blocks_all_leave_witness:
  "fresh_subject \<in> set [fresh_subject, math_subject] \<and> attended fresh_subject = 0 \<and> total fresh_subject = 0 \<and>
   finalLeaveDates (process_attendance 0 (\<lambda>_. 0) [fresh_subject, math_subject] (noon 20576) (Some (midnight 20582))) = []"
proof -
  have h: "fresh_subject \<in> set [fresh_subject, math_subject]" "attended fresh_subject = 0" "total fresh_subject = 0"
    by simp_all
  show ?thesis using fresh_subject_blocks_all_leave [OF h, of 0 "\<lambda>_. 0" "noon 20576" "Some (midnight 20582)"] h
    by blast
qed

theorem end_date_needs_early_start_witness:
  "random_source (\<lambda>_. 0)
   \<and> 20643 \<in> set (finalLeaveDates (process_attendance 19800000 (\<lambda>_. 0) [] (20641 * 86400000 - 9000000)
                                      (Some (20643 * ms_per_day))))
   \<and> (20641 * 86400000 - 9000000 + 19800000) mod ms_per_day \<le> (19800000 :: int)"
proof -
  have h1: "random_source (\<lambda>_. 0)" by (simp add: random_source_def)
  have h2: "20643 \<in> set (finalLeaveDates (process_attendance 19800000 (\<lambda>_. 0) [] (20641 * 86400000 - 9000000)
                                      (Some (20643 * ms_per_day))))" by code_simp
  show ?thesis using end_date_needs_early_start [OF h1 h2] h1 h2 by blast
qed

end
