(* ===== verification/JsString.thy ===== *)
theory JsString
  imports Prelude
begin

text \<open>
  The string built-ins the handlers of \<open>src/script.js\<close> apply to form input:
  \<open>String.prototype.trim\<close>, the global \<open>parseInt\<close> without a radix (leading white
  space, an optional sign, a \<open>0x\<close>/\<open>0X\<close> prefix switching to base 16, then the longest
  prefix of digits; \<open>NaN\<close>, here \<open>None\<close>, when there is none), the idiom
  \<open>parseInt(v) || 0\<close>, and \<open>String(n)\<close> of an integer, which is how a \<open><select>\<close>
  option's value is written. Characters are bytes: white space is the ASCII part of
  ECMAScript's \<open>WhiteSpace\<close> and \<open>LineTerminator\<close> sets.
\<close>

definition js_whitespace :: "char \<Rightarrow> bool" where
  "js_whitespace c \<longleftrightarrow> of_char c \<in> {9, 10, 11, 12, 13, 32 :: nat}"

definition trim :: "string \<Rightarrow> string" where
  "trim s = rev (dropWhile js_whitespace (rev (dropWhile js_whitespace s)))"

definition digit_value :: "char \<Rightarrow> nat option" where
  \<comment> \<open>\<open>0\<close>-\<open>9\<close>, then \<open>a\<close>-\<open>z\<close> and \<open>A\<close>-\<open>Z\<close> for 10-35\<close>
  "digit_value c =
     (let n = (of_char c :: nat) in
      if 48 \<le> n \<and> n \<le> 57 then Some (n - 48)
      else if 97 \<le> n \<and> n \<le> 122 then Some (n - 87)
      else if 65 \<le> n \<and> n \<le> 90 then Some (n - 55)
      else None)"

fun radix_digits :: "nat \<Rightarrow> string \<Rightarrow> nat list" where
  \<comment> \<open>the longest prefix of digits of radix \<open>r\<close>, as values\<close>
  "radix_digits r [] = []"
| "radix_digits r (c # cs) =
     (case digit_value c of
        Some d \<Rightarrow> if d < r then d # radix_digits r cs else []
      | None \<Rightarrow> [])"

definition digits_to_nat :: "nat \<Rightarrow> nat list \<Rightarrow> nat" where
  "digits_to_nat r ds = foldl (\<lambda>acc d. acc * r + d) 0 ds"

definition parse_int :: "string \<Rightarrow> int option" where
  "parse_int s =
     (let s1 = dropWhile js_whitespace s;
          neg = (s1 \<noteq> [] \<and> hd s1 = CHR ''-'');
          s2 = (if s1 \<noteq> [] \<and> (hd s1 = CHR ''-'' \<or> hd s1 = CHR ''+'') then tl s1 else s1);
          hex = (take 2 s2 = ''0x'' \<or> take 2 s2 = ''0X'');
          r = (if hex then 16 else 10);
          ds = radix_digits r (if hex then drop 2 s2 else s2)
      in if ds = [] then None
         else Some ((if neg then -1 else 1) * int (digits_to_nat r ds)))"

definition parse_int_or_zero :: "string \<Rightarrow> int" where
  \<comment> \<open>\<open>parseInt(v) || 0\<close>: \<open>NaN\<close> is falsy\<close>
  "parse_int_or_zero s = (case parse_int s of None \<Rightarrow> 0 | Some n \<Rightarrow> n)"

fun nat_digits :: "nat \<Rightarrow> nat list" where
  "nat_digits n = (if n < 10 then [n] else nat_digits (n div 10) @ [n mod 10])"

declare nat_digits.simps [simp del]

definition digit_char :: "nat \<Rightarrow> char" where
  "digit_char d = char_of (48 + d)"

definition int_to_string :: "int \<Rightarrow> string" where
  \<comment> \<open>\<open>String(n)\<close> for an integer \<open>n\<close> below \<open>10^21\<close> in magnitude (from there on
      JavaScript writes exponent notation); the script converts only indices and counts\<close>
  "int_to_string i = (if i < 0 then ''-'' else []) @ map digit_char (nat_digits (nat \<bar>i\<bar>))"

subsection \<open>Digits\<close>

lemma nat_digits_small: "d \<in> set (nat_digits n) \<Longrightarrow> d < 10"
proof (induction n rule: nat_digits.induct)
  case (1 n)
  then show ?case by (cases "n < 10") (auto simp: nat_digits.simps [of n])
qed

lemma nat_digits_nonempty: "nat_digits n \<noteq> []"
  by (simp add: nat_digits.simps [of n])

lemma digits_to_nat_snoc: "digits_to_nat r (ds @ [d]) = digits_to_nat r ds * r + d"
  by (simp add: digits_to_nat_def)

lemma digits_to_nat_nat_digits: "digits_to_nat 10 (nat_digits n) = n"
proof (induction n rule: nat_digits.induct)
  case (1 n)
  show ?case
  proof (cases "n < 10")
    case True
    then show ?thesis by (simp add: nat_digits.simps [of n] digits_to_nat_def)
  next
    case False
    with "1.IH" show ?thesis by (simp add: nat_digits.simps [of n] digits_to_nat_snoc)
  qed
qed

lemma of_char_digit_char: "d < 10 \<Longrightarrow> (of_char (digit_char d) :: nat) = 48 + d"
  by (simp add: digit_char_def)

lemma digit_value_digit_char: "d < 10 \<Longrightarrow> digit_value (digit_char d) = Some d"
  by (simp add: digit_value_def of_char_digit_char)

lemma digit_char_not_space: "d < 10 \<Longrightarrow> \<not> js_whitespace (digit_char d)"
  by (simp add: js_whitespace_def of_char_digit_char)

lemma digit_char_differs:
  assumes "d < 10" and "(of_char c :: nat) < 48 \<or> 57 < (of_char c :: nat)"
  shows "digit_char d \<noteq> c"
proof
  assume "digit_char d = c"
  then have "(of_char c :: nat) = 48 + d" using of_char_digit_char [OF assms(1)] by simp
  with assms show False by simp
qed

lemma digit_char_not_sign: "d < 10 \<Longrightarrow> digit_char d \<noteq> CHR ''-'' \<and> digit_char d \<noteq> CHR ''+''"
  by (simp add: digit_char_differs)

lemma radix_digits_digit_chars:
  "\<forall>d\<in>set ds. d < 10 \<Longrightarrow> radix_digits 10 (map digit_char ds) = ds"
  by (induction ds) (simp_all add: digit_value_digit_char)

lemma no_hex_prefix:
  "\<forall>d\<in>set ds. d < 10 \<Longrightarrow> take 2 (map digit_char ds) \<noteq> ''0x'' \<and> take 2 (map digit_char ds) \<noteq> ''0X''"
proof (cases ds)
  case (Cons a rest)
  assume small: "\<forall>d\<in>set ds. d < 10"
  show ?thesis
  proof (cases rest)
    case (Cons b rest')
    with small \<open>ds = a # rest\<close> have "b < 10" by simp
    then have "digit_char b \<noteq> CHR ''x'' \<and> digit_char b \<noteq> CHR ''X''"
      by (simp add: digit_char_differs)
    with \<open>ds = a # rest\<close> Cons show ?thesis by auto
  qed (simp add: \<open>ds = a # rest\<close>)
qed simp

lemma parse_int_digit_chars:
  assumes small: "\<forall>d\<in>set ds. d < 10" and ne: "ds \<noteq> []"
  shows "parse_int (map digit_char ds) = Some (int (digits_to_nat 10 ds))"
    and "parse_int (CHR ''-'' # map digit_char ds) = Some (- int (digits_to_nat 10 ds))"
proof -
  obtain d ds' where dds: "ds = d # ds'" using ne by (cases ds) auto
  with small have "d < 10" by simp
  then have first: "\<not> js_whitespace (hd (map digit_char ds))" "hd (map digit_char ds) \<noteq> CHR ''-''"
      "hd (map digit_char ds) \<noteq> CHR ''+''"
    by (simp_all add: dds digit_char_not_space digit_char_not_sign)
  have s1: "dropWhile js_whitespace (map digit_char ds) = map digit_char ds"
    using first(1) by (simp add: dds)
  have minus: "\<not> js_whitespace (CHR ''-'')" by (simp add: js_whitespace_def)
  have rd: "radix_digits 10 (map digit_char ds) = ds" using small by (rule radix_digits_digit_chars)
  have nohex: "take 2 (map digit_char ds) \<noteq> ''0x'' \<and> take 2 (map digit_char ds) \<noteq> ''0X''"
    using small by (rule no_hex_prefix)
  have nn: "map digit_char ds \<noteq> []" using ne by simp
  show "parse_int (map digit_char ds) = Some (int (digits_to_nat 10 ds))"
    unfolding parse_int_def Let_def using s1 first(2,3) nohex rd nn ne by simp
  show "parse_int (CHR ''-'' # map digit_char ds) = Some (- int (digits_to_nat 10 ds))"
    unfolding parse_int_def Let_def using minus nohex rd ne by simp
qed

lemma parse_int_int_to_string [simp]: "parse_int (int_to_string i) = Some i"
proof -
  let ?ds = "nat_digits (nat \<bar>i\<bar>)"
  have small: "\<forall>d\<in>set ?ds. d < 10" using nat_digits_small by blast
  note p = parse_int_digit_chars [OF small nat_digits_nonempty]
  have val: "digits_to_nat 10 ?ds = nat \<bar>i\<bar>" by (rule digits_to_nat_nat_digits)
  show ?thesis
    using p val by (cases "i < 0") (simp_all add: int_to_string_def)
qed

lemma int_to_string_first:
  "\<exists>c cs. int_to_string i = c # cs \<and> \<not> js_whitespace c"
proof (cases "i < 0")
  case True
  then show ?thesis by (auto simp: int_to_string_def js_whitespace_def)
next
  case False
  obtain d ds' where dds: "nat_digits (nat \<bar>i\<bar>) = d # ds'"
    using nat_digits_nonempty by (cases "nat_digits (nat \<bar>i\<bar>)") auto
  then have "d < 10" using nat_digits_small by (metis list.set_intros(1))
  with False dds show ?thesis by (auto simp: int_to_string_def digit_char_not_space)
qed

lemma parse_int_skip_space:
  "\<forall>c\<in>set ws. js_whitespace c \<Longrightarrow> parse_int (ws @ s) = parse_int (dropWhile js_whitespace s)"
  by (induction ws) (simp_all add: parse_int_def)

end
