(* ===== verification/Timetable.thy ===== *)
theory Timetable
  imports Attendance JsString "HOL-Library.Product_Lexorder"
begin

text \<open>
  The weekly timetable of \<open>src/script.js\<close> lives in the DOM as a grid of
  \<open><select>\<close> elements, one per day (0-4, Monday to Friday) and period, created by
  \<open>generateTimetable\<close> with an empty option and one option per subject whose value is
  \<open>String(idx)\<close>. The subjects' \<open>timetable\<close> arrays are derived from the grid: the
  change listener of \<open>attachTimetableListeners\<close> and \<open>calculate\<close> clear every
  subject's array and push a slot for each select whose value parses to an index
  (\<open>rebuild_timetables\<close>); the page-load path writes stored timetables back into the
  selects (\<open>load_selects\<close>). A select is a record of its data attributes, its options
  and its current value; setting a value that no option carries leaves the select on
  its empty option, as HTML's select-one does.
\<close>

record cell =
  c_day :: int
  c_period :: int
  c_options :: "string list"
  c_value :: string

definition grid_periods :: "string \<Rightarrow> nat" where
  \<comment> \<open>\<open>for (let p = 0; p < periodsPerDay; p++)\<close> with \<open>parseInt\<close>; \<open>NaN\<close> runs no iteration\<close>
  "grid_periods ppd = (case parse_int ppd of None \<Rightarrow> 0 | Some n \<Rightarrow> nat n)"

definition subject_options :: "subject list \<Rightarrow> string list" where
  \<comment> \<open>the empty option, then \<open>option.value = idx\<close> for every subject\<close>
  "subject_options subs = '''' # map (\<lambda>i. int_to_string (int i)) [0..<length subs]"

definition timetable_grid :: "string \<Rightarrow> subject list \<Rightarrow> cell list" where
  \<comment> \<open>\<open>days.forEach((day, dayIndex) => { for (p ...) ... })\<close>, in document order\<close>
  "timetable_grid ppd subs =
     concat (map (\<lambda>d. map (\<lambda>p. \<lparr>c_day = int d, c_period = int p,
                                  c_options = subject_options subs, c_value = ''''\<rparr>)
                         [0..<grid_periods ppd]) [0..<5])"

definition cell_slot :: "cell \<Rightarrow> slot" where
  \<comment> \<open>\<open>{ day: parseInt(sel.dataset.day), period: parseInt(sel.dataset.period) }\<close>\<close>
  "cell_slot c = \<lparr>day = c_day c, period = c_period c\<rparr>"

definition clear_timetables :: "subject list \<Rightarrow> subject list" where
  \<comment> \<open>\<open>subjectData.forEach(sub => (sub.timetable = []))\<close>\<close>
  "clear_timetables subs = map (\<lambda>s. s\<lparr>timetable := []\<rparr>) subs"

definition push_slot :: "nat \<Rightarrow> slot \<Rightarrow> subject list \<Rightarrow> subject list" where
  \<comment> \<open>\<open>subjectData[subjectIndex].timetable.push({ day, period })\<close>\<close>
  "push_slot k sl subs = subs[k := (subs ! k)\<lparr>timetable := timetable (subs ! k) @ [sl]\<rparr>]"

fun push_slots :: "cell list \<Rightarrow> subject list \<Rightarrow> subject list \<times> js_error option" where
  \<comment> \<open>\<open>timetableSelects.forEach(...)\<close>; an index with no subject throws \<open>TypeError\<close>
      and leaves the pushes made so far\<close>
  "push_slots [] subs = (subs, None)"
| "push_slots (c # cs) subs =
     (case parse_int (c_value c) of
        None \<Rightarrow> push_slots cs subs
      | Some i \<Rightarrow>
          if 0 \<le> i \<and> i < int (length subs)
          then push_slots cs (push_slot (nat i) (cell_slot c) subs)
          else (subs, Some TypeError))"

definition rebuild_timetables :: "cell list \<Rightarrow> subject list \<Rightarrow> subject list \<times> js_error option" where
  "rebuild_timetables cells subs = push_slots cells (clear_timetables subs)"

definition set_select_value :: "string \<Rightarrow> cell \<Rightarrow> cell" where
  \<comment> \<open>\<open>selectEl.value = v\<close>: no option with value \<open>v\<close> selects the empty option\<close>
  "set_select_value v c = c\<lparr>c_value := (if v \<in> set (c_options c) then v else '''')\<rparr>"

fun set_first_select :: "int \<Rightarrow> int \<Rightarrow> string \<Rightarrow> cell list \<Rightarrow> cell list" where
  \<comment> \<open>\<open>querySelector(`select[data-day=..][data-period=..]`)\<close>: the first match, if any\<close>
  "set_first_select d p v [] = []"
| "set_first_select d p v (c # cs) =
     (if c_day c = d \<and> c_period c = p then set_select_value v c # cs
      else c # set_first_select d p v cs)"

definition load_subject_slots :: "nat \<Rightarrow> subject \<Rightarrow> cell list \<Rightarrow> cell list" where
  \<comment> \<open>\<open>(sub.timetable || []).forEach(slot => { ... selectEl.value = idx })\<close>\<close>
  "load_subject_slots idx s cells =
     fold (\<lambda>sl cs. set_first_select (day sl) (period sl) (int_to_string (int idx)) cs) (timetable s) cells"

fun load_from :: "nat \<Rightarrow> subject list \<Rightarrow> cell list \<Rightarrow> cell list" where
  \<comment> \<open>\<open>subjectData.forEach((sub, idx) => ...)\<close>, from index \<open>idx\<close> on\<close>
  "load_from idx [] cells = cells"
| "load_from idx (s # ss) cells = load_from (Suc idx) ss (load_subject_slots idx s cells)"

definition load_selects :: "subject list \<Rightarrow> cell list \<Rightarrow> cell list" where
  "load_selects subs cells = load_from 0 subs cells"

subsection \<open>Keys of selects and slots\<close>

definition cell_key :: "cell \<Rightarrow> int \<times> int" where
  "cell_key c = (c_day c, c_period c)"

definition slot_key :: "slot \<Rightarrow> int \<times> int" where
  "slot_key sl = (day sl, period sl)"

fun slot_owner :: "subject list \<Rightarrow> int \<times> int \<Rightarrow> nat option" where
  "slot_owner [] x = None"
| "slot_owner (s # ss) x =
     (if x \<in> slot_key ` set (timetable s) then Some 0 else map_option Suc (slot_owner ss x))"

abbreviation all_slot_keys :: "subject list \<Rightarrow> (int \<times> int) list" where
  "all_slot_keys subs \<equiv> concat (map (\<lambda>s. map slot_key (timetable s)) subs)"

definition grid_keys :: "nat \<Rightarrow> nat \<Rightarrow> (int \<times> int) list" where
  "grid_keys m n = concat (map (\<lambda>d. map (\<lambda>p. (int d, int p)) [0..<n]) [0..<m])"

subsection \<open>Rebuilding timetables from the grid\<close>


lemma length_push_slot [simp]: "length (push_slot k sl subs) = length subs"
  by (simp add: push_slot_def)

lemma push_slot_nth:
  "k' < length subs \<Longrightarrow> push_slot k sl subs ! k' =
     (if k' = k then (subs ! k)\<lparr>timetable := timetable (subs ! k) @ [sl]\<rparr> else subs ! k')"
  by (simp add: push_slot_def)

lemma push_slots_ok:
  "push_slots cells subs = (subs', None) \<Longrightarrow>
     length subs' = length subs \<and>
     (\<forall>k < length subs. subs' ! k = (subs ! k)\<lparr>timetable := timetable (subs ! k) @
         map cell_slot (filter (\<lambda>c. parse_int (c_value c) = Some (int k)) cells)\<rparr>)"
proof (induction cells arbitrary: subs)
  case Nil
  then show ?case by simp
next
  case (Cons c cells)
  show ?case
  proof (cases "parse_int (c_value c)")
    case None
    with Cons show ?thesis by simp
  next
    case (Some i)
    with Cons.prems have rng: "0 \<le> i \<and> i < int (length subs)"
      by (auto split: if_splits)
    with Some Cons.prems have rest: "push_slots cells (push_slot (nat i) (cell_slot c) subs) = (subs', None)"
      by simp
    from Cons.IH [OF rest] have len: "length subs' = length subs"
      and nth: "\<forall>k < length subs. subs' ! k = (push_slot (nat i) (cell_slot c) subs ! k)\<lparr>timetable :=
         timetable (push_slot (nat i) (cell_slot c) subs ! k) @
         map cell_slot (filter (\<lambda>c. parse_int (c_value c) = Some (int k)) cells)\<rparr>"
      by simp_all
    show ?thesis
    proof (intro conjI allI impI)
      show "length subs' = length subs" by (rule len)
      fix k assume k: "k < length subs"
      show "subs' ! k = (subs ! k)\<lparr>timetable := timetable (subs ! k) @
         map cell_slot (filter (\<lambda>c. parse_int (c_value c) = Some (int k)) (c # cells))\<rparr>"
        using nth k rng Some by (cases "k = nat i") (auto simp: push_slot_nth)
    qed
  qed
qed

lemma push_slots_error:
  "snd (push_slots cells subs) \<noteq> None \<longleftrightarrow>
     (\<exists>c\<in>set cells. \<exists>i. parse_int (c_value c) = Some i \<and> \<not> (0 \<le> i \<and> i < int (length subs)))"
proof (induction cells arbitrary: subs)
  case Nil
  then show ?case by simp
next
  case (Cons c cells)
  then show ?case by (cases "parse_int (c_value c)") auto
qed

lemma rebuild_timetables_ok:
  assumes "rebuild_timetables cells subs = (subs', None)"
  shows "length subs' = length subs \<and>
     (\<forall>k < length subs. subs' ! k = (subs ! k)\<lparr>timetable :=
         map cell_slot (filter (\<lambda>c. parse_int (c_value c) = Some (int k)) cells)\<rparr>)"
  using push_slots_ok [OF assms [unfolded rebuild_timetables_def]]
  by (simp add: clear_timetables_def)

lemma cell_slot_eq: "cell_slot c = cell_slot c' \<longleftrightarrow> (c_day c, c_period c) = (c_day c', c_period c')"
  by (simp add: cell_slot_def)

text \<open>C16. After a rebuild without error, over selects with distinct (day, period)
  attributes, no slot belongs to two subjects: the timetables of any two subjects are
  disjoint.\<close>

theorem rebuild_slots_disjoint:
  assumes ok: "rebuild_timetables cells subs = (subs', None)"
    and keys: "distinct (map (\<lambda>c. (c_day c, c_period c)) cells)"
    and jk: "j < k" "k < length subs'"
  shows "set (timetable (subs' ! j)) \<inter> set (timetable (subs' ! k)) = {}"
proof -
  from rebuild_timetables_ok [OF ok] jk
  have tj: "timetable (subs' ! j) = map cell_slot (filter (\<lambda>c. parse_int (c_value c) = Some (int j)) cells)"
    and tk: "timetable (subs' ! k) = map cell_slot (filter (\<lambda>c. parse_int (c_value c) = Some (int k)) cells)"
    by auto
  have inj: "inj_on (\<lambda>c. (c_day c, c_period c)) (set cells)"
    using keys by (simp add: distinct_map)
  show ?thesis
  proof (rule ccontr)
    assume "set (timetable (subs' ! j)) \<inter> set (timetable (subs' ! k)) \<noteq> {}"
    then obtain c1 c2 where c1: "c1 \<in> set cells" "parse_int (c_value c1) = Some (int j)"
      and c2: "c2 \<in> set cells" "parse_int (c_value c2) = Some (int k)"
      and eq: "cell_slot c1 = cell_slot c2"
      by (auto simp: tj tk)
    from eq have "(c_day c1, c_period c1) = (c_day c2, c_period c2)" by (simp add: cell_slot_eq)
    with inj c1(1) c2(1) have "c1 = c2" by (auto dest: inj_onD)
    with c1(2) c2(2) jk(1) show False by simp
  qed
qed

text \<open>C17. Rebuilding throws \<open>TypeError\<close> exactly when some select holds a value that
  parses to an integer that is not an index of \<open>subjectData\<close> (possible once the
  array has changed after the grid was drawn, e.g. after a failed form submit).\<close>

theorem rebuild_error_iff:
  "snd (rebuild_timetables cells subs) = Some TypeError \<longleftrightarrow>
     (\<exists>c\<in>set cells. \<exists>i. parse_int (c_value c) = Some i \<and> (i < 0 \<or> int (length subs) \<le> i))"
proof -
  have "snd (rebuild_timetables cells subs) = Some TypeError \<longleftrightarrow> snd (rebuild_timetables cells subs) \<noteq> None"
    by (cases "snd (rebuild_timetables cells subs)") (auto intro: js_error.exhaust)
  also have "\<dots> \<longleftrightarrow> (\<exists>c\<in>set cells. \<exists>i. parse_int (c_value c) = Some i \<and>
                \<not> (0 \<le> i \<and> i < int (length (clear_timetables subs))))"
    unfolding rebuild_timetables_def by (rule push_slots_error)
  also have "\<dots> \<longleftrightarrow> (\<exists>c\<in>set cells. \<exists>i. parse_int (c_value c) = Some i \<and> (i < 0 \<or> int (length subs) \<le> i))"
  proof -
    have e: "\<not> (0 \<le> i \<and> i < n) \<longleftrightarrow> (i < 0 \<or> n \<le> i)" for i n :: int by auto
    show ?thesis by (simp only: e clear_timetables_def length_map)
  qed
  finally show ?thesis .
qed

subsection \<open>Writing stored timetables into the grid\<close>


lemma set_select_value_keys [simp]:
  "c_day (set_select_value v c) = c_day c" "c_period (set_select_value v c) = c_period c"
  "c_options (set_select_value v c) = c_options c"
  by (simp_all add: set_select_value_def)

lemma set_select_value_idem [simp]: "set_select_value v (set_select_value v c) = set_select_value v c"
  by (simp add: set_select_value_def)

lemma set_first_select_map:
  "distinct (map cell_key cells) \<Longrightarrow>
   set_first_select d p v cells = map (\<lambda>c. if cell_key c = (d, p) then set_select_value v c else c) cells"
proof (induction cells)
  case Nil
  then show ?case by simp
next
  case (Cons c cells)
  show ?case
  proof (cases "cell_key c = (d, p)")
    case True
    with Cons.prems have "\<forall>c'\<in>set cells. cell_key c' \<noteq> (d, p)" by (auto simp: image_iff)
    then have "map (\<lambda>c. if cell_key c = (d, p) then set_select_value v c else c) cells = cells"
      by (induction cells) auto
    with True show ?thesis by (simp add: cell_key_def)
  next
    case False
    with Cons show ?thesis by (auto simp: cell_key_def)
  qed
qed

lemma cell_key_set_select_value [simp]: "cell_key (set_select_value v c) = cell_key c"
  by (simp add: cell_key_def)

lemma load_subject_slots_map:
  "distinct (map cell_key cells) \<Longrightarrow>
   load_subject_slots idx s cells =
     map (\<lambda>c. if cell_key c \<in> slot_key ` set (timetable s)
               then set_select_value (int_to_string (int idx)) c else c) cells"
proof (induction "timetable s" arbitrary: s cells)
  case Nil
  then show ?case
    by (simp add: load_subject_slots_def flip: Nil(1))
next
  case (Cons sl sls)
  let ?v = "int_to_string (int idx)"
  let ?cells1 = "map (\<lambda>c. if cell_key c = (day sl, period sl) then set_select_value ?v c else c) cells"
  have d1: "distinct (map cell_key ?cells1)"
    using Cons.prems by (simp add: comp_def if_distrib cong: if_cong)
  have "load_subject_slots idx s cells = load_subject_slots idx (s\<lparr>timetable := sls\<rparr>) ?cells1"
    using Cons.hyps(2) [symmetric] Cons.prems
    by (simp add: load_subject_slots_def set_first_select_map)
  also have "\<dots> = map (\<lambda>c. if cell_key c \<in> slot_key ` set sls then set_select_value ?v c else c) ?cells1"
    using Cons.hyps(1) [of "s\<lparr>timetable := sls\<rparr>" ?cells1] d1 by simp
  also have "\<dots> = map (\<lambda>c. if cell_key c \<in> slot_key ` set (timetable s) then set_select_value ?v c else c) cells"
    by (simp add: Cons.hyps(2) [symmetric] slot_key_def)
  finally show ?case .
qed

lemma slot_owner_None: "slot_owner ss x = None \<longleftrightarrow> x \<notin> set (all_slot_keys ss)"
  by (induction ss) auto

lemma slot_owner_Some:
  "distinct (all_slot_keys ss) \<Longrightarrow> slot_owner ss x = Some k \<longleftrightarrow> k < length ss \<and> x \<in> slot_key ` set (timetable (ss ! k))"
proof (induction ss arbitrary: k)
  case Nil
  then show ?case by simp
next
  case (Cons s ss)
  show ?case
  proof (cases k)
    case 0
    then show ?thesis by auto
  next
    case (Suc k')
    have "x \<notin> slot_key ` set (timetable s)"
      if "k' < length ss" "x \<in> slot_key ` set (timetable (ss ! k'))"
    proof -
      from that have "ss ! k' \<in> set ss" by simp
      with that(2) have "x \<in> set (all_slot_keys ss)" by auto
      with Cons.prems show ?thesis by auto
    qed
    with Cons Suc show ?thesis by auto
  qed
qed

lemma load_from_map:
  assumes "distinct (map cell_key cells)" and "distinct (all_slot_keys subs)"
  shows "load_from idx subs cells =
    map (\<lambda>c. case slot_owner subs (cell_key c) of None \<Rightarrow> c
                 | Some k \<Rightarrow> set_select_value (int_to_string (int (idx + k))) c) cells"
  using assms
proof (induction subs arbitrary: idx cells)
  case Nil
  then show ?case by (simp add: map_idI)
next
  case (Cons s ss)
  let ?cells1 = "map (\<lambda>c. if cell_key c \<in> slot_key ` set (timetable s)
               then set_select_value (int_to_string (int idx)) c else c) cells"
  have d1: "distinct (map cell_key ?cells1)"
    using Cons.prems(1) by (simp add: comp_def if_distrib cong: if_cong)
  have "load_from idx (s # ss) cells = load_from (Suc idx) ss ?cells1"
    using Cons.prems(1) by (simp add: load_subject_slots_map)
  also have "\<dots> = map (\<lambda>c. case slot_owner ss (cell_key c) of None \<Rightarrow> c
                 | Some k \<Rightarrow> set_select_value (int_to_string (int (Suc idx + k))) c) ?cells1"
    using Cons.IH [OF d1] Cons.prems(2) by simp
  also have "\<dots> = map (\<lambda>c. case slot_owner (s # ss) (cell_key c) of None \<Rightarrow> c
                 | Some k \<Rightarrow> set_select_value (int_to_string (int (idx + k))) c) cells"
    unfolding map_map comp_def
  proof (rule map_cong [OF refl], goal_cases)
    case (1 c)
    show ?case
    proof (cases "cell_key c \<in> slot_key ` set (timetable s)")
      case True
      with Cons.prems(2) have "slot_owner ss (cell_key c) = None"
        by (auto simp: slot_owner_None)
      with True show ?thesis by simp
    next
      case False
      then show ?thesis by (cases "slot_owner ss (cell_key c)") simp_all
    qed
  qed
  finally show ?case .
qed

lemma set_grid_keys: "x \<in> set (grid_keys m n) \<longleftrightarrow> 0 \<le> fst x \<and> fst x < int m \<and> 0 \<le> snd x \<and> snd x < int n"
proof -
  have "x \<in> set (grid_keys m n) \<longleftrightarrow> (\<exists>d p. d < m \<and> p < n \<and> x = (int d, int p))"
    by (force simp: grid_keys_def)
  also have "\<dots> \<longleftrightarrow> 0 \<le> fst x \<and> fst x < int m \<and> 0 \<le> snd x \<and> snd x < int n"
  proof
    assume "\<exists>d p. d < m \<and> p < n \<and> x = (int d, int p)"
    then show "0 \<le> fst x \<and> fst x < int m \<and> 0 \<le> snd x \<and> snd x < int n" by auto
  next
    assume h: "0 \<le> fst x \<and> fst x < int m \<and> 0 \<le> snd x \<and> snd x < int n"
    then have "x = (int (nat (fst x)), int (nat (snd x)))" by (simp add: prod_eq_iff)
    with h show "\<exists>d p. d < m \<and> p < n \<and> x = (int d, int p)"
      by (intro exI [of _ "nat (fst x)"] exI [of _ "nat (snd x)"]) auto
  qed
  finally show ?thesis .
qed

lemma sorted_grid_keys: "sorted_wrt (<) (grid_keys m n)"
proof (induction m)
  case 0
  then show ?case by (simp add: grid_keys_def)
next
  case (Suc m)
  have row: "sorted_wrt (<) (map (\<lambda>p. (int m, int p)) [0..<n])"
    by (simp add: sorted_wrt_map sorted_wrt_upt less_prod_def)
  have "x < (int m, int p)" if "x \<in> set (grid_keys m n)" for x p
  proof -
    have "fst x < int m" using that by (simp add: set_grid_keys)
    then show ?thesis by (cases x) (simp add: less_prod_def)
  qed
  with Suc row show ?case
    by (auto simp: grid_keys_def sorted_wrt_append)
qed

lemma grid_cells:
  "map cell_key (timetable_grid ppd subs) = grid_keys 5 (grid_periods ppd)"
  "c \<in> set (timetable_grid ppd subs) \<Longrightarrow> c_options c = subject_options subs \<and> c_value c = ''''"
  by (auto simp: timetable_grid_def grid_keys_def map_concat comp_def cell_key_def)

lemma filter_sorted_subset:
  fixes us ks :: "'a::linorder list"
  assumes "sorted_wrt (<) us" and "sorted_wrt (<) ks" and "set ks \<subseteq> set us"
  shows "filter (\<lambda>x. x \<in> set ks) us = ks"
proof (rule sorted_distinct_set_unique)
  have "sorted_wrt (<) (filter (\<lambda>x. x \<in> set ks) us)"
    using assms(1) by (rule sorted_wrt_filter)
  then show "sorted (filter (\<lambda>x. x \<in> set ks) us)" "distinct (filter (\<lambda>x. x \<in> set ks) us)"
    by (simp_all add: strict_sorted_iff)
  show "sorted ks" "distinct ks" using assms(2) by (simp_all add: strict_sorted_iff)
  show "set (filter (\<lambda>x. x \<in> set ks) us) = set ks" using assms(3) by auto
qed

subsection \<open>Reload roundtrip\<close>


lemma distinct_all_slot_keys_member:
  "distinct (all_slot_keys subs) \<Longrightarrow> s \<in> set subs \<Longrightarrow> distinct (map slot_key (timetable s))"
  by (induction subs) auto

lemma cell_slot_key: "cell_slot c = \<lparr>day = fst (cell_key c), period = snd (cell_key c)\<rparr>"
  by (simp add: cell_slot_def cell_key_def)

lemma slot_of_slot_key: "\<lparr>day = fst (slot_key sl), period = snd (slot_key sl)\<rparr> = sl"
  by (simp add: slot_key_def)

lemma parse_int_empty [simp]: "parse_int [] = None"
  by (simp add: parse_int_def)

lemma loaded_grid:
  assumes "distinct (all_slot_keys subs)"
  shows "load_selects subs (timetable_grid ppd subs) =
    map (\<lambda>c. case slot_owner subs (cell_key c) of None \<Rightarrow> c
             | Some k \<Rightarrow> c\<lparr>c_value := int_to_string (int k)\<rparr>) (timetable_grid ppd subs)"
proof -
  let ?G = "timetable_grid ppd subs"
  have d: "distinct (map cell_key ?G)"
    using sorted_grid_keys [of 5 "grid_periods ppd"] by (simp add: grid_cells strict_sorted_iff)
  have "load_selects subs ?G = map (\<lambda>c. case slot_owner subs (cell_key c) of None \<Rightarrow> c
             | Some k \<Rightarrow> set_select_value (int_to_string (int (0 + k))) c) ?G"
    by (simp add: load_selects_def load_from_map [OF d assms])
  also have "\<dots> = map (\<lambda>c. case slot_owner subs (cell_key c) of None \<Rightarrow> c
             | Some k \<Rightarrow> c\<lparr>c_value := int_to_string (int k)\<rparr>) ?G"
  proof (rule map_cong [OF refl], goal_cases)
    case (1 c)
    then have opts: "c_options c = subject_options subs" by (simp add: grid_cells)
    show ?case
    proof (cases "slot_owner subs (cell_key c)")
      case None
      then show ?thesis by simp
    next
      case (Some k)
      with assms have "k < length subs" by (simp add: slot_owner_Some)
      then have "int_to_string (int k) \<in> set (subject_options subs)"
        by (auto simp: subject_options_def)
      with Some opts show ?thesis by (simp add: set_select_value_def)
    qed
  qed
  finally show ?thesis .
qed

lemma load_selects_rebuild:
  assumes dist: "distinct (all_slot_keys subs)"
    and sorted: "\<forall>s\<in>set subs. sorted (map slot_key (timetable s))"
    and range: "\<forall>s\<in>set subs. \<forall>sl\<in>set (timetable s).
                  0 \<le> day sl \<and> day sl < 5 \<and> 0 \<le> period sl \<and> period sl < int (grid_periods ppd)"
  shows "rebuild_timetables (load_selects subs (timetable_grid ppd subs)) subs = (subs, None)"
proof -
  let ?G = "timetable_grid ppd subs"
  let ?f = "\<lambda>c. case slot_owner subs (cell_key c) of None \<Rightarrow> c
             | Some k \<Rightarrow> c\<lparr>c_value := int_to_string (int k)\<rparr>"
  have parse: "parse_int (c_value (?f c)) = map_option int (slot_owner subs (cell_key c))"
    if "c \<in> set ?G" for c
    using that by (cases "slot_owner subs (cell_key c)") (simp_all add: grid_cells)
  have key: "cell_key (?f c) = cell_key c" for c
    by (cases "slot_owner subs (cell_key c)") (simp_all add: cell_key_def)
  have "\<not> (\<exists>c\<in>set (map ?f ?G). \<exists>i. parse_int (c_value c) = Some i \<and>
            \<not> (0 \<le> i \<and> i < int (length (clear_timetables subs))))"
    using parse dist by (auto simp: clear_timetables_def slot_owner_Some)
  then obtain subs' where ok: "rebuild_timetables (map ?f ?G) subs = (subs', None)"
    using push_slots_error [of "map ?f ?G" "clear_timetables subs"]
    by (cases "rebuild_timetables (map ?f ?G) subs") (auto simp: rebuild_timetables_def)
  have tt: "map cell_slot (filter (\<lambda>c. parse_int (c_value c) = Some (int k)) (map ?f ?G))
            = timetable (subs ! k)" if k: "k < length subs" for k
  proof -
    let ?ks = "map slot_key (timetable (subs ! k))"
    have mem: "subs ! k \<in> set subs" using k by simp
    have own: "slot_owner subs x = Some k \<longleftrightarrow> x \<in> set ?ks" for x
      using dist k by (simp add: slot_owner_Some)
    have inner: "filter ((\<lambda>c. parse_int (c_value c) = Some (int k)) \<circ> ?f) ?G
          = filter (\<lambda>c. cell_key c \<in> set ?ks) ?G"
    proof (rule filter_cong [OF refl])
      fix c assume c: "c \<in> set ?G"
      have "((\<lambda>c. parse_int (c_value c) = Some (int k)) \<circ> ?f) c
            \<longleftrightarrow> map_option int (slot_owner subs (cell_key c)) = Some (int k)"
        using parse [OF c] by simp
      also have "\<dots> \<longleftrightarrow> slot_owner subs (cell_key c) = Some k"
        by (cases "slot_owner subs (cell_key c)") simp_all
      also have "\<dots> \<longleftrightarrow> cell_key c \<in> set ?ks" by (rule own)
      finally show "((\<lambda>c. parse_int (c_value c) = Some (int k)) \<circ> ?f) c = (cell_key c \<in> set ?ks)" .
    qed
    have keys: "filter (\<lambda>x. x \<in> set ?ks) (map cell_key ?G) = ?ks"
    proof -
      have "sorted_wrt (<) ?ks"
        using sorted distinct_all_slot_keys_member [OF dist mem] mem by (simp add: strict_sorted_iff)
      moreover have "set ?ks \<subseteq> set (grid_keys 5 (grid_periods ppd))"
        using range mem by (auto simp: set_grid_keys slot_key_def)
      ultimately have "filter (\<lambda>x. x \<in> set ?ks) (grid_keys 5 (grid_periods ppd)) = ?ks"
        by (intro filter_sorted_subset sorted_grid_keys)
      then show ?thesis by (simp only: grid_cells)
    qed
    have "map cell_slot (filter (\<lambda>c. parse_int (c_value c) = Some (int k)) (map ?f ?G))
          = map cell_slot (map ?f (filter (\<lambda>c. cell_key c \<in> set ?ks) ?G))"
      by (simp only: filter_map inner)
    also have "\<dots> = map (\<lambda>x. \<lparr>day = fst x, period = snd x\<rparr>) (filter (\<lambda>x. x \<in> set ?ks) (map cell_key ?G))"
      by (simp add: cell_slot_key key filter_map comp_def)
    also have "\<dots> = timetable (subs ! k)"
      by (simp only: keys map_map) (simp add: comp_def slot_of_slot_key)
    finally show ?thesis .
  qed
  from rebuild_timetables_ok [OF ok] tt have "subs' = subs"
    by (auto intro!: nth_equalityI)
  with ok show ?thesis by (simp add: loaded_grid [OF dist])
qed

subsection \<open>Witnesses\<close>

theorem rebuild_slots_disjoint_witness:
  "rebuild_timetables
     [\<lparr>c_day = 0, c_period = 0, c_options = [], c_value = ''1''\<rparr>,
      \<lparr>c_day = 0, c_period = 1, c_options = [], c_value = ''0''\<rparr>,
      \<lparr>c_day = 1, c_period = 0, c_options = [], c_value = ''''\<rparr>]
     [\<lparr>name = ''A'', attended = 3, total = 4, timetable = []\<rparr>,
      \<lparr>name = ''B'', attended = 1, total = 1, timetable = []\<rparr>]
   = ([\<lparr>name = ''A'', attended = 3, total = 4, timetable = [\<lparr>day = 0, period = 1\<rparr>]\<rparr>,
       \<lparr>name = ''B'', attended = 1, total = 1, timetable = [\<lparr>day = 0, period = 0\<rparr>]\<rparr>], None) \<and>
   distinct (map (\<lambda>c. (c_day c, c_period c))
     [\<lparr>c_day = 0, c_period = 0, c_options = [], c_value = ''1''\<rparr>,
      \<lparr>c_day = 0, c_period = 1, c_options = [], c_value = ''0''\<rparr>,
      \<lparr>c_day = 1, c_period = 0, c_options = [], c_value = ''''\<rparr>]) \<and>
   (0::nat) < 1 \<and> 1 < length [\<lparr>name = ''A'', attended = 3, total = 4, timetable = [\<lparr>day = 0, period = 1\<rparr>]\<rparr>,
       \<lparr>name = ''B'', attended = 1, total = 1, timetable = [\<lparr>day = 0, period = 0\<rparr>]\<rparr>] \<and>
   set [\<lparr>day = 0, period = 1\<rparr>] \<inter> set [\<lparr>day = (0::int), period = (0::int)\<rparr>] = {}"
proof -
  have h1: "rebuild_timetables
     [\<lparr>c_day = 0, c_period = 0, c_options = [], c_value = ''1''\<rparr>,
      \<lparr>c_day = 0, c_period = 1, c_options = [], c_value = ''0''\<rparr>,
      \<lparr>c_day = 1, c_period = 0, c_options = [], c_value = ''''\<rparr>]
     [\<lparr>name = ''A'', attended = 3, total = 4, timetable = []\<rparr>,
      \<lparr>name = ''B'', attended = 1, total = 1, timetable = []\<rparr>]
   = ([\<lparr>name = ''A'', attended = 3, total = 4, timetable = [\<lparr>day = 0, period = 1\<rparr>]\<rparr>,
       \<lparr>name = ''B'', attended = 1, total = 1, timetable = [\<lparr>day = 0, period = 0\<rparr>]\<rparr>], None)"
    by code_simp
  have h2: "distinct (map (\<lambda>c. (c_day c, c_period c))
     [\<lparr>c_day = 0, c_period = 0, c_options = [], c_value = ''1''\<rparr>,
      \<lparr>c_day = 0, c_period = 1, c_options = [], c_value = ''0''\<rparr>,
      \<lparr>c_day = 1, c_period = 0, c_options = [], c_value = ''''\<rparr>])"
    by simp
  show ?thesis
    using rebuild_slots_disjoint [OF h1 h2, of 0 1] h1 h2 by simp
qed

text \<open>C18. Stored timetables survive a page load: writing them into a fresh grid
  (\<open>loadUserDataFromServer\<close>, lines 59-67) and rebuilding them from the selects
  (lines 233-241 or 257-265) gives back every subject unchanged, provided every slot is
  inside the grid, each timetable is in grid order, and no slot is stored twice.\<close>

theorem timetable_reload_roundtrip:
  assumes dist: "distinct (all_slot_keys subs)"
    and sorted: "\<forall>s\<in>set subs. sorted (map slot_key (timetable s))"
    and range: "\<forall>s\<in>set subs. \<forall>sl\<in>set (timetable s).
                  0 \<le> day sl \<and> day sl < 5 \<and> 0 \<le> period sl \<and> period sl < int (grid_periods ppd)"
  shows "rebuild_timetables (load_selects subs (timetable_grid ppd subs)) subs = (subs, None)"
  using assms by (rule load_selects_rebuild)

theorem timetable_reload_roundtrip_witness:
  "distinct (all_slot_keys
     [\<lparr>name = ''A'', attended = 3, total = 4, timetable = [\<lparr>day = 0, period = 0\<rparr>, \<lparr>day = 1, period = 2\<rparr>]\<rparr>,
      \<lparr>name = ''B'', attended = 1, total = 1, timetable = [\<lparr>day = 0, period = 1\<rparr>]\<rparr>]) \<and>
   list_all (\<lambda>s. sorted (map slot_key (timetable s)))
     [\<lparr>name = ''A'', attended = 3, total = 4, timetable = [\<lparr>day = 0, period = 0\<rparr>, \<lparr>day = 1, period = 2\<rparr>]\<rparr>,
      \<lparr>name = ''B'', attended = 1, total = 1, timetable = [\<lparr>day = 0, period = 1\<rparr>]\<rparr>] \<and>
   list_all (\<lambda>s. list_all (\<lambda>sl. 0 \<le> day sl \<and> day sl < 5 \<and> 0 \<le> period sl
       \<and> period sl < int (grid_periods ''3'')) (timetable s))
     [\<lparr>name = ''A'', attended = 3, total = 4, timetable = [\<lparr>day = 0, period = 0\<rparr>, \<lparr>day = 1, period = 2\<rparr>]\<rparr>,
      \<lparr>name = ''B'', attended = 1, total = 1, timetable = [\<lparr>day = 0, period = 1\<rparr>]\<rparr>] \<and>
   rebuild_timetables (load_selects
     [\<lparr>name = ''A'', attended = 3, total = 4, timetable = [\<lparr>day = 0, period = 0\<rparr>, \<lparr>day = 1, period = 2\<rparr>]\<rparr>,
      \<lparr>name = ''B'', attended = 1, total = 1, timetable = [\<lparr>day = 0, period = 1\<rparr>]\<rparr>]
     (timetable_grid ''3''
       [\<lparr>name = ''A'', attended = 3, total = 4, timetable = [\<lparr>day = 0, period = 0\<rparr>, \<lparr>day = 1, period = 2\<rparr>]\<rparr>,
        \<lparr>name = ''B'', attended = 1, total = 1, timetable = [\<lparr>day = 0, period = 1\<rparr>]\<rparr>]))
     [\<lparr>name = ''A'', attended = 3, total = 4, timetable = [\<lparr>day = 0, period = 0\<rparr>, \<lparr>day = 1, period = 2\<rparr>]\<rparr>,
      \<lparr>name = ''B'', attended = 1, total = 1, timetable = [\<lparr>day = 0, period = 1\<rparr>]\<rparr>]
   = ([\<lparr>name = ''A'', attended = 3, total = 4, timetable = [\<lparr>day = 0, period = 0\<rparr>, \<lparr>day = 1, period = 2\<rparr>]\<rparr>,
      \<lparr>name = ''B'', attended = 1, total = 1, timetable = [\<lparr>day = 0, period = 1\<rparr>]\<rparr>], None)"
proof -
  have h1: "distinct (all_slot_keys
     [\<lparr>name = ''A'', attended = 3, total = 4, timetable = [\<lparr>day = 0, period = 0\<rparr>, \<lparr>day = 1, period = 2\<rparr>]\<rparr>,
      \<lparr>name = ''B'', attended = 1, total = 1, timetable = [\<lparr>day = 0, period = 1\<rparr>]\<rparr>])"
    by (simp add: slot_key_def)
  have h2: "\<forall>s\<in>set [\<lparr>name = ''A'', attended = 3, total = 4, timetable = [\<lparr>day = 0, period = 0\<rparr>, \<lparr>day = 1, period = 2\<rparr>]\<rparr>,
      \<lparr>name = ''B'', attended = 1, total = 1, timetable = [\<lparr>day = 0, period = 1\<rparr>]\<rparr>].
      sorted (map slot_key (timetable s))"
    by (simp add: slot_key_def less_eq_prod_def)
  have h3: "\<forall>s\<in>set [\<lparr>name = ''A'', attended = 3, total = 4, timetable = [\<lparr>day = 0, period = 0\<rparr>, \<lparr>day = 1, period = 2\<rparr>]\<rparr>,
      \<lparr>name = ''B'', attended = 1, total = 1, timetable = [\<lparr>day = 0, period = 1\<rparr>]\<rparr>].
      \<forall>sl\<in>set (timetable s). 0 \<le> day sl \<and> day sl < 5 \<and> 0 \<le> period sl \<and> period sl < int (grid_periods ''3'')"
    by code_simp
  show ?thesis using timetable_reload_roundtrip [OF h1 h2 h3] h1 h2 h3 by (simp only: list_all_iff)
qed

end
