(* ===== verification/Persist.thy ===== *)
theory Persist
  imports Attendance JsString
begin

text \<open>
  The document exchanged with the remote store (\<open>saveUserDataToServer\<close>, lines 89-124,
  and \<open>loadUserDataFromServer\<close>, lines 20-84 of \<open>src/script.js\<close>). A stored subject
  has optional fields, since the loader accepts both the current names
  (\<open>classesAttended\<close>, \<open>classesConducted\<close>) and the older ones (\<open>attended\<close>,
  \<open>total\<close>); \<open>None\<close> is a missing or \<open>null\<close> field, which \<open>??\<close> skips. The
  request itself (\<open>fetch\<close>, the token, the JSON encoding) is not modelled: the model
  stops at the payload object handed to \<open>JSON.stringify\<close> and starts at the parsed
  \<open>payload.data\<close>. \<open>Number(v)\<close> of a string is modelled as ECMAScript's \<open>StringToNumber\<close> on
  finite literals (blank, a signed decimal with fraction and exponent, an unsigned
  \<open>0x\<close>/\<open>0o\<close>/\<open>0b\<close> literal), with exact rationals; the literal \<open>Infinity\<close> is the
  one accepted string the model maps to \<open>NaN\<close>.
\<close>

record stored_subject =
  st_name :: "string option"
  st_classesAttended :: "int option"
  st_attended :: "int option"
  st_classesConducted :: "int option"
  st_total :: "int option"
  st_timetable :: "slot list option"

record save_doc =
  sd_subjects :: "stored_subject list"
  sd_safeLeaveDates :: "day_number list"
  sd_endDate :: string
  sd_periodsPerDay :: rat

definition all_digits :: "string \<Rightarrow> bool" where
  "all_digits s \<longleftrightarrow> length (radix_digits 10 s) = length s"

definition decimal_value :: "string \<Rightarrow> string \<Rightarrow> rat" where
  \<comment> \<open>the value of the decimal numeral \<open>ip.fp\<close>\<close>
  "decimal_value ip fp = of_nat (digits_to_nat 10 (radix_digits 10 (ip @ fp))) / 10 ^ length fp"

definition scale10 :: "rat \<Rightarrow> int \<Rightarrow> rat" where
  "scale10 x k = (if 0 \<le> k then x * 10 ^ nat k else x / 10 ^ nat (- k))"

definition js_exponent :: "string \<Rightarrow> int option" where
  \<comment> \<open>the exponent part of a numeral: empty, or \<open>e\<close>/\<open>E\<close>, a sign, digits\<close>
  "js_exponent ex =
     (if ex = [] then Some 0
      else let s = tl ex;
               neg = (s \<noteq> [] \<and> hd s = CHR ''-'');
               ds = (if s \<noteq> [] \<and> (hd s = CHR ''-'' \<or> hd s = CHR ''+'') then tl s else s)
           in if ds \<noteq> [] \<and> all_digits ds
              then Some ((if neg then -1 else 1) * int (digits_to_nat 10 (radix_digits 10 ds)))
              else None)"

definition js_unsigned_decimal :: "string \<Rightarrow> rat option" where
  \<comment> \<open>\<open>digits [. digits] [exponent]\<close> or \<open>. digits [exponent]\<close>\<close>
  "js_unsigned_decimal u =
     (let is_e = (\<lambda>c. c = CHR ''e'' \<or> c = CHR ''E'');
          m = takeWhile (\<lambda>c. \<not> is_e c) u;
          ip = takeWhile (\<lambda>c. c \<noteq> CHR ''.'') m;
          fp = drop 1 (dropWhile (\<lambda>c. c \<noteq> CHR ''.'') m)
      in if all_digits ip \<and> all_digits fp \<and> (ip \<noteq> [] \<or> fp \<noteq> [])
         then map_option (scale10 (decimal_value ip fp)) (js_exponent (dropWhile (\<lambda>c. \<not> is_e c) u))
         else None)"

definition radix_prefix :: "string \<Rightarrow> nat option" where
  "radix_prefix t =
     (if take 2 t = ''0x'' \<or> take 2 t = ''0X'' then Some 16
      else if take 2 t = ''0o'' \<or> take 2 t = ''0O'' then Some 8
      else if take 2 t = ''0b'' \<or> take 2 t = ''0B'' then Some 2
      else None)"

definition js_number :: "string \<Rightarrow> rat option" where
  \<comment> \<open>\<open>Number(v)\<close> of a string: blank is 0; otherwise the whole trimmed string must be
      one unsigned radix literal or one signed decimal literal; \<open>None\<close> is \<open>NaN\<close>\<close>
  "js_number v =
     (let t = trim v in
      if t = [] then Some 0
      else case radix_prefix t of
        Some r \<Rightarrow>
          (let h = drop 2 t in
           if h \<noteq> [] \<and> length (radix_digits r h) = length h
           then Some (of_nat (digits_to_nat r (radix_digits r h))) else None)
      | None \<Rightarrow>
          (let neg = (hd t = CHR ''-'');
               u = (if hd t = CHR ''-'' \<or> hd t = CHR ''+'' then tl t else t)
           in map_option (\<lambda>x. if neg then - x else x) (js_unsigned_decimal u)))"

definition save_subject :: "subject \<Rightarrow> stored_subject" where
  \<comment> \<open>\<open>{ name: s.name || "", classesAttended: Number(s.attended ?? ...), ... }\<close>\<close>
  "save_subject s =
     \<lparr>st_name = Some (name s), st_classesAttended = Some (attended s), st_attended = None,
      st_classesConducted = Some (total s), st_total = None, st_timetable = Some (timetable s)\<rparr>"

definition save_payload :: "subject list \<Rightarrow> day_number list \<Rightarrow> string \<Rightarrow> string \<Rightarrow> save_doc" where
  \<comment> \<open>\<open>{ subjects, safeLeaveDates: finalLeaveDates || [], endDate: endDateInput || "",
      periodsPerDay: Number(periodsPerDayValue) || 0 }\<close>\<close>
  "save_payload subs dates end_input ppd =
     \<lparr>sd_subjects = map save_subject subs, sd_safeLeaveDates = dates, sd_endDate = end_input,
      sd_periodsPerDay = (case js_number ppd of None \<Rightarrow> 0 | Some n \<Rightarrow> n)\<rparr>"

definition load_subject :: "stored_subject \<Rightarrow> subject" where
  \<comment> \<open>\<open>{ name: s.name || "", attended: s.classesAttended ?? s.attended ?? 0, ... }\<close>\<close>
  "load_subject d =
     \<lparr>name = (case st_name d of None \<Rightarrow> '''' | Some n \<Rightarrow> n),
      attended = (case st_classesAttended d of Some a \<Rightarrow> a
                  | None \<Rightarrow> (case st_attended d of Some a \<Rightarrow> a | None \<Rightarrow> 0)),
      total = (case st_classesConducted d of Some t \<Rightarrow> t
               | None \<Rightarrow> (case st_total d of Some t \<Rightarrow> t | None \<Rightarrow> 0)),
      timetable = (case st_timetable d of None \<Rightarrow> [] | Some tt \<Rightarrow> tt)\<rparr>"

definition load_subjects :: "stored_subject list option \<Rightarrow> subject list" where
  \<comment> \<open>\<open>(doc.subjects || []).map(...)\<close>\<close>
  "load_subjects ds = map load_subject (case ds of None \<Rightarrow> [] | Some l \<Rightarrow> l)"

lemma load_subject_save_subject [simp]: "load_subject (save_subject s) = s"
  by (simp add: load_subject_def save_subject_def)

end
