(* ===== verification/Handlers.thy ===== *)
theory Handlers
  imports Scheduler Timetable Persist
begin

text \<open>
  The event handlers of \<open>src/script.js\<close> over the page state: the global
  \<open>subjectData\<close>, the timetable grid of selects, the subject rows and the other form
  inputs, and the login token of \<open>localStorage\<close>. A handler returns the new page, the
  effects it causes in order (an \<open>alert\<close>, a save request with its payload, the
  rendered result, a redirect, a \<open>console.error\<close> line) and the exception it ends with, if any: an uncaught
  \<open>TypeError\<close> ends the handler but keeps every assignment made before it. The
  browser's event loop is \<open>run\<close>, which dispatches a list of events, user edits of
  the inputs among them, one after the other.
\<close>

record subject_row =
  row_name :: string
  row_attended :: string
  row_total :: string

record page =
  subjectData :: "subject list"
  grid :: "cell list"
  rows :: "subject_row list"
  subjectCount_in :: string
  endDate_in :: string
  periodsPerDay_in :: string
  token :: "string option"

datatype effect = Alert string | Save save_doc | Show leave_result | Redirect string | Log string

type_synonym outcome = "page \<times> effect list \<times> js_error option"

definition save_effects :: "page \<Rightarrow> day_number list \<Rightarrow> string \<Rightarrow> effect list" where
  \<comment> \<open>\<open>saveUserDataToServer(subjectData, dates, endDate, periodsPerDay)\<close>: nothing
      without a token; the payload is built before the first \<open>await\<close>\<close>
  "save_effects pg dates end_input =
     (case token pg of None \<Rightarrow> []
      | Some t \<Rightarrow> if t = [] then []
                 else [Save (save_payload (subjectData pg) dates end_input (periodsPerDay_in pg))])"

definition logout :: "page \<Rightarrow> outcome" where
  "logout pg = (pg\<lparr>token := None, subjectData := []\<rparr>, [Redirect ''login.html''], None)"

definition count_of :: "string \<Rightarrow> nat" where
  \<comment> \<open>\<open>for (let i = 0; i < parseInt(v); i++)\<close>: \<open>NaN\<close> and negatives run no iteration\<close>
  "count_of v = (case parse_int v of None \<Rightarrow> 0 | Some c \<Rightarrow> nat c)"

definition generate_subject_inputs :: "page \<Rightarrow> page" where
  \<comment> \<open>\<open>generateSubjectInputs\<close>: fresh empty rows, one per counted subject\<close>
  "generate_subject_inputs pg =
     pg\<lparr>rows := replicate (count_of (subjectCount_in pg)) \<lparr>row_name = [], row_attended = [], row_total = []\<rparr>\<rparr>"

definition generate_timetable :: "page \<Rightarrow> page" where
  \<comment> \<open>\<open>generateTimetable\<close>: a new grid of empty selects over the current subjects\<close>
  "generate_timetable pg = pg\<lparr>grid := timetable_grid (periodsPerDay_in pg) (subjectData pg)\<rparr>"

datatype submit_stop = Invalid_row | Missing_row

fun submit_rows :: "nat \<Rightarrow> subject_row list \<Rightarrow> subject list \<Rightarrow> subject list \<times> submit_stop option" where
  \<comment> \<open>the loop of lines 132-138, pushing onto \<open>subjectData\<close> as it goes; a missing row
      makes \<open>getElementById(..).value\<close> throw\<close>
  "submit_rows 0 rs acc = (acc, None)"
| "submit_rows (Suc n) [] acc = (acc, Some Missing_row)"
| "submit_rows (Suc n) (r # rs) acc =
     (let nm = trim (row_name r) in
      case (parse_int (row_attended r), parse_int (row_total r)) of
        (Some a, Some t) \<Rightarrow>
          if nm = [] \<or> t < a then (acc, Some Invalid_row)
          else submit_rows n rs (acc @ [\<lparr>name = nm, attended = a, total = t, timetable = []\<rparr>])
      | _ \<Rightarrow> (acc, Some Invalid_row))"

definition attendance_submit :: "page \<Rightarrow> outcome" where
  "attendance_submit pg =
     (case submit_rows (count_of (subjectCount_in pg)) (rows pg) [] of
        (subs, Some Invalid_row) \<Rightarrow>
          (pg\<lparr>subjectData := subs\<rparr>, [Alert ''Please enter valid data for all subjects.''], None)
      | (subs, Some Missing_row) \<Rightarrow> (pg\<lparr>subjectData := subs\<rparr>, [], Some TypeError)
      | (subs, None) \<Rightarrow>
          (let pg' = generate_timetable (pg\<lparr>subjectData := subs\<rparr>)
           in (pg', save_effects pg' [] (endDate_in pg), None)))"

definition subject_input :: "nat \<Rightarrow> page \<Rightarrow> outcome" where
  \<comment> \<open>the \<open>input\<close> listener of row \<open>i\<close>, lines 218-223; it exists only for a row of the
      page, and \<open>subjectData[i]\<close> may be \<open>undefined\<close>\<close>
  "subject_input i pg =
     (if length (rows pg) \<le> i then (pg, [], None)
      else if length (subjectData pg) \<le> i then (pg, [], Some TypeError)
      else
        let r = rows pg ! i;
            s = (subjectData pg ! i)\<lparr>name := trim (row_name r),
                  attended := parse_int_or_zero (row_attended r),
                  total := parse_int_or_zero (row_total r)\<rparr>;
            pg' = pg\<lparr>subjectData := (subjectData pg)[i := s]\<rparr>
        in (pg', save_effects pg' [] (endDate_in pg), None))"

definition timetable_change :: "page \<Rightarrow> outcome" where
  \<comment> \<open>the \<open>change\<close> listener of the selects, lines 232-243\<close>
  "timetable_change pg =
     (case rebuild_timetables (grid pg) (subjectData pg) of
        (subs, Some err) \<Rightarrow> (pg\<lparr>subjectData := subs\<rparr>, [], Some err)
      | (subs, None) \<Rightarrow>
          (let pg' = pg\<lparr>subjectData := subs\<rparr> in (pg', save_effects pg' [] (endDate_in pg), None)))"

definition days_from_civil :: "int \<Rightarrow> int \<Rightarrow> int \<Rightarrow> day_number" where
  \<comment> \<open>the day number of year \<open>y\<close>, month \<open>m\<close> (1-12), day \<open>d\<close>\<close>
  "days_from_civil y m d =
     (let y' = (if m \<le> 2 then y - 1 else y); era = y' div 400; yoe = y' - era * 400;
          mp = (m + 9) mod 12; doy = (153 * mp + 2) div 5 + d - 1;
          doe = yoe * 365 + yoe div 4 - yoe div 100 + doy
      in era * 146097 + doe - 719468)"

definition decimal_field :: "string \<Rightarrow> int" where
  "decimal_field s = int (digits_to_nat 10 (radix_digits 10 s))"

definition parse_date :: "string \<Rightarrow> time_value option" where
  \<comment> \<open>\<open>new Date("YYYY-MM-DD")\<close>: a date-only ISO string is midnight UTC of that day;
      an impossible date is \<open>NaN\<close>, here \<open>None\<close>\<close>
  "parse_date s =
     (if length s = 10 \<and> s ! 4 = CHR ''-'' \<and> s ! 7 = CHR ''-'' \<and> all_digits (take 4 s)
         \<and> all_digits (take 2 (drop 5 s)) \<and> all_digits (drop 8 s)
      then
        let y = decimal_field (take 4 s); m = decimal_field (take 2 (drop 5 s));
            d = decimal_field (drop 8 s)
        in if 1 \<le> m \<and> m \<le> 12 \<and> 1 \<le> d \<and> civil_from_days (days_from_civil y m d) = (y, m - 1, d)
           then Some (days_from_civil y m d * ms_per_day) else None
      else None)"

definition calculate :: "tz_offset \<Rightarrow> (nat \<Rightarrow> rat) \<Rightarrow> time_value \<Rightarrow> page \<Rightarrow> outcome" where
  \<comment> \<open>\<open>window.calculate\<close>, lines 248-272, at time \<open>now\<close> (\<open>new Date()\<close>)\<close>
  "calculate tz rnd now pg =
     (let end_input = endDate_in pg in
      if end_input = [] then (pg, [Alert ''Please select an end date.''], None)
      else
        let e = parse_date end_input in
        if (case e of None \<Rightarrow> False | Some e' \<Rightarrow> e' \<le> now)
        then (pg, [Alert ''End date must be in the future.''], None)
        else
          case rebuild_timetables (grid pg) (subjectData pg) of
            (subs, Some err) \<Rightarrow> (pg\<lparr>subjectData := subs\<rparr>, [], Some err)
          | (subs, None) \<Rightarrow>
              (let r = process_attendance tz rnd subs now e;
                   pg' = pg\<lparr>subjectData := subs\<rparr>
               in (pg', Show r # save_effects pg' (finalLeaveDates r) end_input, None)))"

subsection \<open>The event loop\<close>

datatype event =
    Edit_row nat subject_row
  | Set_count string
  | Set_end_date string
  | Set_periods string
  | Select_option nat string
  | Generate_inputs
  | Submit
  | Subject_input nat
  | Timetable_change
  | Calculate time_value "nat \<Rightarrow> rat"
  | Logout

definition dispatch :: "tz_offset \<Rightarrow> event \<Rightarrow> page \<Rightarrow> outcome" where
  "dispatch tz ev pg =
     (case ev of
        Edit_row i r \<Rightarrow> (pg\<lparr>rows := (rows pg)[i := r]\<rparr>, [], None)
      | Set_count v \<Rightarrow> (pg\<lparr>subjectCount_in := v\<rparr>, [], None)
      | Set_end_date v \<Rightarrow> (pg\<lparr>endDate_in := v\<rparr>, [], None)
      | Set_periods v \<Rightarrow> (pg\<lparr>periodsPerDay_in := v\<rparr>, [], None)
      | Select_option k v \<Rightarrow>
          (if k < length (grid pg) then (pg\<lparr>grid := (grid pg)[k := set_select_value v (grid pg ! k)]\<rparr>, [], None)
           else (pg, [], None))
      | Generate_inputs \<Rightarrow> (generate_subject_inputs pg, [], None)
      | Submit \<Rightarrow> attendance_submit pg
      | Subject_input i \<Rightarrow> subject_input i pg
      | Timetable_change \<Rightarrow> timetable_change pg
      | Calculate now rnd \<Rightarrow> calculate tz rnd now pg
      | Logout \<Rightarrow> logout pg)"

fun run :: "tz_offset \<Rightarrow> event list \<Rightarrow> page \<Rightarrow> page \<times> effect list" where
  "run tz [] pg = (pg, [])"
| "run tz (ev # evs) pg =
     (case dispatch tz ev pg of (pg', es, _) \<Rightarrow>
        case run tz evs pg' of (pg'', es') \<Rightarrow> (pg'', es @ es'))"

definition valid_row_subject :: "subject_row \<Rightarrow> subject \<Rightarrow> bool" where
  \<comment> \<open>the subject pushed for a row that passes the check of line 136\<close>
  "valid_row_subject r s \<longleftrightarrow>
     name s = trim (row_name r) \<and> name s \<noteq> [] \<and> parse_int (row_attended r) = Some (attended s)
     \<and> parse_int (row_total r) = Some (total s) \<and> attended s \<le> total s \<and> timetable s = []"

subsection \<open>Sample sessions\<close>

abbreviation blank_page :: page where
  "blank_page \<equiv> \<lparr>subjectData = [], grid = [], rows = [], subjectCount_in = [], endDate_in = [],
                  periodsPerDay_in = [], token = Some ''tok''\<rparr>"

abbreviation valid_session :: "event list" where
  "valid_session \<equiv> [Set_count ''2'', Set_periods ''1'', Generate_inputs,
     Edit_row 0 \<lparr>row_name = '' Math'', row_attended = ''30'', row_total = ''36''\<rparr>,
     Edit_row 1 \<lparr>row_name = ''Physics'', row_attended = ''40'', row_total = ''48''\<rparr>, Submit]"

abbreviation stale_page :: page where
  \<comment> \<open>after a valid submit, a select assigned to Physics, an end date, and Physics' total
      erased again\<close>
  "stale_page \<equiv> fst (run 0 (valid_session @ [Select_option 0 ''1'', Timetable_change,
     Set_end_date ''2026-07-10'',
     Edit_row 1 \<lparr>row_name = ''Physics'', row_attended = ''40'', row_total = []\<rparr>]) blank_page)"

abbreviation typed_page :: page where
  \<comment> \<open>after a valid submit, 90 attended of 36 typed into the Math row\<close>
  "typed_page \<equiv> fst (run 0 (valid_session @
     [Edit_row 0 \<lparr>row_name = ''Math'', row_attended = ''90'', row_total = ''36''\<rparr>]) blank_page)"

subsection \<open>Effects\<close>

lemma save_effects_Save:
  "Save d \<in> set (save_effects pg dates e) \<Longrightarrow> d = save_payload (subjectData pg) dates e (periodsPerDay_in pg)"
  by (auto simp: save_effects_def split: option.splits if_splits)

lemma save_effects_only_saves [simp]:
  "Show r \<notin> set (save_effects pg dates e)" "Alert m \<notin> set (save_effects pg dates e)"
  by (auto simp: save_effects_def split: option.splits)

lemma save_effects_no_token [simp]: "token pg = None \<Longrightarrow> save_effects pg dates e = []"
  by (simp add: save_effects_def)

lemma dispatch_no_token:
  assumes "token pg = None"
  shows "token (fst (dispatch tz ev pg)) = None" "Save d \<notin> set (fst (snd (dispatch tz ev pg)))"
  using assms
  by (cases ev; auto simp: dispatch_def logout_def attendance_submit_def subject_input_def
        timetable_change_def calculate_def generate_subject_inputs_def generate_timetable_def Let_def
        split: prod.splits option.splits submit_stop.splits)+

lemma run_no_token:
  "token pg = None \<Longrightarrow> Save d \<notin> set (snd (run tz evs pg))"
proof (induction evs arbitrary: pg)
  case Nil
  then show ?case by simp
next
  case (Cons ev evs)
  obtain pg' es x where d: "dispatch tz ev pg = (pg', es, x)" by (cases "dispatch tz ev pg") auto
  with dispatch_no_token [OF Cons.prems, where tz = tz and ev = ev] have "token pg' = None" "Save d \<notin> set es" by auto
  moreover obtain pg'' es' where "run tz evs pg' = (pg'', es')" by (cases "run tz evs pg'") auto
  ultimately show ?case using Cons.IH [of pg'] d by simp
qed

subsection \<open>The submit loop\<close>

lemma submit_rows_ok:
  "submit_rows n rs acc = (subs, None) \<Longrightarrow>
     n \<le> length rs \<and> length subs = length acc + n \<and> take (length acc) subs = acc
     \<and> (\<forall>i<n. valid_row_subject (rs ! i) (subs ! (length acc + i)))"
proof (induction n rs acc rule: submit_rows.induct)
  case (3 n r rs acc)
  obtain a t where p: "parse_int (row_attended r) = Some a" "parse_int (row_total r) = Some t"
    and ok: "\<not> (trim (row_name r) = [] \<or> t < a)"
    and rec: "submit_rows n rs (acc @ [\<lparr>name = trim (row_name r), attended = a, total = t, timetable = []\<rparr>])
                = (subs, None)"
    using "3.prems" by (auto simp: Let_def split: option.splits if_splits)
  let ?s = "\<lparr>name = trim (row_name r), attended = a, total = t, timetable = []\<rparr>"
  note IH = "3.IH" [OF refl refl p(1) p(2) ok rec, simplified]
  have v: "valid_row_subject r ?s" using p ok by (auto simp: valid_row_subject_def)
  show ?case
  proof (intro conjI allI impI)
    show "Suc n \<le> length (r # rs)" "length subs = length acc + Suc n" using IH by simp_all
    have "take (length acc) (take (Suc (length acc)) subs) = acc" using IH by simp
    then show "take (length acc) subs = acc" by (simp add: min_def)
    fix i assume "i < Suc n"
    then show "valid_row_subject ((r # rs) ! i) (subs ! (length acc + i))"
    proof (cases i)
      case 0
      have t: "take (Suc (length acc)) subs = acc @ [?s]" using IH by simp
      have "subs ! length acc = (acc @ [?s]) ! length acc" by (metis t lessI nth_take)
      then show ?thesis using 0 v by simp
    next
      case (Suc j)
      with \<open>i < Suc n\<close> IH show ?thesis by (simp add: add.commute add.left_commute)
    qed
  qed
qed auto

subsection \<open>The timetable listener changes timetables only\<close>

lemma submit_rows_stop_length:
  "submit_rows n rs acc = (subs, Some x) \<Longrightarrow> length subs < length acc + n"
  by (induction n rs acc rule: submit_rows.induct) (fastforce simp: Let_def split: option.splits if_splits)+

lemma clear_push_slot:
  "map (\<lambda>s. s\<lparr>timetable := []\<rparr>) (push_slot k sl subs) = map (\<lambda>s. s\<lparr>timetable := []\<rparr>) subs"
proof (cases "k < length subs")
  case True
  then have "(subs ! k)\<lparr>timetable := []\<rparr> = map (\<lambda>s. s\<lparr>timetable := []\<rparr>) subs ! k" by simp
  then show ?thesis by (simp add: push_slot_def map_update del: nth_map)
qed (simp add: push_slot_def list_update_beyond)

lemma clear_push_slots:
  "map (\<lambda>s. s\<lparr>timetable := []\<rparr>) (fst (push_slots cs subs)) = map (\<lambda>s. s\<lparr>timetable := []\<rparr>) subs"
  by (induction cs subs rule: push_slots.induct) (simp_all add: clear_push_slot split: option.split)

lemma clear_rebuild:
  "map (\<lambda>s. s\<lparr>timetable := []\<rparr>) (fst (rebuild_timetables cells subs)) = map (\<lambda>s. s\<lparr>timetable := []\<rparr>) subs"
  by (simp add: rebuild_timetables_def clear_push_slots clear_timetables_def)

lemma process_attendance_no_end:
  "finalLeaveDates (process_attendance tz rnd subs now None) = []"
  by (simp add: process_attendance_def candidate_dates_def shuffle_def select_leaves_def init_sel_def
           split: prod.split)

subsection \<open>Handler properties\<close>

text \<open>C20. \<open>calculate\<close> refuses an end date that is not after the current time: the
  page is left as it was and the only effect is the alert \<open>End date must be in the
  future.\<close> (line 254).\<close>

theorem calculate_rejects_past_end_date:
  assumes "endDate_in pg \<noteq> []" and "parse_date (endDate_in pg) = Some e" and "e \<le> now"
  shows "calculate tz rnd now pg = (pg, [Alert ''End date must be in the future.''], None)"
  using assms by (simp add: calculate_def Let_def)

theorem calculate_rejects_past_end_date_witness:
  "endDate_in (blank_page\<lparr>endDate_in := ''2026-07-10''\<rparr>) \<noteq> []
   \<and> parse_date (endDate_in (blank_page\<lparr>endDate_in := ''2026-07-10''\<rparr>)) = Some (20644 * ms_per_day)
   \<and> 20644 * ms_per_day \<le> noon 20650
   \<and> calculate 0 (\<lambda>_. 0) (noon 20650) (blank_page\<lparr>endDate_in := ''2026-07-10''\<rparr>)
       = (blank_page\<lparr>endDate_in := ''2026-07-10''\<rparr>, [Alert ''End date must be in the future.''], None)"
proof -
  have h1: "endDate_in (blank_page\<lparr>endDate_in := ''2026-07-10''\<rparr>) \<noteq> []" by simp
  have h2: "parse_date (endDate_in (blank_page\<lparr>endDate_in := ''2026-07-10''\<rparr>)) = Some (20644 * ms_per_day)"
    by code_simp
  have h3: "20644 * ms_per_day \<le> noon 20650" by (simp add: ms_per_day_def)
  show ?thesis using calculate_rejects_past_end_date [OF h1 h2 h3, of 0 "\<lambda>_. 0"] h1 h2 h3 by blast
qed

text \<open>C21. When \<open>calculate\<close> shows a result and saves, the saved payload carries
  exactly the leave dates shown, the subjects as \<open>subjectData\<close> stands after the
  timetables were rebuilt, and the end date as typed; no exception was raised.\<close>

theorem calculate_saves_shown_dates:
  assumes "calculate tz rnd now pg = (pg', es, err)" and "Show r \<in> set es" and "Save d \<in> set es"
  shows "err = None \<and> sd_safeLeaveDates d = finalLeaveDates r
         \<and> sd_subjects d = map save_subject (subjectData pg') \<and> sd_endDate d = endDate_in pg"
  using assms
  by (auto simp: calculate_def Let_def save_payload_def dest!: save_effects_Save
           split: if_splits option.splits prod.splits)

theorem calculate_saves_shown_dates_witness:
  "\<exists>pg' es err r d. calculate 0 (\<lambda>_. 0) (noon 20640) (blank_page\<lparr>endDate_in := ''2026-07-10''\<rparr>) = (pg', es, err)
     \<and> Show r \<in> set es \<and> Save d \<in> set es \<and> err = None \<and> sd_safeLeaveDates d = finalLeaveDates r"
proof -
  obtain pg' es err where c: "calculate 0 (\<lambda>_. 0) (noon 20640) (blank_page\<lparr>endDate_in := ''2026-07-10''\<rparr>) = (pg', es, err)"
    by (cases "calculate 0 (\<lambda>_. 0) (noon 20640) (blank_page\<lparr>endDate_in := ''2026-07-10''\<rparr>)") auto
  have e: "fst (snd (calculate 0 (\<lambda>_. 0) (noon 20640) (blank_page\<lparr>endDate_in := ''2026-07-10''\<rparr>)))
      = [Show \<lparr>finalLeaveDates = [20642, 20643], safeSubjects = [], notPossibleSubjects = []\<rparr>,
         Save \<lparr>sd_subjects = [], sd_safeLeaveDates = [20642, 20643], sd_endDate = ''2026-07-10'', sd_periodsPerDay = 0\<rparr>]"
    by code_simp
  then have "Show \<lparr>finalLeaveDates = [20642, 20643], safeSubjects = [], notPossibleSubjects = []\<rparr> \<in> set es"
    "Save \<lparr>sd_subjects = [], sd_safeLeaveDates = [20642, 20643], sd_endDate = ''2026-07-10'', sd_periodsPerDay = 0\<rparr> \<in> set es"
    using c by simp_all
  with calculate_saves_shown_dates [OF c] c show ?thesis by blast
qed

text \<open>C22. A submit that neither alerts nor throws builds one subject per counted row,
  each with the trimmed non-empty name, the parsed counts, attended not above total,
  and an empty timetable, and regenerates the grid over the new subjects.\<close>

theorem submit_builds_valid_subjects:
  assumes "attendance_submit pg = (pg', es, None)" and "\<forall>m. Alert m \<notin> set es"
  shows "length (subjectData pg') = count_of (subjectCount_in pg)
         \<and> count_of (subjectCount_in pg) \<le> length (rows pg)
         \<and> (\<forall>i < length (subjectData pg'). valid_row_subject (rows pg ! i) (subjectData pg' ! i))
         \<and> grid pg' = timetable_grid (periodsPerDay_in pg) (subjectData pg')"
proof -
  obtain subs x where sr: "submit_rows (count_of (subjectCount_in pg)) (rows pg) [] = (subs, x)"
    by (cases "submit_rows (count_of (subjectCount_in pg)) (rows pg) []") auto
  have "x = None"
    using assms sr by (cases x) (auto simp: attendance_submit_def split: submit_stop.splits)
  then have ok: "count_of (subjectCount_in pg) \<le> length (rows pg) \<and> length subs = count_of (subjectCount_in pg)
      \<and> (\<forall>i<count_of (subjectCount_in pg). valid_row_subject (rows pg ! i) (subs ! i))"
    using submit_rows_ok [of _ _ "[]"] sr by fastforce
  have "subjectData pg' = subs" "grid pg' = timetable_grid (periodsPerDay_in pg) subs"
    using assms(1) sr \<open>x = None\<close> by (auto simp: attendance_submit_def generate_timetable_def Let_def)
  with ok show ?thesis by simp
qed


theorem submit_builds_valid_subjects_witness:
  "attendance_submit (fst (run 0 (butlast valid_session) blank_page))
     = (fst (attendance_submit (fst (run 0 (butlast valid_session) blank_page))), [Save (save_payload
         [\<lparr>name = ''Math'', attended = 30, total = 36, timetable = []\<rparr>,
          \<lparr>name = ''Physics'', attended = 40, total = 48, timetable = []\<rparr>] [] [] ''1'')], None)
   \<and> (\<forall>m. Alert m \<notin> set [Save (save_payload
         [\<lparr>name = ''Math'', attended = 30, total = 36, timetable = []\<rparr>,
          \<lparr>name = ''Physics'', attended = 40, total = 48, timetable = []\<rparr>] [] [] ''1'')])
   \<and> length (subjectData (fst (attendance_submit (fst (run 0 (butlast valid_session) blank_page))))) = 2"
proof -
  let ?pg = "fst (run 0 (butlast valid_session) blank_page)"
  let ?es = "[Save (save_payload
         [\<lparr>name = ''Math'', attended = 30, total = 36, timetable = []\<rparr>,
          \<lparr>name = ''Physics'', attended = 40, total = 48, timetable = []\<rparr>] [] [] ''1'')]"
  have h1: "attendance_submit ?pg = (fst (attendance_submit ?pg), ?es, None)" by code_simp
  have h2: "\<forall>m. Alert m \<notin> set ?es" by simp
  have h3: "count_of (subjectCount_in ?pg) = 2" by code_simp
  show ?thesis using submit_builds_valid_subjects [OF h1 h2] h1 h2 h3 by simp
qed

text \<open>C23. A submit that stops at an invalid row alerts, and has already replaced
  \<open>subjectData\<close> by the rows read before that row, but it does not regenerate the
  grid. So when the old grid has a select holding the last counted subject, the next
  \<open>calculate\<close> with an end date in the future throws \<open>TypeError\<close> at line 263:
  \<open>subjectData[i]\<close> is undefined.\<close>

theorem failed_submit_keeps_stale_grid:
  assumes stop: "snd (submit_rows (count_of (subjectCount_in pg)) (rows pg) []) = Some Invalid_row"
    and sel: "c \<in> set (grid pg)" "parse_int (c_value c) = Some (int k)" "Suc k = count_of (subjectCount_in pg)"
    and e: "endDate_in pg \<noteq> []" "case parse_date (endDate_in pg) of None \<Rightarrow> True | Some e' \<Rightarrow> now < e'"
  shows "grid (fst (attendance_submit pg)) = grid pg
         \<and> snd (attendance_submit pg) = ([Alert ''Please enter valid data for all subjects.''], None)
         \<and> snd (snd (calculate tz rnd now (fst (attendance_submit pg)))) = Some TypeError"
proof -
  obtain subs where r: "submit_rows (count_of (subjectCount_in pg)) (rows pg) [] = (subs, Some Invalid_row)"
    using stop by (cases "submit_rows (count_of (subjectCount_in pg)) (rows pg) []") auto
  have "length subs \<le> k" using submit_rows_stop_length [OF r] sel(3) by simp
  then have "snd (push_slots (grid pg) (clear_timetables subs)) \<noteq> None"
    using sel(1,2) by (subst push_slots_error) (force simp: clear_timetables_def)
  then obtain subs' err where p: "rebuild_timetables (grid pg) subs = (subs', Some err)"
    by (cases "rebuild_timetables (grid pg) subs") (auto simp: rebuild_timetables_def)
  have ne: "\<not> (case parse_date (endDate_in pg) of None \<Rightarrow> False | Some e' \<Rightarrow> e' \<le> now)"
    using e(2) by (auto split: option.splits)
  have "err = TypeError" by (rule js_error.exhaust)
  then show ?thesis using r p e(1) ne by (simp add: attendance_submit_def calculate_def Let_def)
qed

theorem failed_submit_keeps_stale_grid_witness:
  "grid (fst (attendance_submit stale_page)) = grid stale_page
   \<and> snd (attendance_submit stale_page) = ([Alert ''Please enter valid data for all subjects.''], None)
   \<and> snd (snd (calculate 0 (\<lambda>_. 0) (noon 20640) (fst (attendance_submit stale_page)))) = Some TypeError"
proof -
  have h1: "snd (submit_rows (count_of (subjectCount_in stale_page)) (rows stale_page) []) = Some Invalid_row"
    by code_simp
  have h2: "hd (grid stale_page) \<in> set (grid stale_page)" by code_simp
  have h3: "parse_int (c_value (hd (grid stale_page))) = Some (int 1)" by code_simp
  have h4: "Suc 1 = count_of (subjectCount_in stale_page)" by code_simp
  have h5: "endDate_in stale_page \<noteq> []" by code_simp
  have h6: "case parse_date (endDate_in stale_page) of None \<Rightarrow> True | Some e' \<Rightarrow> noon 20640 < e'"
    by code_simp
  show ?thesis by (rule failed_submit_keeps_stale_grid [OF h1 h2 h3 h4 h5 h6])
qed

text \<open>C24. The input listener of lines 218-222 applies none of the submit's checks:
  whenever the typed total is below the typed attended count, the listener stores a
  subject with attended above total, does not throw, and its only effect is the save
  of that page.\<close>

theorem input_listener_skips_validation:
  assumes "i < length (rows pg)" "i < length (subjectData pg)"
    and "parse_int_or_zero (row_total (rows pg ! i)) < parse_int_or_zero (row_attended (rows pg ! i))"
  shows "total (subjectData (fst (subject_input i pg)) ! i) < attended (subjectData (fst (subject_input i pg)) ! i)
         \<and> snd (snd (subject_input i pg)) = None
         \<and> fst (snd (subject_input i pg)) = save_effects (fst (subject_input i pg)) [] (endDate_in pg)"
  using assms by (simp add: subject_input_def Let_def)

theorem input_listener_skips_validation_witness:
  "total (subjectData (fst (subject_input 0 typed_page)) ! 0) < attended (subjectData (fst (subject_input 0 typed_page)) ! 0)
   \<and> snd (snd (subject_input 0 typed_page)) = None
   \<and> fst (snd (subject_input 0 typed_page)) = save_effects (fst (subject_input 0 typed_page)) [] (endDate_in typed_page)"
proof -
  have h1: "0 < length (rows typed_page)" by code_simp
  have h2: "0 < length (subjectData typed_page)" by code_simp
  have h3: "parse_int_or_zero (row_total (rows typed_page ! 0)) < parse_int_or_zero (row_attended (rows typed_page ! 0))"
    by code_simp
  show ?thesis by (rule input_listener_skips_validation [OF h1 h2 h3])
qed

text \<open>C25. An end date that does not parse (\<open>Invalid Date\<close>) passes the check of
  line 254, since every comparison with \<open>NaN\<close> is false, and \<open>calculate\<close> shows a
  result with no leave dates instead of an alert.\<close>

theorem invalid_end_date_no_leave:
  assumes "endDate_in pg \<noteq> []" and "parse_date (endDate_in pg) = None"
    and "snd (rebuild_timetables (grid pg) (subjectData pg)) = None"
  shows "\<exists>r. hd (fst (snd (calculate tz rnd now pg))) = Show r \<and> finalLeaveDates r = []
             \<and> snd (snd (calculate tz rnd now pg)) = None"
proof -
  obtain subs where "rebuild_timetables (grid pg) (subjectData pg) = (subs, None)"
    using assms(3) by (cases "rebuild_timetables (grid pg) (subjectData pg)") auto
  with assms(1,2) show ?thesis by (simp add: calculate_def Let_def process_attendance_no_end)
qed

theorem invalid_end_date_no_leave_witness:
  "endDate_in (blank_page\<lparr>endDate_in := ''2026-13-01''\<rparr>) \<noteq> []
   \<and> parse_date (endDate_in (blank_page\<lparr>endDate_in := ''2026-13-01''\<rparr>)) = None
   \<and> snd (rebuild_timetables (grid (blank_page\<lparr>endDate_in := ''2026-13-01''\<rparr>))
                              (subjectData (blank_page\<lparr>endDate_in := ''2026-13-01''\<rparr>))) = None
   \<and> (\<exists>r. hd (fst (snd (calculate 0 (\<lambda>_. 0) (noon 20640) (blank_page\<lparr>endDate_in := ''2026-13-01''\<rparr>))))
          = Show r \<and> finalLeaveDates r = [])"
proof -
  have h1: "endDate_in (blank_page\<lparr>endDate_in := ''2026-13-01''\<rparr>) \<noteq> []" by simp
  have h2: "parse_date (endDate_in (blank_page\<lparr>endDate_in := ''2026-13-01''\<rparr>)) = None" by code_simp
  have h3: "snd (rebuild_timetables (grid (blank_page\<lparr>endDate_in := ''2026-13-01''\<rparr>))
                              (subjectData (blank_page\<lparr>endDate_in := ''2026-13-01''\<rparr>))) = None"
    by (simp add: rebuild_timetables_def clear_timetables_def)
  show ?thesis using invalid_end_date_no_leave [OF h1 h2 h3, of 0 "\<lambda>_. 0" "noon 20640"] h1 h2 h3 by blast
qed

text \<open>The timetable change listener changes nothing but the subjects' timetables,
  also when it throws: names and counts, the grid, the rows and the token stay.\<close>

theorem timetable_change_only_timetables:
  "map (\<lambda>s. s\<lparr>timetable := []\<rparr>) (subjectData (fst (timetable_change pg)))
     = map (\<lambda>s. s\<lparr>timetable := []\<rparr>) (subjectData pg)
   \<and> grid (fst (timetable_change pg)) = grid pg \<and> rows (fst (timetable_change pg)) = rows pg
   \<and> token (fst (timetable_change pg)) = token pg"
proof -
  obtain subs x where r: "rebuild_timetables (grid pg) (subjectData pg) = (subs, x)"
    by (cases "rebuild_timetables (grid pg) (subjectData pg)") auto
  have "map (\<lambda>s. s\<lparr>timetable := []\<rparr>) subs = map (\<lambda>s. s\<lparr>timetable := []\<rparr>) (subjectData pg)"
    using clear_rebuild [of "grid pg" "subjectData pg"] r by simp
  with r show ?thesis by (cases x) (simp_all add: timetable_change_def Let_def)
qed

text \<open>C27. After logout no sequence of events sends a save request: the token is
  removed and no handler sets it again.\<close>

theorem logout_stops_saves:
  "Save d \<notin> set (snd (run tz evs (fst (logout pg))))"
  by (rule run_no_token) (simp add: logout_def)

end
