(* ===== verification/PageLoad.thy ===== *)
theory PageLoad
  imports Handlers
begin

text \<open>
  \<open>loadUserDataFromServer\<close> (lines 20-84 of \<open>src/script.js\<close>), run once when the
  page loads: with a token and a stored document it sets the subject count, draws the
  subject rows and fills them, replaces \<open>subjectData\<close>, copies the end date (through
  \<open>new Date(..).toISOString().slice(0, 10)\<close>) and the periods per day into their
  inputs, draws the timetable grid and selects the stored slots in it, and shows the
  stored leave dates. The request is not modelled: the handler receives the parsed
  \<open>payload.data\<close>, \<open>None\<close> when the request failed or the document is empty. A
  thrown exception is caught and logged (line 82), so it ends the handler with a
  \<open>Log\<close> effect and no exception. Stored leave dates are kept as the day numbers
  their \<open>toDateString\<close> names, on which \<open>new Date(d).toDateString()\<close> is the identity.
\<close>

record stored_doc =
  ld_subjects :: "stored_subject list option"
  ld_safeLeaveDates :: "day_number list option"
  ld_endDate :: "string option"
  ld_periodsPerDay :: "int option"

fun pad_num :: "nat \<Rightarrow> nat \<Rightarrow> string" where
  \<comment> \<open>the last \<open>w\<close> decimal digits of \<open>n\<close>, zero-padded\<close>
  "pad_num 0 n = []"
| "pad_num (Suc w) n = pad_num w (n div 10) @ [digit_char (n mod 10)]"

definition iso_date :: "time_value \<Rightarrow> string" where
  \<comment> \<open>\<open>toISOString().slice(0, 10)\<close>: the UTC date, with a six-digit signed year
      outside 0-9999\<close>
  "iso_date t =
     take 10 (case civil_from_days (t div ms_per_day) of (y, m, d) \<Rightarrow>
       (if 0 \<le> y \<and> y \<le> 9999 then pad_num 4 (nat y)
        else (if y < 0 then ''-'' else ''+'') @ pad_num 6 (nat \<bar>y\<bar>))
       @ ''-'' @ pad_num 2 (nat (m + 1)) @ ''-'' @ pad_num 2 (nat d))"

definition stored_count :: "int option \<Rightarrow> int option \<Rightarrow> string" where
  \<comment> \<open>\<open>s.classesAttended ?? s.attended ?? ""\<close> written into a number input\<close>
  "stored_count new old =
     (case new of Some a \<Rightarrow> int_to_string a
      | None \<Rightarrow> (case old of Some a \<Rightarrow> int_to_string a | None \<Rightarrow> []))"

definition fill_row :: "stored_subject \<Rightarrow> subject_row" where
  "fill_row s =
     \<lparr>row_name = (case st_name s of None \<Rightarrow> [] | Some n \<Rightarrow> n),
      row_attended = stored_count (st_classesAttended s) (st_attended s),
      row_total = stored_count (st_classesConducted s) (st_total s)\<rparr>"

definition fill_rows :: "stored_subject list \<Rightarrow> subject_row list \<Rightarrow> subject_row list" where
  \<comment> \<open>\<open>subjects.forEach((s, i) => { ...getElementById(..${i}).value = ... })\<close>\<close>
  "fill_rows ss rs = fold (\<lambda>i rs. rs[i := fill_row (ss ! i)]) [0..<length ss] rs"

definition stored_end_date :: "string option \<Rightarrow> string \<Rightarrow> string option" where
  \<comment> \<open>\<open>if (doc.endDate) endDate.value = new Date(doc.endDate).toISOString().slice(0, 10)\<close>;
      \<open>None\<close> is the \<open>RangeError\<close> of \<open>toISOString\<close> on an invalid date\<close>
  "stored_end_date e cur =
     (case e of None \<Rightarrow> Some cur
      | Some s \<Rightarrow> if s = [] then Some cur else map_option iso_date (parse_date s))"

definition stored_periods :: "int option \<Rightarrow> string \<Rightarrow> string" where
  \<comment> \<open>\<open>if (doc.periodsPerDay) periodsPerDay.value = doc.periodsPerDay\<close>\<close>
  "stored_periods p cur = (case p of Some n \<Rightarrow> if n \<noteq> 0 then int_to_string n else cur | None \<Rightarrow> cur)"

definition load_page :: "stored_doc option \<Rightarrow> page \<Rightarrow> outcome" where
  "load_page doc pg =
     (if (case token pg of None \<Rightarrow> True | Some t \<Rightarrow> t = []) then (pg, [], None)
      else case doc of
        None \<Rightarrow> (pg, [], None)
      | Some d \<Rightarrow>
          (let ss = (case ld_subjects d of None \<Rightarrow> [] | Some l \<Rightarrow> l);
               pg1 = generate_subject_inputs (pg\<lparr>subjectCount_in := int_to_string (int (length ss))\<rparr>);
               pg2 = pg1\<lparr>subjectData := load_subjects (Some ss), rows := fill_rows ss (rows pg1)\<rparr>
           in case stored_end_date (ld_endDate d) (endDate_in pg2) of
                None \<Rightarrow> (pg2, [Log ''loadUserDataFromServer error: RangeError''], None)
              | Some e \<Rightarrow>
                  (let pg3 = generate_timetable (pg2\<lparr>endDate_in := e,
                               periodsPerDay_in := stored_periods (ld_periodsPerDay d) (periodsPerDay_in pg2)\<rparr>);
                       pg4 = pg3\<lparr>grid := load_selects (subjectData pg3) (grid pg3)\<rparr>;
                       shown = (case ld_safeLeaveDates d of
                                  None \<Rightarrow> []
                                | Some ds \<Rightarrow> if ds = [] then []
                                            else [Show \<lparr>finalLeaveDates = ds,
                                                        safeSubjects = fst (load_classify (subjectData pg4)),
                                                        notPossibleSubjects = snd (load_classify (subjectData pg4))\<rparr>])
                   in (pg4, shown, None))))"

definition stored_of_saved :: "save_doc \<Rightarrow> stored_doc" where
  \<comment> \<open>the document the store hands back for a saved payload (\<open>JSON.stringify\<close>, then
      \<open>res.json()\<close>), for an integral \<open>periodsPerDay\<close>\<close>
  "stored_of_saved d =
     \<lparr>ld_subjects = Some (sd_subjects d), ld_safeLeaveDates = Some (sd_safeLeaveDates d),
      ld_endDate = Some (sd_endDate d),
      ld_periodsPerDay = (if sd_periodsPerDay d = of_int \<lfloor>sd_periodsPerDay d\<rfloor> then Some \<lfloor>sd_periodsPerDay d\<rfloor> else None)\<rparr>"

subsection \<open>Digits of date fields\<close>

lemma digit_value_dec: "digit_value c = Some d \<Longrightarrow> d < 10 \<Longrightarrow> digit_char d = c"
  by (auto simp: digit_value_def digit_char_def Let_def split: if_splits)

lemma radix_digits_full:
  "length (radix_digits 10 s) = length s \<Longrightarrow>
     map digit_char (radix_digits 10 s) = s \<and> (\<forall>d\<in>set (radix_digits 10 s). d < 10)"
proof (induction s)
  case (Cons c cs)
  then show ?case
    by (auto simp: digit_value_dec split: option.splits if_splits)
qed simp

lemma pad_num_digits:
  "\<forall>d\<in>set ds. d < 10 \<Longrightarrow> pad_num (length ds) (digits_to_nat 10 ds) = map digit_char ds"
proof (induction ds rule: rev_induct)
  case (snoc d ds)
  then show ?case by (simp add: digits_to_nat_snoc)
qed simp

lemma digits_to_nat_bound:
  "\<forall>d\<in>set ds. d < 10 \<Longrightarrow> digits_to_nat 10 ds < 10 ^ length ds"
proof (induction ds rule: rev_induct)
  case (snoc d ds)
  then have "digits_to_nat 10 ds + 1 \<le> 10 ^ length ds" "d < 10" by simp_all
  then have "digits_to_nat 10 ds * 10 + d < 10 ^ length ds * 10" by linarith
  then show ?case by (simp add: digits_to_nat_snoc)
qed (simp add: digits_to_nat_def)

lemma decimal_field_digits:
  assumes "all_digits s"
  shows "pad_num (length s) (nat (decimal_field s)) = s" "0 \<le> decimal_field s"
    "decimal_field s < 10 ^ length s"
proof -
  have l: "length (radix_digits 10 s) = length s" using assms by (simp add: all_digits_def)
  note r = radix_digits_full [OF l]
  show "pad_num (length s) (nat (decimal_field s)) = s"
    using pad_num_digits [OF conjunct2 [OF r]] r l by (simp add: decimal_field_def)
  show "0 \<le> decimal_field s" by (simp add: decimal_field_def)
  have "digits_to_nat 10 (radix_digits 10 s) < 10 ^ length s"
    using digits_to_nat_bound [OF conjunct2 [OF r]] l by simp
  then show "decimal_field s < 10 ^ length s"
    by (simp add: decimal_field_def)
qed

lemma ten_chars: "length s = 10 \<Longrightarrow> \<exists>c0 c1 c2 c3 c4 c5 c6 c7 c8 c9. s = [c0, c1, c2, c3, c4, c5, c6, c7, c8, c9]"
  by (simp add: length_Suc_conv numeral_eq_Suc) blast


subsection \<open>The stored end date\<close>

lemma iso_date_parse_date:
  assumes "parse_date s = Some t"
  shows "iso_date t = s"
proof -
  have len: "length s = 10" using assms by (simp add: parse_date_def split: if_splits)
  then obtain c0 c1 c2 c3 c4 c5 c6 c7 c8 c9 where s: "s = [c0, c1, c2, c3, c4, c5, c6, c7, c8, c9]"
    using ten_chars [OF len] by (elim exE) blast
  let ?y = "decimal_field [c0, c1, c2, c3]" and ?m = "decimal_field [c5, c6]" and ?d = "decimal_field [c8, c9]"
  have p: "c4 = CHR ''-''" "c7 = CHR ''-''" "all_digits [c0, c1, c2, c3]" "all_digits [c5, c6]"
      "all_digits [c8, c9]" "1 \<le> ?m" "?m \<le> 12" "1 \<le> ?d"
      "civil_from_days (days_from_civil ?y ?m ?d) = (?y, ?m - 1, ?d)"
      "t = days_from_civil ?y ?m ?d * ms_per_day"
    using assms by (simp_all add: s parse_date_def Let_def split: if_splits)
  note y = decimal_field_digits [OF p(3)] and m = decimal_field_digits [OF p(4)]
    and d = decimal_field_digits [OF p(5)]
  have day: "t div ms_per_day = days_from_civil ?y ?m ?d" using p(10) by (simp add: ms_per_day_def)
  have "?y \<le> 9999" using y(3) by simp
  then have "iso_date t = take 10 (pad_num 4 (nat ?y) @ ''-'' @ pad_num 2 (nat ?m) @ ''-'' @ pad_num 2 (nat ?d))"
    using y(2) by (simp add: iso_date_def day p(9))
  also have "\<dots> = s"
  proof -
    have l: "length [c0, c1, c2, c3] = 4" "length [c5, c6] = 2" "length [c8, c9] = 2" by simp_all
    show ?thesis by (simp only: y(1) [unfolded l(1)] m(1) [unfolded l(2)] d(1) [unfolded l(3)] s p(1,2)) simp
  qed
  finally show ?thesis .
qed


lemma stored_end_date_valid:
  "s = [] \<or> parse_date s \<noteq> None \<Longrightarrow> stored_end_date (Some s) cur = Some (if s = [] then cur else s)"
  by (auto simp: stored_end_date_def iso_date_parse_date)

subsection \<open>Reloading a saved document\<close>

lemma fill_rows_upto:
  "k \<le> length rs \<Longrightarrow> fold (\<lambda>i rs. rs[i := f i]) [0..<k] rs = map (\<lambda>j. if j < k then f j else rs ! j) [0..<length rs]"
proof (induction k)
  case 0
  then show ?case by (simp add: map_nth)
next
  case (Suc k)
  have "fold (\<lambda>i rs. rs[i := f i]) [0..<Suc k] rs = (fold (\<lambda>i rs. rs[i := f i]) [0..<k] rs)[k := f k]"
    by simp
  also have "\<dots> = (map (\<lambda>j. if j < k then f j else rs ! j) [0..<length rs])[k := f k]"
    using Suc by simp
  also have "\<dots> = map (\<lambda>j. if j < Suc k then f j else rs ! j) [0..<length rs]"
    using Suc.prems by (intro nth_equalityI) (auto simp: nth_list_update)
  finally show ?case .
qed

lemma fill_rows_fresh:
  assumes "length rs = length ss"
  shows "fill_rows ss rs = map fill_row ss"
proof -
  have "fill_rows ss rs = map (\<lambda>j. if j < length ss then fill_row (ss ! j) else rs ! j) [0..<length ss]"
    using fill_rows_upto [of "length ss" rs "\<lambda>i. fill_row (ss ! i)"] assms by (simp add: fill_rows_def)
  also have "\<dots> = map fill_row ss" by (intro nth_equalityI) simp_all
  finally show ?thesis .
qed

lemma stored_of_saved_payload:
  assumes "js_number ppd = Some (of_nat p)"
  shows "stored_of_saved (save_payload subs dates e ppd) =
    \<lparr>ld_subjects = Some (map save_subject subs), ld_safeLeaveDates = Some dates,
     ld_endDate = Some e, ld_periodsPerDay = Some (int p)\<rparr>"
proof -
  have "\<lfloor>(of_nat p :: rat)\<rfloor> = int p" by simp
  then show ?thesis using assms by (simp add: stored_of_saved_def save_payload_def)
qed

lemma load_page_saved:
  assumes tok: "token pg = Some tk" "tk \<noteq> []"
    and ppd: "js_number ppd = Some (of_nat p)" "0 < p"
    and e: "e = [] \<or> parse_date e \<noteq> None"
  shows "fst (load_page (Some (stored_of_saved (save_payload subs dates e ppd))) pg) =
     pg\<lparr>subjectData := subs, grid := load_selects subs (timetable_grid (int_to_string (int p)) subs),
        rows := map fill_row (map save_subject subs), subjectCount_in := int_to_string (int (length subs)),
        endDate_in := (if e = [] then endDate_in pg else e), periodsPerDay_in := int_to_string (int p)\<rparr>"
proof -
  have cnt: "count_of (int_to_string (int (length subs))) = length subs" by (simp add: count_of_def)
  have per: "stored_periods (Some (int p)) cur = int_to_string (int p)" for cur
    using ppd(2) by (simp add: stored_periods_def)
  have e': "stored_end_date (Some e) cur = Some (if e = [] then cur else e)" for cur
    using stored_end_date_valid [OF e] .
  have ls: "load_subjects (Some (map save_subject subs)) = subs" by (simp add: load_subjects_def map_idI)
  have fr: "fill_rows (map save_subject subs) (replicate (length subs) r) = map fill_row (map save_subject subs)" for r
    by (simp add: fill_rows_fresh)
  have tk: "\<not> (case token pg of None \<Rightarrow> True | Some t \<Rightarrow> t = [])" using tok by simp
  show ?thesis
    unfolding load_page_def stored_of_saved_payload [OF ppd(1)] Let_def
    by (simp only: tk if_False option.case) (simp add: generate_subject_inputs_def generate_timetable_def cnt per ls fr e')
qed

lemma grid_periods_int_to_string [simp]: "grid_periods (int_to_string (int p)) = p"
  by (simp add: grid_periods_def)

subsection \<open>Properties of the page load\<close>

text \<open>C28. A save followed by a page load restores the page: \<open>subjectData\<close> is the
  saved subject list, the end date input holds the saved end date, and the grid drawn
  from the saved periods per day holds the saved slots, so the next rebuild (a change
  event or \<open>calculate\<close>) gives back exactly the saved subjects without an exception.
  This needs a token, an integral positive periods count, a valid or empty end date,
  and slots that are distinct, sorted and inside the grid.\<close>

theorem reload_restores_subjects:
  assumes tok: "token pg = Some tk" "tk \<noteq> []"
    and ppd: "js_number ppd = Some (of_nat p)" "0 < p"
    and e: "e = [] \<or> parse_date e \<noteq> None"
    and dist: "distinct (all_slot_keys subs)"
    and sorted: "\<forall>s\<in>set subs. sorted (map slot_key (timetable s))"
    and range: "\<forall>s\<in>set subs. \<forall>sl\<in>set (timetable s).
                  0 \<le> day sl \<and> day sl < 5 \<and> 0 \<le> period sl \<and> period sl < int p"
  shows "subjectData (fst (load_page (Some (stored_of_saved (save_payload subs dates e ppd))) pg)) = subs
    \<and> endDate_in (fst (load_page (Some (stored_of_saved (save_payload subs dates e ppd))) pg))
        = (if e = [] then endDate_in pg else e)
    \<and> rebuild_timetables (grid (fst (load_page (Some (stored_of_saved (save_payload subs dates e ppd))) pg))) subs
        = (subs, None)"
proof -
  have range': "\<forall>s\<in>set subs. \<forall>sl\<in>set (timetable s). 0 \<le> day sl \<and> day sl < 5 \<and> 0 \<le> period sl
                  \<and> period sl < int (grid_periods (int_to_string (int p)))"
    using range by simp
  show ?thesis
    using load_page_saved [OF tok ppd e] load_selects_rebuild [OF dist sorted range'] by simp
qed

theorem reload_restores_subjects_witness:
  "subjectData (fst (load_page (Some (stored_of_saved (save_payload
      [\<lparr>name = ''M'', attended = 3, total = 4, timetable = [\<lparr>day = 1, period = 0\<rparr>]\<rparr>] [20642] ''2026-07-10'' ''2'')))
      blank_page))
     = [\<lparr>name = ''M'', attended = 3, total = 4, timetable = [\<lparr>day = 1, period = 0\<rparr>]\<rparr>]"
proof -
  have h: "token blank_page = Some ''tok''" "''tok'' \<noteq> []" "js_number ''2'' = Some (of_nat 2)" "(0::nat) < 2"
    "''2026-07-10'' = [] \<or> parse_date ''2026-07-10'' \<noteq> None"
    "distinct (all_slot_keys [\<lparr>name = ''M'', attended = 3, total = 4, timetable = [\<lparr>day = 1, period = 0\<rparr>]\<rparr>])"
    "\<forall>s\<in>set [\<lparr>name = ''M'', attended = 3, total = 4, timetable = [\<lparr>day = 1, period = 0\<rparr>]\<rparr>].
       sorted (map slot_key (timetable s))"
    "\<forall>s\<in>set [\<lparr>name = ''M'', attended = 3, total = 4, timetable = [\<lparr>day = 1, period = 0\<rparr>]\<rparr>].
       \<forall>sl\<in>set (timetable s). 0 \<le> day sl \<and> day sl < 5 \<and> 0 \<le> period sl \<and> period sl < int 2"
    by code_simp+
  show ?thesis using reload_restores_subjects [OF h] by blast
qed

end
