(* ===== verification/Session.thy ===== *)
theory Session
  imports PageLoad
begin

text \<open>
  Sessions of the page as a state machine: \<open>consistent\<close> is the set of pages reachable
  from a page without a timetable grid by events other than a logout and a submit that
  stops early. Its invariant \<open>grid_ok\<close> says that every select of the grid, in its
  value and in each of its options, names either no subject or an index of
  \<open>subjectData\<close>; under it the rebuild of the timetables, in the change listener and
  in \<open>calculate\<close>, cannot throw, and \<open>calculate\<close> always answers the user.
  \<open>settled\<close> is the set of pages reachable by any events at all from a page with no
  grid and no subjects, or from any page (a freshly loaded one included) once the
  timetable change listener has rebuilt its timetables; its invariant
  \<open>slots_in_grid\<close> says that every slot of every subject's timetable is the day and
  period of a select of the grid. The page load itself does not keep that invariant:
  it keeps stored slots for which it draws no select.
\<close>

definition valid_choice :: "nat \<Rightarrow> string \<Rightarrow> bool" where
  "valid_choice n v \<longleftrightarrow> (case parse_int v of None \<Rightarrow> True | Some i \<Rightarrow> 0 \<le> i \<and> i < int n)"

definition grid_ok :: "page \<Rightarrow> bool" where
  "grid_ok pg \<longleftrightarrow>
     (\<forall>c\<in>set (grid pg). valid_choice (length (subjectData pg)) (c_value c)
        \<and> list_all (valid_choice (length (subjectData pg))) (c_options c))"

definition safe_event :: "page \<Rightarrow> event \<Rightarrow> bool" where
  "safe_event pg ev \<longleftrightarrow>
     (case ev of
        Logout \<Rightarrow> False
      | Submit \<Rightarrow> snd (submit_rows (count_of (subjectCount_in pg)) (rows pg) []) = None
      | _ \<Rightarrow> True)"

inductive consistent :: "tz_offset \<Rightarrow> page \<Rightarrow> bool" where
  fresh: "grid pg = [] \<Longrightarrow> consistent tz pg"
| step: "consistent tz pg \<Longrightarrow> safe_event pg ev \<Longrightarrow> consistent tz (fst (dispatch tz ev pg))"

inductive settled :: "tz_offset \<Rightarrow> page \<Rightarrow> bool" where
  empty: "grid pg = [] \<Longrightarrow> subjectData pg = [] \<Longrightarrow> settled tz pg"
| rebuilt: "settled tz (fst (timetable_change pg))"
| step: "settled tz pg \<Longrightarrow> settled tz (fst (dispatch tz ev pg))"

definition slots_in_grid :: "page \<Rightarrow> bool" where
  "slots_in_grid pg \<longleftrightarrow> (\<forall>s\<in>set (subjectData pg). set (timetable s) \<subseteq> cell_slot ` set (grid pg))"

abbreviation reload_doc :: stored_doc where
  \<comment> \<open>the stored document of one subject with a slot in period 5 of a two-period day\<close>
  "reload_doc \<equiv> stored_of_saved (save_payload
     [\<lparr>name = ''M'', attended = 3, total = 4, timetable = [\<lparr>day = 1, period = 5\<rparr>]\<rparr>] [] [] ''2'')"

subsection \<open>Valid choices\<close>

lemma valid_choice_empty [simp]: "valid_choice n []"
  by (simp add: valid_choice_def parse_int_empty)

lemma valid_choice_index: "k < n \<Longrightarrow> valid_choice n (int_to_string (int k))"
  by (simp add: valid_choice_def)

lemma grid_ok_timetable_grid:
  "c \<in> set (timetable_grid ppd subs) \<Longrightarrow>
     valid_choice (length subs) (c_value c) \<and> list_all (valid_choice (length subs)) (c_options c)"
  by (auto simp: grid_cells(2) subject_options_def list_all_iff valid_choice_index)

lemma valid_set_select_value:
  "list_all (valid_choice n) (c_options c) \<Longrightarrow>
     valid_choice n (c_value (set_select_value v c)) \<and> list_all (valid_choice n) (c_options (set_select_value v c))"
  by (auto simp: set_select_value_def list_all_iff)

lemma length_rebuild [simp]: "length (fst (rebuild_timetables cells subs)) = length subs"
  using arg_cong [OF clear_rebuild [of cells subs], of length] by simp

lemma rebuild_no_error:
  "\<forall>c\<in>set cells. valid_choice (length subs) (c_value c) \<Longrightarrow> snd (rebuild_timetables cells subs) = None"
  using push_slots_error [of cells "clear_timetables subs"]
  by (fastforce simp: rebuild_timetables_def clear_timetables_def valid_choice_def split: option.splits)

subsection \<open>The invariant\<close>

lemma grid_ok_same_length:
  "grid_ok pg \<Longrightarrow> grid pg' = grid pg \<Longrightarrow> length (subjectData pg') = length (subjectData pg) \<Longrightarrow> grid_ok pg'"
  by (simp add: grid_ok_def)

lemma grid_ok_rebuild:
  assumes "grid_ok pg" and "rebuild_timetables (grid pg) (subjectData pg) = (subs, x)"
  shows "grid_ok (pg\<lparr>subjectData := subs\<rparr>)"
proof -
  have "length subs = length (subjectData pg)"
    using length_rebuild [of "grid pg" "subjectData pg"] assms(2) by simp
  with assms(1) show ?thesis by (simp add: grid_ok_def)
qed

lemma grid_ok_dispatch:
  assumes ok: "grid_ok pg" and safe: "safe_event pg ev"
  shows "grid_ok (fst (dispatch tz ev pg))"
proof (cases ev)
  case Submit
  then obtain subs where "submit_rows (count_of (subjectCount_in pg)) (rows pg) [] = (subs, None)"
    using safe by (cases "submit_rows (count_of (subjectCount_in pg)) (rows pg) []") (simp add: safe_event_def)
  then show ?thesis using Submit
    by (simp add: dispatch_def attendance_submit_def generate_timetable_def grid_ok_def grid_ok_timetable_grid Let_def)
next
  case (Select_option k v)
  then show ?thesis using ok
    by (auto simp: dispatch_def grid_ok_def valid_set_select_value nth_list_update
             dest!: set_update_subset_insert [THEN subsetD])
next
  case (Subject_input i)
  then show ?thesis using ok
    by (auto simp: dispatch_def subject_input_def Let_def intro: grid_ok_same_length)
next
  case Timetable_change
  then show ?thesis using ok
    by (auto simp: dispatch_def timetable_change_def Let_def intro: grid_ok_rebuild split: prod.split option.split)
next
  case (Calculate now rnd)
  then show ?thesis using ok
    by (auto simp: dispatch_def calculate_def Let_def intro: grid_ok_rebuild split: prod.split option.split)
next
  case Logout
  then show ?thesis using safe by (simp add: safe_event_def)
qed (use ok in \<open>simp_all add: dispatch_def grid_ok_def generate_subject_inputs_def\<close>)

lemma consistent_grid_ok: "consistent tz pg \<Longrightarrow> grid_ok pg"
proof (induction rule: consistent.induct)
  case (fresh pg tz)
  then show ?case by (simp add: grid_ok_def)
next
  case (step tz pg ev)
  from step.IH step.hyps(2) show ?case by (rule grid_ok_dispatch)
qed

lemma grid_ok_rebuild_ok: "grid_ok pg \<Longrightarrow> snd (rebuild_timetables (grid pg) (subjectData pg)) = None"
  by (rule rebuild_no_error) (simp add: grid_ok_def)

subsection \<open>Timetable slots come from the grid\<close>

lemma slots_push_slot:
  "s' \<in> set (push_slot k sl subs) \<Longrightarrow>
     set (timetable s') \<subseteq> (\<Union>s\<in>set subs. set (timetable s)) \<union> {sl}"
proof (cases "k < length subs")
  case True
  assume "s' \<in> set (push_slot k sl subs)"
  with True show ?thesis
    by (auto simp: push_slot_def dest!: set_update_subset_insert [THEN subsetD]
             intro: nth_mem)
qed (auto simp: push_slot_def not_less list_update_beyond)

lemma slots_push_slots:
  "s' \<in> set (fst (push_slots cs subs)) \<Longrightarrow>
     set (timetable s') \<subseteq> (\<Union>s\<in>set subs. set (timetable s)) \<union> cell_slot ` set cs"
proof (induction cs subs arbitrary: s' rule: push_slots.induct)
  case (2 c cs subs)
  show ?case
  proof (cases "parse_int (c_value c)")
    case None
    with "2.IH"(1) [OF None] "2.prems" show ?thesis by auto
  next
    case (Some i)
    show ?thesis
    proof (cases "0 \<le> i \<and> i < int (length subs)")
      case True
      with Some "2.prems" have "s' \<in> set (fst (push_slots cs (push_slot (nat i) (cell_slot c) subs)))" by simp
      from "2.IH"(2) [OF Some True this] slots_push_slot [of _ "nat i" "cell_slot c" subs]
      show ?thesis by fastforce
    next
      case False
      with Some "2.prems" show ?thesis by auto
    qed
  qed
qed auto

lemma slots_rebuild:
  assumes "rebuild_timetables cells subs = (subs', x)" "s' \<in> set subs'" "sl \<in> set (timetable s')"
  shows "sl \<in> cell_slot ` set cells"
  using slots_push_slots [of s' cells "clear_timetables subs"] assms
  by (auto simp: rebuild_timetables_def clear_timetables_def)

lemma submit_rows_no_slots:
  "submit_rows n rs acc = (subs, x) \<Longrightarrow> \<forall>s\<in>set acc. timetable s = [] \<Longrightarrow> \<forall>s\<in>set subs. timetable s = []"
  by (induction n rs acc rule: submit_rows.induct) (auto simp: Let_def split: option.splits if_splits)

lemma cell_slot_select [simp]: "cell_slot (set_select_value v c) = cell_slot c"
  by (simp add: set_select_value_def cell_slot_def)

lemma slots_select_option:
  "k < length cs \<Longrightarrow> cell_slot ` set (cs[k := set_select_value v (cs ! k)]) = cell_slot ` set cs"
proof -
  assume k: "k < length cs"
  have "map cell_slot (cs[k := set_select_value v (cs ! k)]) = map cell_slot cs"
    using k by (simp add: map_update) (metis list_update_id nth_map)
  then show ?thesis by (metis set_map)
qed

lemma slots_in_grid_dispatch:
  assumes ok: "slots_in_grid pg"
  shows "slots_in_grid (fst (dispatch tz ev pg))"
proof (cases ev)
  case Submit
  obtain subs x where r: "submit_rows (count_of (subjectCount_in pg)) (rows pg) [] = (subs, x)"
    by (cases "submit_rows (count_of (subjectCount_in pg)) (rows pg) []") auto
  have "\<forall>s\<in>set subs. timetable s = []" using submit_rows_no_slots [OF r] by simp
  with r Submit show ?thesis
    by (auto simp: dispatch_def attendance_submit_def generate_timetable_def slots_in_grid_def Let_def
             split: option.splits submit_stop.splits)
next
  case (Select_option k v)
  with ok show ?thesis by (simp add: dispatch_def slots_in_grid_def slots_select_option)
next
  case (Subject_input i)
  with ok show ?thesis
    apply (auto simp: dispatch_def subject_input_def slots_in_grid_def Let_def not_le
                dest!: set_update_subset_insert [THEN subsetD])
    by (meson nth_mem subsetD)
next
  case Timetable_change
  then show ?thesis
    by (auto simp: dispatch_def timetable_change_def slots_in_grid_def Let_def
             split: prod.split option.split) (blast intro: slots_rebuild)+
next
  case (Calculate now rnd)
  with ok show ?thesis
    by (auto simp: dispatch_def calculate_def slots_in_grid_def Let_def
             split: prod.split option.split) (blast intro: slots_rebuild)+
qed (use ok in \<open>simp_all add: dispatch_def slots_in_grid_def generate_subject_inputs_def logout_def\<close>)

lemma grid_timetable_change: "grid (fst (timetable_change pg)) = grid pg"
  by (simp add: timetable_change_def Let_def split: prod.split option.split)

lemma slots_in_grid_timetable_change: "slots_in_grid (fst (timetable_change pg))"
  by (auto simp: timetable_change_def slots_in_grid_def Let_def split: prod.split option.split)
     (blast intro: slots_rebuild)+

lemma settled_slots_in_grid: "settled tz pg \<Longrightarrow> slots_in_grid pg"
proof (induction rule: settled.induct)
  case (empty pg tz)
  then show ?case by (simp add: slots_in_grid_def)
next
  case (rebuilt tz pg)
  show ?case by (rule slots_in_grid_timetable_change)
next
  case (step tz pg ev)
  from step.IH show ?case by (rule slots_in_grid_dispatch)
qed

subsection \<open>Selects drawn on reload\<close>

lemma slots_set_first_select [simp]: "map cell_slot (set_first_select d p v cells) = map cell_slot cells"
  by (induction cells) auto

lemma slots_load_from [simp]: "map cell_slot (load_from idx subs cells) = map cell_slot cells"
proof (induction idx subs cells rule: load_from.induct)
  case (2 idx s ss cells)
  have "map cell_slot (fold (\<lambda>sl. set_first_select (day sl) (period sl) v) xs cs) = map cell_slot cs"
    for xs cs v by (induction xs arbitrary: cs) simp_all
  then have "map cell_slot (load_subject_slots idx s cells) = map cell_slot cells"
    by (simp add: load_subject_slots_def)
  with "2.IH" show ?case by simp
qed simp

lemma slots_load_selects: "cell_slot ` set (load_selects subs cells) = cell_slot ` set cells"
  by (metis set_map slots_load_from load_selects_def)

lemma slot_outside_grid:
  "int (grid_periods ppd) \<le> period sl \<Longrightarrow> sl \<notin> cell_slot ` set (timetable_grid ppd subs)"
  by (auto simp: timetable_grid_def cell_slot_def)

lemma load_page_loaded:
  assumes "token pg \<noteq> None" "token pg \<noteq> Some []"
    and "stored_end_date (ld_endDate d) (endDate_in pg) = Some e"
  shows "subjectData (fst (load_page (Some d) pg)) = load_subjects (ld_subjects d)
         \<and> grid (fst (load_page (Some d) pg)) =
             load_selects (load_subjects (ld_subjects d))
               (timetable_grid (stored_periods (ld_periodsPerDay d) (periodsPerDay_in pg)) (load_subjects (ld_subjects d)))"
proof -
  have tk: "\<not> (case token pg of None \<Rightarrow> True | Some t \<Rightarrow> t = [])" using assms(1,2) by (auto split: option.split)
  have ls: "load_subjects (Some (case ld_subjects d of None \<Rightarrow> [] | Some l \<Rightarrow> l)) = load_subjects (ld_subjects d)"
    by (simp add: load_subjects_def split: option.split)
  show ?thesis
    unfolding load_page_def Let_def
    by (simp only: tk if_False option.case)
       (simp add: generate_subject_inputs_def generate_timetable_def assms(3) ls)
qed

subsection \<open>Sessions before the first submit\<close>

lemma rebuild_no_subjects: "rebuild_timetables cells [] = (subs, x) \<Longrightarrow> subs = []"
  using length_rebuild [of cells "[]"] by simp

lemma subjects_empty_dispatch:
  "subjectData pg = [] \<Longrightarrow> ev \<noteq> Submit \<Longrightarrow> subjectData (fst (dispatch tz ev pg)) = []"
  by (cases ev)
     (auto simp: dispatch_def subject_input_def timetable_change_def calculate_def logout_def
                 generate_subject_inputs_def Let_def split: prod.split option.split
           dest: rebuild_no_subjects)

lemma subjects_empty_run:
  "subjectData pg = [] \<Longrightarrow> Submit \<notin> set evs \<Longrightarrow> subjectData (fst (run tz evs pg)) = []"
proof (induction evs arbitrary: pg)
  case (Cons ev evs)
  then have "subjectData (fst (dispatch tz ev pg)) = []" by (intro subjects_empty_dispatch) auto
  with Cons have "subjectData (fst (run tz evs (fst (dispatch tz ev pg)))) = []" by simp
  then show ?case by (auto split: prod.split)
qed simp

subsection \<open>A sample consistent page\<close>

lemma sample_session_consistent:
  "consistent 0 (fst (dispatch 0 Submit (fst (run 0 (butlast valid_session) blank_page))))"
proof -
  have g: "grid (fst (run 0 (butlast valid_session) blank_page)) = []" by code_simp
  have s: "safe_event (fst (run 0 (butlast valid_session) blank_page)) Submit" by code_simp
  show ?thesis by (rule consistent.step [OF consistent.fresh [OF g] s])
qed

subsection \<open>Properties of sessions\<close>

text \<open>C31. In every page reachable from a page without a grid by events other than
  logout and a submit that stops early, neither the timetable change listener nor
  \<open>calculate\<close> throws: every select names an existing subject (invariant
  \<open>grid_ok\<close>, preserved by each such event and shown by rule induction).\<close>

theorem consistent_rebuild_never_throws:
  assumes "consistent tz pg"
  shows "snd (snd (timetable_change pg)) = None \<and> snd (snd (calculate tz rnd now pg)) = None"
proof -
  obtain subs where r: "rebuild_timetables (grid pg) (subjectData pg) = (subs, None)"
    using grid_ok_rebuild_ok [OF consistent_grid_ok [OF assms]]
    by (cases "rebuild_timetables (grid pg) (subjectData pg)") auto
  then show ?thesis by (simp add: timetable_change_def calculate_def Let_def)
qed

theorem consistent_rebuild_never_throws_witness:
  "consistent 0 (fst (dispatch 0 Submit (fst (run 0 (butlast valid_session) blank_page))))
   \<and> snd (snd (timetable_change (fst (dispatch 0 Submit (fst (run 0 (butlast valid_session) blank_page)))))) = None
   \<and> snd (snd (calculate 0 (\<lambda>_. 0) (noon 20640)
        (fst (dispatch 0 Submit (fst (run 0 (butlast valid_session) blank_page)))))) = None"
  using consistent_rebuild_never_throws [OF sample_session_consistent, of "\<lambda>_. 0" "noon 20640"]
    sample_session_consistent by blast

text \<open>C26. On every consistent page \<open>calculate\<close> answers the user: it does not throw,
  and its effects are either exactly one alert (no end date, or an end date not in
  the future) or begin with the result being shown.\<close>

theorem calculate_always_responds:
  assumes "consistent tz pg"
  shows "snd (snd (calculate tz rnd now pg)) = None
         \<and> ((\<exists>m. fst (snd (calculate tz rnd now pg)) = [Alert m])
            \<or> (\<exists>r rest. fst (snd (calculate tz rnd now pg)) = Show r # rest))"
proof -
  obtain subs where r: "rebuild_timetables (grid pg) (subjectData pg) = (subs, None)"
    using grid_ok_rebuild_ok [OF consistent_grid_ok [OF assms]]
    by (cases "rebuild_timetables (grid pg) (subjectData pg)") auto
  then show ?thesis by (simp add: calculate_def Let_def)
qed

theorem calculate_always_responds_witness:
  "snd (snd (calculate 0 (\<lambda>_. 0) (noon 20640)
      (fst (dispatch 0 Submit (fst (run 0 (butlast valid_session) blank_page)))))) = None
   \<and> ((\<exists>m. fst (snd (calculate 0 (\<lambda>_. 0) (noon 20640)
           (fst (dispatch 0 Submit (fst (run 0 (butlast valid_session) blank_page)))))) = [Alert m])
      \<or> (\<exists>r rest. fst (snd (calculate 0 (\<lambda>_. 0) (noon 20640)
           (fst (dispatch 0 Submit (fst (run 0 (butlast valid_session) blank_page)))))) = Show r # rest))"
  using calculate_always_responds [OF sample_session_consistent, of "\<lambda>_. 0" "noon 20640"] by blast

text \<open>C19. Type of the timetables: from an empty page, or from any page once the
  timetable change listener has rebuilt the timetables (as after the page load, which
  keeps stored slots it draws no select for), every sequence of events keeps each slot
  of each subject's timetable the day and period of a select of the grid: the submit
  clears the timetables, the rebuilds fill them only from the grid, and assigning a
  select keeps its day and period.\<close>

theorem slots_name_selects:
  assumes "settled tz pg"
  shows "\<forall>s\<in>set (subjectData pg). \<forall>sl\<in>set (timetable s).
           \<exists>c\<in>set (grid pg). c_day c = day sl \<and> c_period c = period sl"
  using settled_slots_in_grid [OF assms] by (fastforce simp: slots_in_grid_def cell_slot_def)

theorem slots_name_selects_witness:
  "list_all (\<lambda>s. list_all (\<lambda>sl. list_ex (\<lambda>c. c_day c = day sl \<and> c_period c = period sl)
        (grid (fst (dispatch 0 Timetable_change (fst (dispatch 0 (Select_option 0 ''0'') (fst (timetable_change (fst (load_page (Some reload_doc) blank_page))))))))))
        (timetable s))
      (subjectData (fst (dispatch 0 Timetable_change (fst (dispatch 0 (Select_option 0 ''0'') (fst (timetable_change (fst (load_page (Some reload_doc) blank_page)))))))))"
proof -
  have r: "settled 0 (fst (dispatch 0 Timetable_change (fst (dispatch 0 (Select_option 0 ''0'') (fst (timetable_change (fst (load_page (Some reload_doc) blank_page))))))))"
    by (rule settled.step [OF settled.step [OF settled.rebuilt]])
  show ?thesis using slots_name_selects [OF r] by (simp only: list_all_iff list_ex_iff)
qed

text \<open>C32. The input listeners are attached when the subject rows are drawn, but
  \<open>subjectData\<close> is filled only by a submit: from a page without subjects, after any
  events without a submit, typing into any drawn row throws \<open>TypeError\<close> at line
  219 (\<open>subjectData[i]\<close> is \<open>undefined\<close>), on every keystroke.\<close>

theorem input_before_submit_throws:
  assumes "subjectData pg = []" "Submit \<notin> set evs" "i < length (rows (fst (run tz evs pg)))"
  shows "snd (snd (subject_input i (fst (run tz evs pg)))) = Some TypeError"
  using assms subjects_empty_run [OF assms(1,2)] by (simp add: subject_input_def)

theorem input_before_submit_throws_witness:
  "snd (snd (subject_input 0 (fst (run 0 [Set_count ''1'', Generate_inputs] blank_page)))) = Some TypeError"
proof -
  have h: "0 < length (rows (fst (run 0 [Set_count ''1'', Generate_inputs] blank_page)))" by code_simp
  show ?thesis by (rule input_before_submit_throws [OF _ _ h]) simp_all
qed

text \<open>C30. A stored slot outside the grid drawn on reload has no select to write into
  (line 65 checks \<open>if (selectEl)\<close>): for every stored document, a slot of a stored
  subject whose period is beyond the stored periods per day is kept in
  \<open>subjectData\<close> by the page load, and the next change event rebuilds every timetable
  without it, so the slot is lost silently, and that is what the next save stores.\<close>

theorem reload_drops_slots_outside_grid:
  assumes tok: "token pg \<noteq> None" "token pg \<noteq> Some []"
    and e: "stored_end_date (ld_endDate d) (endDate_in pg) \<noteq> None"
    and sl: "ld_subjects d = Some ss" "k < length ss" "st_timetable (ss ! k) = Some tt" "sl \<in> set tt"
    and out: "int (grid_periods (stored_periods (ld_periodsPerDay d) (periodsPerDay_in pg))) \<le> period sl"
  shows "sl \<in> set (timetable (subjectData (fst (load_page (Some d) pg)) ! k))
         \<and> (\<forall>s\<in>set (subjectData (fst (timetable_change (fst (load_page (Some d) pg))))). sl \<notin> set (timetable s))"
proof -
  obtain e' where e': "stored_end_date (ld_endDate d) (endDate_in pg) = Some e'" using e by auto
  note ld = load_page_loaded [OF tok e']
  have "sl \<notin> cell_slot ` set (grid (fst (load_page (Some d) pg)))"
    using ld slot_outside_grid [OF out] by (simp add: slots_load_selects)
  then have "\<forall>s\<in>set (subjectData (fst (timetable_change (fst (load_page (Some d) pg))))). sl \<notin> set (timetable s)"
    using slots_in_grid_timetable_change [of "fst (load_page (Some d) pg)"]
      grid_timetable_change [of "fst (load_page (Some d) pg)"]
    by (fastforce simp: slots_in_grid_def)
  moreover have "sl \<in> set (timetable (subjectData (fst (load_page (Some d) pg)) ! k))"
    using ld sl by (simp add: load_subjects_def load_subject_def)
  ultimately show ?thesis by blast
qed

theorem reload_drops_slots_outside_grid_witness:
  "\<lparr>day = 1, period = 5\<rparr> \<in> set (timetable (subjectData (fst (load_page (Some reload_doc) blank_page)) ! 0))
   \<and> list_all (\<lambda>s. \<lparr>day = 1, period = 5\<rparr> \<notin> set (timetable s))
       (subjectData (fst (timetable_change (fst (load_page (Some reload_doc) blank_page)))))"
proof -
  have h1: "token blank_page \<noteq> None" "token blank_page \<noteq> Some []" by simp_all
  have h2: "stored_end_date (ld_endDate reload_doc) (endDate_in blank_page) \<noteq> None" by code_simp
  have h3: "ld_subjects reload_doc = Some [save_subject \<lparr>name = ''M'', attended = 3, total = 4,
              timetable = [\<lparr>day = 1, period = 5\<rparr>]\<rparr>]" by code_simp
  have h4: "0 < length [save_subject \<lparr>name = ''M'', attended = 3, total = 4, timetable = [\<lparr>day = 1, period = 5\<rparr>]\<rparr>]"
    by simp
  have h5: "st_timetable ([save_subject \<lparr>name = ''M'', attended = 3, total = 4,
              timetable = [\<lparr>day = 1, period = 5\<rparr>]\<rparr>] ! 0) = Some [\<lparr>day = 1, period = 5\<rparr>]"
    by (simp add: save_subject_def)
  have h6: "\<lparr>day = 1, period = 5\<rparr> \<in> set [\<lparr>day = 1, period = 5\<rparr>]" by simp
  have h7: "int (grid_periods (stored_periods (ld_periodsPerDay reload_doc) (periodsPerDay_in blank_page)))
              \<le> period \<lparr>day = 1, period = 5\<rparr>" by code_simp
  show ?thesis using reload_drops_slots_outside_grid [OF h1 h2 h3 h4 h5 h6 h7] by (simp add: list_all_iff)
qed

end
