(* ===== verification/Plan.thy ===== *)
theory Plan
  imports Scheduler
begin

text \<open>
  What the greedy loop of \<open>processAttendance\<close> (lines 290-313 of \<open>src/script.js\<close>)
  computes, stated over calendar days instead of Date objects. \<open>plan_days\<close> is the
  greedy of the specification on a list of local day numbers: a day is taken unless
  the two days before it are taken, two days of its \<open>weekKey\<close> bucket are taken, or
  a subject would fall below 75\% with that weekday's classes added. The loop over
  \<open>sel_state\<close> refines it: abstracting the selected Dates to their local days maps
  each \<open>leave_step\<close> to a \<open>day_step\<close>, given the invariant \<open>sel_inv\<close>. \<open>rejected_by\<close>
  names the three reasons a candidate is skipped; each reason only grows as the loop
  goes on, so every candidate left out of the result is left out for a reason that
  still holds at the end.
\<close>

definition day_step :: "subject list \<Rightarrow> day_number \<Rightarrow> day_number list \<Rightarrow> day_number list" where
  "day_step subs d S =
     (if d - 1 \<in> set S \<and> d - 2 \<in> set S then S
      else if 2 \<le> length (filter (\<lambda>x. week_bucket x = week_bucket d) S) then S
      else if \<not> list_all (\<lambda>s. floor_ok (project_leave (day_of_week d - 1) s)) subs then S
      else S @ [d])"

definition plan_days :: "subject list \<Rightarrow> day_number list \<Rightarrow> day_number list" where
  "plan_days subs ds = fold (day_step subs) ds []"

definition rejected_by :: "tz_offset \<Rightarrow> subject list \<Rightarrow> sel_state \<Rightarrow> time_value \<Rightarrow> bool" where
  "rejected_by tz subs st t \<longleftrightarrow>
     spacing_blocked tz st t \<or> week_full (weekLeaveCount st (week_key tz t)) \<or> \<not> floor_holds tz subs t"

subsection \<open>Refinement of the day-level plan\<close>

lemma leave_step_refines:
  assumes "sel_inv tz st"
  shows "map (local_day tz) (selectedDates (leave_step tz subs t st))
       = day_step subs (local_day tz t) (map (local_day tz) (selectedDates st))"
proof -
  have sp: "spacing_blocked tz st t \<longleftrightarrow>
      local_day tz t - 1 \<in> set (map (local_day tz) (selectedDates st))
      \<and> local_day tz t - 2 \<in> set (map (local_day tz) (selectedDates st))"
    using sel_invD(1) [OF assms] by (simp add: spacing_blocked_def)
  have wk: "week_full (weekLeaveCount st (week_key tz t)) \<longleftrightarrow>
      2 \<le> length (filter (\<lambda>x. week_bucket x = week_bucket (local_day tz t)) (map (local_day tz) (selectedDates st)))"
    using sel_invD(2) [OF assms, of "week_key tz t"]
    by (simp add: week_full_def wk_count_def week_key_bucket comp_def)
  have fl: "floor_holds tz subs t \<longleftrightarrow>
      list_all (\<lambda>s. floor_ok (project_leave (day_of_week (local_day tz t) - 1) s)) subs"
    by (simp add: floor_holds_def get_day_def)
  show ?thesis
    using sp wk fl by (simp add: leave_step_def day_step_def)
qed

lemma fold_leave_step_refines:
  "sel_inv tz st \<Longrightarrow>
     map (local_day tz) (selectedDates (fold (leave_step tz subs) ts st))
       = fold (day_step subs) (map (local_day tz) ts) (map (local_day tz) (selectedDates st))"
proof (induction ts arbitrary: st)
  case (Cons t ts)
  then show ?case by (simp add: leave_step_refines sel_inv_step)
qed simp

subsection \<open>Reasons for skipping a candidate\<close>

lemma rejected_by_accept:
  "rejected_by tz subs st t \<Longrightarrow> rejected_by tz subs (accept_date tz t' st) t"
  by (auto simp: rejected_by_def spacing_blocked_def week_full_def split: option.splits)

lemma rejected_by_step:
  "t \<in> set (selectedDates st) \<or> rejected_by tz subs st t \<Longrightarrow>
     t \<in> set (selectedDates (leave_step tz subs t' st)) \<or> rejected_by tz subs (leave_step tz subs t' st) t"
  using leave_step_cases [of tz subs t' st] by (auto intro: rejected_by_accept)

lemma rejected_by_fold:
  "\<forall>t\<in>A. t \<in> set (selectedDates st) \<or> rejected_by tz subs st t \<Longrightarrow>
     \<forall>t\<in>A \<union> set ds. t \<in> set (selectedDates (fold (leave_step tz subs) ds st))
                      \<or> rejected_by tz subs (fold (leave_step tz subs) ds st) t"
proof (induction ds arbitrary: st A)
  case Nil
  then show ?case by simp
next
  case (Cons t' ds)
  have "\<forall>t\<in>insert t' A. t \<in> set (selectedDates (leave_step tz subs t' st))
                         \<or> rejected_by tz subs (leave_step tz subs t' st) t"
  proof
    fix t assume "t \<in> insert t' A"
    then show "t \<in> set (selectedDates (leave_step tz subs t' st)) \<or> rejected_by tz subs (leave_step tz subs t' st) t"
    proof
      assume "t = t'"
      then show ?thesis by (auto simp: leave_step_def rejected_by_def)
    next
      assume "t \<in> A"
      with Cons.prems have "t \<in> set (selectedDates st) \<or> rejected_by tz subs st t" by blast
      then show ?thesis by (rule rejected_by_step)
    qed
  qed
  from Cons.IH [OF this] show ?case by simp
qed

lemma set_shuffle:
  assumes "random_source rnd"
  shows "set (shuffle rnd xs) = set xs"
proof (cases xs)
  case (Cons a l)
  then have "mset (shuffle rnd xs) = mset xs"
    using shuffle_from_perm [OF assms, of "length xs - 1" xs] by (simp add: shuffle_def)
  then show ?thesis by (rule mset_eq_setD)
qed (simp add: shuffle_def)

subsection \<open>Properties of the plan\<close>

text \<open>C33. \<open>processAttendance\<close> computes the day-level greedy of the specification:
  its leave dates are the sorted result of \<open>plan_days\<close> run on the local days of the
  shuffled candidates (a functional refinement, through the abstraction of Dates to
  their \<open>toDateString\<close> days).\<close>

theorem process_attendance_refines_plan:
  "finalLeaveDates (process_attendance tz rnd subs today e)
     = sort (plan_days subs (map (local_day tz) (shuffle rnd (candidate_dates tz today e))))"
proof -
  let ?sel = "selectedDates (select_leaves tz subs (shuffle rnd (candidate_dates tz today e)))"
  have abs: "map (local_day tz) ?sel = plan_days subs (map (local_day tz) (shuffle rnd (candidate_dates tz today e)))"
    using fold_leave_step_refines [OF sel_inv_init, of tz subs]
    by (simp add: select_leaves_def plan_days_def init_sel_def)
  have "sorted (map (local_day tz) (sort ?sel))"
    by (rule sorted_map_mono [OF sorted_sort]) (auto simp: mono_on_def intro: local_day_mono)
  moreover have "mset (map (local_day tz) (sort ?sel)) = mset (map (local_day tz) ?sel)" by simp
  ultimately have "sort (map (local_day tz) ?sel) = map (local_day tz) (sort ?sel)"
    by (simp add: properties_for_sort)
  then show ?thesis by (simp add: final_dates_eq abs)
qed

text \<open>C34. The greedy loop drops no candidate without cause: a weekday of the window
  that is not a leave date fails the floor, or its \<open>weekKey\<close> bucket already holds two
  leave dates, or the two days before it are both leave dates.\<close>

theorem greedy_rejects_with_cause:
  assumes "random_source rnd" and "t \<in> set (candidate_dates tz today e)"
    and "local_day tz t \<notin> set (finalLeaveDates (process_attendance tz rnd subs today e))"
  shows "\<not> floor_holds tz subs t
    \<or> 2 \<le> length (filter (\<lambda>d. week_bucket d = week_key tz t) (finalLeaveDates (process_attendance tz rnd subs today e)))
    \<or> (local_day tz t - 1 \<in> set (finalLeaveDates (process_attendance tz rnd subs today e))
       \<and> local_day tz t - 2 \<in> set (finalLeaveDates (process_attendance tz rnd subs today e)))"
proof -
  let ?cs = "shuffle rnd (candidate_dates tz today e)"
  let ?st = "select_leaves tz subs ?cs"
  have fin: "finalLeaveDates (process_attendance tz rnd subs today e) = map (local_day tz) (sort (selectedDates ?st))"
    by (rule final_dates_eq)
  have inv: "sel_inv tz ?st" by (rule sel_inv_select_leaves)
  have "t \<in> set ?cs" unfolding set_shuffle [OF assms(1)] by (rule assms(2))
  then have "t \<in> set (selectedDates ?st) \<or> rejected_by tz subs ?st t"
    using rejected_by_fold [of "{}" init_sel tz subs ?cs] by (simp add: select_leaves_def)
  moreover have "t \<notin> set (selectedDates ?st)" using assms(3) fin by auto
  ultimately have rej: "rejected_by tz subs ?st t" by blast
  have wk: "length (filter (\<lambda>d. week_bucket d = week_key tz t) (finalLeaveDates (process_attendance tz rnd subs today e)))
        = wk_count tz (selectedDates ?st) (week_key tz t)"
    by (simp add: fin wk_count_def length_filter_sort comp_def week_key_bucket)
  show ?thesis
    using rej sel_invD(1) [OF inv] sel_invD(2) [OF inv, of "week_key tz t"] wk fin
    by (auto simp: rejected_by_def spacing_blocked_def week_full_def split: if_splits)
qed

theorem greedy_rejects_with_cause_witness:
  "random_source (\<lambda>_. 0)
   \<and> noon 20581 \<in> set (candidate_dates 0 (noon 20580) (Some (midnight 20590)))
   \<and> local_day 0 (noon 20581) \<notin> set (finalLeaveDates
        (process_attendance 0 (\<lambda>_. 0) [math_subject, physics_subject] (noon 20580) (Some (midnight 20590))))
   \<and> \<not> floor_holds 0 [math_subject, physics_subject] (noon 20581)"
proof -
  have h1: "random_source (\<lambda>_. 0)" by (simp add: random_source_def)
  have h2: "noon 20581 \<in> set (candidate_dates 0 (noon 20580) (Some (midnight 20590)))" by code_simp
  have h3: "local_day 0 (noon 20581) \<notin> set (finalLeaveDates
        (process_attendance 0 (\<lambda>_. 0) [math_subject, physics_subject] (noon 20580) (Some (midnight 20590))))"
    by code_simp
  have h4: "\<not> floor_holds 0 [math_subject, physics_subject] (noon 20581)" by code_simp
  show ?thesis using greedy_rejects_with_cause [OF h1 h2 h3] h1 h2 h3 h4 by blast
qed

end
