(* ===== verification/Presentation.thy ===== *)
theory Presentation
  imports Scheduler JsString
begin

text \<open>
  \<open>showFinalResult\<close> (lines 321-330 of \<open>src/script.js\<close>) and the string the leave
  dates are shown as, \<open>Date.prototype.toDateString\<close> (line 313): three HTML strings,
  each a bold title, a line break, and either \<open>None\<close> or the entries joined by
  \<open><br>\<close>, written into \<open>innerHTML\<close>. \<open>date_string\<close> renders a local day as
  ECMAScript's \<open>DateString\<close> does: weekday, month, two-digit day and a year of at
  least four digits, separated by spaces.
\<close>

definition weekday_names :: "string list" where
  "weekday_names = [''Sun'', ''Mon'', ''Tue'', ''Wed'', ''Thu'', ''Fri'', ''Sat'']"

definition month_names :: "string list" where
  "month_names = [''Jan'', ''Feb'', ''Mar'', ''Apr'', ''May'', ''Jun'', ''Jul'', ''Aug'', ''Sep'',
                  ''Oct'', ''Nov'', ''Dec'']"

definition zero_padded :: "nat \<Rightarrow> nat \<Rightarrow> string" where
  \<comment> \<open>\<open>ToZeroPaddedDecimalString(n, w)\<close>: the decimal digits of \<open>n\<close>, padded to at
      least \<open>w\<close> characters\<close>
  "zero_padded w n =
     (let ds = map digit_char (nat_digits n) in replicate (w - length ds) (CHR ''0'') @ ds)"

definition date_string :: "day_number \<Rightarrow> string" where
  \<comment> \<open>\<open>toDateString()\<close> of a Date on local day \<open>d\<close>, e.g. \<open>Tue Jul 07 2026\<close>\<close>
  "date_string d =
     (case civil_from_days d of (y, m, dd) \<Rightarrow>
        weekday_names ! nat (day_of_week d) @ '' '' @ month_names ! nat m @ '' ''
        @ zero_padded 2 (nat dd) @ '' '' @ (if y < 0 then ''-'' else []) @ zero_padded 4 (nat \<bar>y\<bar>))"

fun join_br :: "string list \<Rightarrow> string" where
  \<comment> \<open>\<open>xs.join("<br>")\<close>\<close>
  "join_br [] = []"
| "join_br [x] = x"
| "join_br (x # y # ys) = x @ ''<br>'' @ join_br (y # ys)"

definition section_html :: "string \<Rightarrow> string list \<Rightarrow> string" where
  \<comment> \<open>\<open>"<strong>title:</strong><br>" + (xs.length ? xs.join("<br>") : "None")\<close>\<close>
  "section_html title xs =
     ''<strong>'' @ title @ '':</strong><br>'' @ (if xs = [] then ''None'' else join_br xs)"

definition show_final_result :: "leave_result \<Rightarrow> string \<times> string \<times> string" where
  \<comment> \<open>the \<open>innerHTML\<close> of \<open>leaveDatesSection\<close>, \<open>safeSubjectsSection\<close> and
      \<open>notPossibleSection\<close>\<close>
  "show_final_result r =
     (section_html ''Leave Dates (Common to All Subjects)'' (map date_string (finalLeaveDates r)),
      section_html ''Safe Subjects'' (safeSubjects r),
      section_html ''Subjects NOT Safe (Meet Officials)'' (notPossibleSubjects r))"

subsection \<open>Rendering lemmas\<close>

lemma sublist_join_br: "x \<in> set xs \<Longrightarrow> sublist x (join_br xs)"
proof (induction xs rule: join_br.induct)
  case (3 a b rest)
  show ?case
  proof (cases "x = a")
    case True
    have "sublist a (a @ (''<br>'' @ join_br (b # rest)))" by (rule sublist_append_rightI)
    then show ?thesis using True by simp
  next
    case False
    with "3.prems" have "sublist x (join_br (b # rest))" by (intro "3.IH") simp
    then have "sublist x ((a @ ''<br>'') @ join_br (b # rest))" by (simp only: sublist_append simp_thms)
    then show ?thesis by simp
  qed
qed auto

lemma sublist_section_html:
  assumes "x \<in> set xs"
  shows "sublist x (section_html title xs)"
proof -
  have "sublist x ((''<strong>'' @ title @ '':</strong><br>'') @ join_br xs)"
    using sublist_join_br [OF assms] by (simp only: sublist_append simp_thms)
  moreover have "xs \<noteq> []" using assms by auto
  ultimately show ?thesis by (simp only: section_html_def if_False append_assoc)
qed

subsection \<open>Properties of the rendering\<close>

text \<open>C12. \<open>showFinalResult\<close> writes subject names into \<open>innerHTML\<close> without escaping:
  the name of every subject appears verbatim in the section it is classified into, so
  a name containing markup (typed into the form or stored on the server) is parsed
  as HTML by the page.\<close>

theorem rendered_names_unescaped:
  assumes "s \<in> set subs"
  shows "sublist (name s)
    (if floor_ok s then fst (snd (show_final_result (process_attendance tz rnd subs today e)))
     else snd (snd (show_final_result (process_attendance tz rnd subs today e))))"
proof (cases "floor_ok s")
  case True
  with assms have "name s \<in> set (safeSubjects (process_attendance tz rnd subs today e))"
    by (simp add: classify_result)
  with True show ?thesis by (simp add: show_final_result_def sublist_section_html)
next
  case False
  with assms have "name s \<in> set (notPossibleSubjects (process_attendance tz rnd subs today e))"
    by (simp add: classify_result)
  with False show ?thesis by (simp add: show_final_result_def sublist_section_html)
qed

theorem rendered_names_unescaped_witness:
  "sublist ''<img src=x onerror=alert(1)>''
     (fst (snd (show_final_result (process_attendance 0 (\<lambda>_. 0)
        [\<lparr>name = ''<img src=x onerror=alert(1)>'', attended = 3, total = 4, timetable = []\<rparr>]
        (noon 20640) (Some (midnight 20644))))))"
proof -
  have h: "\<lparr>name = ''<img src=x onerror=alert(1)>'', attended = 3, total = 4, timetable = []\<rparr>
      \<in> set [\<lparr>name = ''<img src=x onerror=alert(1)>'', attended = 3, total = 4, timetable = []\<rparr>]" by simp
  have f: "floor_ok \<lparr>name = ''<img src=x onerror=alert(1)>'', attended = 3, total = 4, timetable = []\<rparr>"
    by (simp add: floor_ok_def pct_at_least_75_iff)
  show ?thesis using rendered_names_unescaped [OF h, of 0 "\<lambda>_. 0" "noon 20640" "Some (midnight 20644)"] f
    by (simp only: if_True subject.select_convs)
qed

end
