(* ===== verification/Requests.thy ===== *)
theory Requests
  imports PageLoad
begin

text \<open>
  The request side of the two functions that talk to the store in \<open>src/script.js\<close>.
  The network is the environment: a request ends in a \<open>response\<close>, either a network
  failure (\<open>fetch\<close> rejects) or an HTTP answer with its \<open>ok\<close> flag and its body parsed
  by \<open>res.json()\<close> (\<open>None\<close> when the body is not JSON, which makes \<open>res.json()\<close>
  reject; a JSON \<open>null\<close> body is \<open>Null_payload\<close>). \<open>save_completion\<close> is what the rest of \<open>saveUserDataToServer\<close> does once
  its request is sent (lines 109-123): console lines only, never a change of the
  page. \<open>load_user_data\<close> is \<open>loadUserDataFromServer\<close> around the request (lines
  21-33 and 81-83): without a token nothing is sent; a failed request or an answer
  that is not \<open>ok\<close> leaves the page as it is; otherwise \<open>payload.data\<close> goes to
  \<open>load_page\<close>. Each \<open>console.log\<close> and \<open>console.error\<close> line is a \<open>Log\<close> effect.
\<close>

datatype 'a response = Network_error | Http_response bool "'a option"

datatype payload =
    Null_payload  \<comment> \<open>the body is JSON \<open>null\<close>: reading \<open>payload.data\<close> throws \<open>TypeError\<close>\<close>
  | Payload "stored_doc option"  \<comment> \<open>\<open>payload.data\<close>, \<open>None\<close> when it is missing or falsy\<close>

definition save_completion :: "save_doc \<Rightarrow> unit response \<Rightarrow> effect list" where
  \<comment> \<open>\<open>console.log("Saving to server:", payload)\<close>, then the outcome of the request\<close>
  "save_completion d r =
     Log ''Saving to server:'' #
     (case r of
        Network_error \<Rightarrow> [Log ''saveUserDataToServer error:'']
      | Http_response ok body \<Rightarrow>
          (case body of
             None \<Rightarrow> [Log ''saveUserDataToServer error:'']
           | Some _ \<Rightarrow> if ok then [Log ''Saved user data:''] else [Log ''Save failed:'']))"

definition load_user_data :: "payload response \<Rightarrow> page \<Rightarrow> outcome" where
  \<comment> \<open>\<open>loadUserDataFromServer()\<close>: the response body is \<open>payload\<close>, its \<open>data\<close> field
      the stored document\<close>
  "load_user_data r pg =
     (if (case token pg of None \<Rightarrow> True | Some t \<Rightarrow> t = []) then (pg, [], None)
      else case r of
        Network_error \<Rightarrow> (pg, [Log ''loadUserDataFromServer error:''], None)
      | Http_response ok body \<Rightarrow>
          (case body of
             None \<Rightarrow> (pg, [Log ''loadUserDataFromServer error:''], None)
           | Some p \<Rightarrow>
               if ok then
                 (case p of
                    Null_payload \<Rightarrow> (pg, [Log ''loadUserDataFromServer error:''], None)
                  | Payload doc \<Rightarrow> load_page doc pg)
               else (pg, [], None)))"

subsection \<open>Requests that do not succeed\<close>

text \<open>C29. A page load whose request does not succeed (no token, a network failure, a
  body that is not JSON, or an answer that is not \<open>ok\<close>) leaves the page exactly as
  it was and shows nothing: its only effects are console lines. So does an \<open>ok\<close>
  answer whose body is JSON \<open>null\<close>, where reading \<open>payload.data\<close> throws.\<close>

theorem failed_load_changes_nothing:
  assumes "\<not> (\<exists>doc. r = Http_response True (Some (Payload doc)))"
  shows "fst (load_user_data r pg) = pg \<and> (\<forall>e\<in>set (fst (snd (load_user_data r pg))). \<exists>m. e = Log m)"
  using assms by (auto simp: load_user_data_def split: response.split option.split payload.split)

theorem failed_load_changes_nothing_witness:
  "fst (load_user_data (Http_response False (Some (Payload None))) blank_page) = blank_page
   \<and> snd (load_user_data (Http_response False (Some (Payload None))) blank_page) = ([], None)"
proof -
  have h: "\<not> (\<exists>doc. (Http_response False (Some (Payload None)) :: payload response) = Http_response True (Some (Payload doc)))"
    by simp
  show ?thesis using failed_load_changes_nothing [OF h, of blank_page] by (simp add: load_user_data_def)
qed

end
