(* ===== verification/Spec2Isabelle.thy ===== *)
theory Spec2Isabelle
  imports Session Plan Presentation Requests
begin

text \<open>
  A verification library for the attendance leave planner of \<open>src/script.js\<close>
  (repository stay75-frontend). The program is one browser script: a global array
  \<open>subjectData\<close> of subjects (name, attended, total, timetable of day/period slots) is
  built by the attendance form, edited by input and timetable listeners, stored to and
  loaded from a remote store, and read by \<open>processAttendance\<close>, which picks the
  weekdays up to an end date that can be skipped without any subject falling below 75\%.

  \<^bold>\<open>Theories.\<close>
  \<^item> \<open>Prelude\<close>: type names (\<open>time_value\<close>, \<open>tz_offset\<close>, \<open>day_number\<close>), the
    \<open>js_error\<close> type of exceptions, the \<open>js_eval\<close> rule collection, list and multiset
    lemmas shared by the components.
  \<^item> \<open>Calendar\<close>: the JavaScript \<open>Date\<close> operations the scheduler calls
    (\<open>getDay\<close>, \<open>setDate(getDate() + k)\<close>, \<open>getFullYear\<close>, \<open>getMonth\<close>,
    \<open>getDate\<close>, \<open>toDateString\<close>) over millisecond time values and a fixed time-zone
    offset; \<open>week_key\<close> is the \<open>weekKey\<close> string of line 293 as a triple.
  \<^item> \<open>Attendance\<close>: the \<open>subject\<close> and \<open>slot\<close> records, the 75\% test with
    JavaScript division (\<open>pct_at_least_75\<close>, \<open>pct_below_75\<close>: a zero divisor gives
    \<open>Infinity\<close> or \<open>NaN\<close>), \<open>project_leave\<close> (\<open>tempSubjects\<close>), \<open>classify\<close>
    (line 316) and \<open>load_classify\<close> (lines 76-77).
  \<^item> \<open>Scheduler\<close>: \<open>processAttendance\<close> (lines 275-319) as \<open>process_attendance\<close>:
    \<open>working_dates\<close> is the \<open>while\<close> loop (a \<open>function\<close> terminating by the
    measure \<open>endDate - current\<close>), \<open>shuffle\<close> the Fisher-Yates loop with an injected
    source \<open>rnd\<close> of \<open>Math.random\<close> draws, \<open>leave_step\<close> one iteration of the
    greedy loop over the record \<open>sel_state\<close> (\<open>selectedDates\<close>,
    \<open>selectedDateStrings\<close>, \<open>weekLeaveCount\<close>), \<open>select_leaves\<close> the loop as a
    \<open>fold\<close>.
  \<^item> \<open>JsString\<close>: \<open>trim\<close>, \<open>parseInt\<close> without radix (\<open>parse_int\<close>, \<open>None\<close> for
    \<open>NaN\<close>), \<open>parseInt(v) || 0\<close> and \<open>String(n)\<close> (\<open>int_to_string\<close>, in plain
    decimal, as JavaScript writes integers below \<open>10^21\<close>; the script converts only
    indices and counts).
  \<^item> \<open>Timetable\<close>: the grid of \<open>generateTimetable\<close> (lines 168-209) as a list of
    \<open>cell\<close> records in document order; \<open>rebuild_timetables\<close> is the rebuild of
    every subject's timetable from the selects (lines 233-241 and 257-265), with the
    \<open>TypeError\<close> of an index that names no subject; \<open>load_selects\<close> writes stored
    timetables into the selects (lines 61-67).
  \<^item> \<open>Persist\<close>: the payload of \<open>saveUserDataToServer\<close> (lines 94-107, with
    \<open>Number()\<close> as \<open>js_number\<close>) and the mapping of a loaded document to subjects
    (lines 35-45).
  \<^item> \<open>Handlers\<close>: the record \<open>page\<close> (\<open>subjectData\<close>, the grid, the subject rows,
    the other inputs, the token) and one definition per handler: \<open>attendance_submit\<close>
    (lines 127-148), \<open>generate_subject_inputs\<close> (151-165), \<open>subject_input\<close>
    (212-227), \<open>timetable_change\<close> (229-245), \<open>calculate\<close> (248-272, with
    \<open>parse_date\<close> for \<open>new Date(endDateInput)\<close>) and \<open>logout\<close> (13-17). A handler
    returns the new page, its effects (alert, save payload, shown result, redirect) and
    the exception that ends it; \<open>run\<close> is the event loop over a list of events.
  \<^item> \<open>PageLoad\<close>: \<open>loadUserDataFromServer\<close> after its request (lines 32-84) as
    \<open>load_page\<close> over the parsed document \<open>stored_doc\<close>: subject count, rows
    (\<open>fill_rows\<close>), \<open>subjectData\<close>, the end date through \<open>toISOString\<close>
    (\<open>iso_date\<close>), the periods, the grid with the stored slots selected, the shown
    dates; the caught \<open>RangeError\<close> is a \<open>Log\<close> effect. \<open>stored_of_saved\<close> is the
    store's side: the document it returns for a saved payload.
  \<^item> \<open>Requests\<close>: the request side of \<open>saveUserDataToServer\<close> (lines 109-123,
    \<open>save_completion\<close>) and \<open>loadUserDataFromServer\<close> (lines 19-84,
    \<open>load_user_data\<close>): the token test, the settled \<open>fetch\<close> and
    \<open>res.json()\<close> as a \<open>response\<close> value (network failure, or an HTTP answer with its
    \<open>ok\<close> flag and a body that parses or not, a JSON \<open>null\<close> body being
    \<open>Null_payload\<close>), the \<open>ok\<close> test and the \<open>catch\<close>, each console line a \<open>Log\<close>
    effect.
  \<^item> \<open>Session\<close>: sessions as the inductive set \<open>consistent\<close> of pages reachable by
    events other than logout and a submit that stops early, with the invariant
    \<open>grid_ok\<close> (every select names no subject or an existing one), and the inductive
    set \<open>settled\<close> of pages reached by any events from an empty page or from a page
    whose timetables the change listener has rebuilt, with the invariant
    \<open>slots_in_grid\<close> (every timetable slot is the day and period of a select); the page
    load is outside it, since it keeps stored slots it draws no select for (C30).
  \<^item> \<open>Plan\<close>: the specification's greedy over calendar days (\<open>day_step\<close>,
    \<open>plan_days\<close>), which the loop over \<open>sel_state\<close> refines through the abstraction
    of each Date to its local day, and \<open>rejected_by\<close>, the three reasons the loop
    skips a candidate.
  \<^item> \<open>Presentation\<close>: \<open>showFinalResult\<close> (lines 321-330) as \<open>show_final_result\<close>,
    the three \<open>innerHTML\<close> strings, with \<open>toDateString\<close> as \<open>date_string\<close>.

  \<^bold>\<open>What is proved.\<close> Scheduler: the floor holds for every reported date (C1); the
  weekly cap is an invariant of the greedy loop (C2, by the invariant \<open>sel_inv\<close>, which
  ties the date-string set and the week counters to the selected list); the spacing
  rule forbids three consecutive days when candidates are visited in calendar order
  (C3); the classification is a partition (C4) and the 75\% test has an integer form,
  with \<open>Infinity\<close> and \<open>NaN\<close> at a total of 0 (C5); the result is strictly sorted and
  inside the window (C6, C7); the enumeration is exact (C8) and runs exactly
  \<open>(endDate - current) div day + 1\<close> iterations, one date per weekday among them (C15);
  the shuffle is a permutation when the draws are in \<open>[0, 1)\<close> (C9). The loop refines
  the day-level greedy of the specification (C33) and skips no candidate without a
  reason that still holds at the end (C34). Divergences from the specification: in
  its own example Physics blocks every leave date (C10), a subject at \<open>0/0\<close> blocks
  all leave (C11), the end date is a leave date only when the computation starts no
  later in the local day than the time-zone offset (C13), the page-load classification
  drops \<open>0/0\<close> subjects (C14) and otherwise agrees with the scheduler's (C35); subject
  names reach \<open>innerHTML\<close> unescaped (C12). Timetables: the rebuild gives disjoint
  slots (C16) and throws exactly on an index without subject (C17); a stored timetable
  written into a fresh grid and rebuilt comes back (C18); from an empty page or after a
  rebuild, every event keeps each slot naming a select of the grid (C19, by rule
  induction over \<open>settled\<close>). Handlers: \<open>calculate\<close> rejects a past end date (C20),
  saves the dates it shows (C21) and shows an empty result for an invalid end date
  (C25); a successful submit builds validated subjects (C22), a submit stopped by an
  invalid row keeps a stale grid that makes the next \<open>calculate\<close> throw (C23), the
  input listener stores attended above total (C24), and no save follows a logout,
  whatever the events (C27). Page load: a save followed by a reload restores the
  subjects, the end date and a grid from which the next rebuild gives the saved
  subjects back (C28); a load whose request fails or is not \<open>ok\<close> leaves the page
  unchanged with only console lines (C29); a stored slot beyond the stored periods is
  kept by the load and dropped by the next rebuild (C30). Sessions: in every
  \<open>consistent\<close> page the rebuild of the change listener and of \<open>calculate\<close> cannot throw
  (C31, by rule induction over the reachable pages) and \<open>calculate\<close> always answers
  with one alert or the shown result (C26); before the first submit, typing into any
  drawn row throws, whatever other events came first (C32). The scenario lemmas of
  \<open>Scheduler\<close> evaluate the model on concrete 2026 dates by \<open>code_simp\<close> to exhibit
  three divergences: shuffled order breaks the spacing rule, leave days do not
  compound, and the week buckets are not calendar weeks.

  \<^bold>\<open>Modelling choices.\<close> Numbers are exact: counts are \<open>int\<close>, quotients \<open>rat\<close>
  (for counts below \<open>2^50\<close> double rounding cannot flip a comparison with 75); the
  draws of \<open>Math.random\<close> are an arbitrary function \<open>rnd\<close>, constrained to \<open>[0, 1)\<close>
  by \<open>random_source\<close> where a theorem needs the shuffle to stay in range; local time is
  UTC plus a fixed offset, so daylight-saving changes are not modelled; \<open>toDateString\<close>
  is kept as the local day number it renders (\<open>date_string\<close> renders it for display;
  the inverse of \<open>civil_from_days\<close>, which makes the rendering injective, is not
  proved). Strings are byte strings; \<open>parseInt\<close>
  white space is the ASCII part of ECMAScript's. \<open>new Date(s)\<close> is modelled for the
  \<open>YYYY-MM-DD\<close> strings a date input produces (midnight UTC); other strings are
  \<open>Invalid Date\<close>; a stored \<open>periodsPerDay\<close> is an integer. No fuel is needed: every loop of the program is a terminating
  recursion (\<open>fun\<close>, \<open>fold\<close> or a \<open>function\<close> with a measure).

  \<^bold>\<open>Not modelled.\<close> The network itself: a request may end in any \<open>response\<close>, and
  the headers, the JSON encoding and the order in which concurrent save requests arrive
  are not modelled; the styles and the
  element structure of the DOM (\<open>style.display\<close>, the table markup of
  \<open>generateTimetable\<close>, the row markup of \<open>generateSubjectInputs\<close>), the registration
  of listeners (each handler is dispatched directly, and a listener registered twice
  runs once), the browser's constraint validation of the form (\<open>min="0"\<close>,
  \<open>required\<close>), which can stop a submit before its listener runs, and the
  \<open>Number()\<close> literal
  \<open>Infinity\<close>.
\<close>

end
